theory Spec2Isabelle
  imports Complex_Main "HOL-Library.Word" "HOL-Library.Multiset"
    "HOL-Library.Log_Nat" "HOL-Library.Signed_Division" "HOL-Library.Sublist"
    "HOL-Library.Char_ord" "HOL-Library.List_Lexorder"
begin

section \<open>The heartbeat monitor of node/heartbeat/monitor.go\<close>

subsection \<open>Time, durations and machine integers\<close>

text \<open>
  Go's \<^verbatim>\<open>time.Duration\<close> is an \<^verbatim>\<open>int64\<close> count of nanoseconds: a 64-bit word,
  read through \<open>sint\<close>; its \<^verbatim>\<open>+=\<close> wraps. A \<^verbatim>\<open>time.Time\<close> is modelled as the
  instant it denotes, the (unbounded) number of nanoseconds since the Unix epoch: its range
  is far wider than 64 bits of nanoseconds. The monotonic clock reading and the location a
  \<^verbatim>\<open>time.Time\<close> also carries are not modelled.
\<close>

type_synonym duration = "64 word"
type_synonym time = int
type_synonym int64 = "64 word"
type_synonym uint32 = "32 word"

text \<open>\<^verbatim>\<open>t.UnixNano()\<close>: the nanoseconds since the epoch computed in \<^verbatim>\<open>int64\<close>, so
  wrapped for an instant before 1678 or after 2262.\<close>

definition UnixNano :: "time \<Rightarrow> int64" where
  "UnixNano t = word_of_int t"

text \<open>\<^verbatim>\<open>time.Unix(0, nsec)\<close>.\<close>

definition Unix0 :: "int64 \<Rightarrow> time" where
  "Unix0 nsec = sint nsec"

text \<open>\<^verbatim>\<open>d.Nanoseconds()\<close> is \<^verbatim>\<open>int64(d)\<close>, and \<^verbatim>\<open>time.Duration(n)\<close> its inverse.\<close>

definition Nanoseconds :: "duration \<Rightarrow> int64" where
  "Nanoseconds d = d"

definition Duration :: "int64 \<Rightarrow> duration" where
  "Duration n = n"

definition maxDurationValue :: duration where
  "maxDurationValue = word_of_int (2 ^ 63 - 1)"

definition minDurationValue :: duration where
  "minDurationValue = word_of_int (- (2 ^ 63))"

text \<open>\<^verbatim>\<open>t.Sub(u)\<close> on wall-clock instants: the difference, saturated at the largest and
  the smallest duration.\<close>

definition Sub :: "time \<Rightarrow> time \<Rightarrow> duration" where
  "Sub t u =
     (let d = t - u in
      if d > 2 ^ 63 - 1 then maxDurationValue
      else if d < - (2 ^ 63) then minDurationValue
      else word_of_int d)"

text \<open>Modelled from the spec: the helper \<^verbatim>\<open>maxDuration\<close> is not in monitor.go; the spec
  has the elapsed time "clipped at 0", so it is the larger of its two arguments, compared
  as signed integers.\<close>

definition maxDuration :: "duration \<Rightarrow> duration \<Rightarrow> duration" where
  "maxDuration a b = (if sint a < sint b then b else a)"

subsection \<open>Errors\<close>

datatype error =
    ErrNilMarshalizer
  | ErrNilPeerTypeProvider
  | ErrEmptyPublicKeysMap
  | ErrNilMessageHandler
  | ErrNilHeartbeatStorer
  | ErrNilTimer
  | ErrNilAntifloodHandler
  | ErrNilAppStatusHandler
  | ErrNilMessage
  | ErrNilDataToProcess
  | ErrCollaborator string

subsection \<open>The record of one peer and its exported form\<close>

text \<open>The fields of \<^verbatim>\<open>heartbeatMessageInfo\<close> that monitor.go reads and writes. The
  function value \<^verbatim>\<open>getTimeHandler\<close> is kept as a flag: set once \<^verbatim>\<open>m.timer.Now\<close> is
  installed, unset for the nil function. The mutex has no content.\<close>

record heartbeatMessageInfo =
  maxDurationPeerUnresponsive :: duration
  maxInactiveTime :: duration
  totalUpTime :: duration
  totalDownTime :: duration
  getTimeHandler :: bool
  timeStamp :: time
  isActive :: bool
  receivedShardID :: uint32
  computedShardID :: uint32
  versionNumber :: string
  nodeDisplayName :: string
  peerType :: string
  lastUptimeDowntime :: time
  genesisTime :: time

record HeartbeatDTO =
  MaxInactiveTime :: int64
  TotalUpTime :: int64
  TotalDownTime :: int64
  TimeStamp :: int64
  IsActive :: bool
  ReceivedShardID :: uint32
  ComputedShardID :: uint32
  VersionNumber :: string
  NodeDisplayName :: string
  PeerType :: string
  LastUptimeDowntime :: int64
  GenesisTime :: int64

definition convertToExportedStruct :: "heartbeatMessageInfo \<Rightarrow> HeartbeatDTO" where
  "convertToExportedStruct v =
     \<lparr> MaxInactiveTime = Nanoseconds (maxInactiveTime v),
       TotalUpTime = Nanoseconds (totalUpTime v),
       TotalDownTime = Nanoseconds (totalDownTime v),
       TimeStamp = UnixNano (timeStamp v),
       IsActive = isActive v,
       ReceivedShardID = receivedShardID v,
       ComputedShardID = computedShardID v,
       VersionNumber = versionNumber v,
       NodeDisplayName = nodeDisplayName v,
       PeerType = peerType v,
       LastUptimeDowntime = UnixNano (lastUptimeDowntime v),
       GenesisTime = UnixNano (genesisTime v) \<rparr>"

definition convertFromExportedStruct :: "HeartbeatDTO \<Rightarrow> duration \<Rightarrow> heartbeatMessageInfo" where
  "convertFromExportedStruct hbDTO maxDur =
     \<lparr> maxDurationPeerUnresponsive = maxDur,
       maxInactiveTime = Duration (MaxInactiveTime hbDTO),
       totalUpTime = Duration (TotalUpTime hbDTO),
       totalDownTime = Duration (TotalDownTime hbDTO),
       getTimeHandler = False,
       timeStamp = Unix0 (TimeStamp hbDTO),
       isActive = IsActive hbDTO,
       receivedShardID = ReceivedShardID hbDTO,
       computedShardID = ComputedShardID hbDTO,
       versionNumber = VersionNumber hbDTO,
       nodeDisplayName = NodeDisplayName hbDTO,
       peerType = PeerType hbDTO,
       lastUptimeDowntime = Unix0 (LastUptimeDowntime hbDTO),
       genesisTime = Unix0 (GenesisTime hbDTO) \<rparr>"

text \<open>An instant is kept by the exported form exactly when its nanoseconds fit \<^verbatim>\<open>int64\<close>.\<close>

definition representable :: "time \<Rightarrow> bool" where
  "representable t \<longleftrightarrow> - (2 ^ 63) \<le> t \<and> t < 2 ^ 63"

text \<open>The fields of a record that the exported form holds.\<close>

definition persistedFields ::
  "heartbeatMessageInfo \<Rightarrow>
   (bool \<times> uint32 \<times> uint32 \<times> string \<times> string \<times> string) \<times>
   (time \<times> duration \<times> duration \<times> duration \<times> time \<times> time)" where
  "persistedFields v =
     ((isActive v, receivedShardID v, computedShardID v, versionNumber v,
       nodeDisplayName v, peerType v),
      (timeStamp v, maxInactiveTime v, totalUpTime v, totalDownTime v,
       lastUptimeDowntime v, genesisTime v))"

text \<open>The zero \<^verbatim>\<open>time.Time\<close>, January 1 of year 1: 62135596800 seconds before the epoch.\<close>

definition zeroTime :: time where
  "zeroTime = - 62135596800 * 1000000000"

definition zeroTimeRecord :: heartbeatMessageInfo where
  "zeroTimeRecord =
     \<lparr> maxDurationPeerUnresponsive = 1, maxInactiveTime = 0, totalUpTime = 0,
       totalDownTime = 0, getTimeHandler = True, timeStamp = 0, isActive = False,
       receivedShardID = 0, computedShardID = 0, versionNumber = [], nodeDisplayName = [],
       peerType = [], lastUptimeDowntime = 0, genesisTime = zeroTime \<rparr>"

subsection \<open>Collaborators\<close>

text \<open>The timer's \<^verbatim>\<open>Now()\<close> gives one reading per call: \<open>readings\<close> is the sequence of
  instants the clock gives, \<open>reads\<close> the number of calls made so far.\<close>

record Timer =
  readings :: "nat \<Rightarrow> time"
  reads :: nat

definition Now :: "Timer \<Rightarrow> time \<times> Timer" where
  "Now t = (readings t (reads t), t\<lparr>reads := Suc (reads t)\<rparr>)"

text \<open>The storer's loads are results of the storage as found at start-up (monitor.go loads
  only inside \<^verbatim>\<open>NewMonitor\<close>); its saves are recorded, in order, as the calls made. The
  error a save returns is only logged by monitor.go.\<close>

record HeartbeatStorageHandler =
  LoadHbmiDTO :: "string \<Rightarrow> error + HeartbeatDTO"
  LoadKeys :: "error + string list"
  UpdateGenesisTime :: "time \<Rightarrow> error option"

datatype storerCall =
    SavePubkeyData string HeartbeatDTO
  | SaveKeys "string list"

text \<open>monitor.go calls \<^verbatim>\<open>ComputeForPubKey\<close> with one argument (three results) and with
  two arguments (two results); the second is named apart here.\<close>

record PeerTypeProviderHandler =
  ComputeForPubKey :: "string \<Rightarrow> error + (string \<times> uint32)"
  ComputeForPubKeyShard :: "string \<Rightarrow> uint32 \<Rightarrow> error + string"

record Heartbeat =
  Pubkey :: string
  ShardID :: uint32
  hbVersionNumber :: string
  hbNodeDisplayName :: string

text \<open>A p2p message: \<open>Data\<close> is \<open>None\<close> for the nil byte slice.\<close>

record MessageP2P =
  Data :: "string option"
  Peer :: string

record MessageHandler =
  CreateHeartbeatFromP2PMessage :: "MessageP2P \<Rightarrow> error + Heartbeat"

record P2PAntifloodHandler =
  CanProcessMessage :: "MessageP2P \<Rightarrow> string \<Rightarrow> error option"
  CanProcessMessageOnTopic :: "string \<Rightarrow> string \<Rightarrow> error option"

datatype Marshalizer = Marshalizer

datatype metric = MetricLiveValidatorNodes | MetricConnectedNodes

text \<open>Modelled from the spec: the constants of package \<^verbatim>\<open>core\<close> are not in the sources;
  the spec has role resolution degrade to a default "observer" role, and the second
  admission check scoped to the heartbeat topic.\<close>

definition ObserverList :: string where
  "ObserverList = ''observer''"

definition HeartbeatTopic :: string where
  "HeartbeatTopic = ''heartbeat''"

text \<open>The constructor and the methods of \<^verbatim>\<open>heartbeatMessageInfo\<close> that monitor.go calls
  are defined outside monitor.go. They are parameters of the model: any functions of the
  types their call sites fix. The constructor and \<^verbatim>\<open>HeartbeatReceived\<close> are handed the
  timer and may read it.\<close>

record heartbeatMessageInfoMethods =
  newHeartbeatMessageInfo ::
    "duration \<Rightarrow> string \<Rightarrow> time \<Rightarrow> Timer \<Rightarrow> (error + heartbeatMessageInfo) \<times> Timer"
  HeartbeatReceived ::
    "heartbeatMessageInfo \<Rightarrow> uint32 \<Rightarrow> uint32 \<Rightarrow> string \<Rightarrow> string \<Rightarrow> string \<Rightarrow> Timer
     \<Rightarrow> heartbeatMessageInfo \<times> Timer"
  ComputeActive :: "heartbeatMessageInfo \<Rightarrow> time \<Rightarrow> heartbeatMessageInfo"
  GetIsValidator :: "heartbeatMessageInfo \<Rightarrow> bool"

text \<open>Modelled from the spec: \<^verbatim>\<open>GetIsActive\<close> is not in monitor.go; it is the getter of
  the record's \<open>isActive\<close> flag.\<close>

definition GetIsActive :: "heartbeatMessageInfo \<Rightarrow> bool" where
  "GetIsActive v = isActive v"

text \<open>Modelled from the spec: \<^verbatim>\<open>ComputeActive\<close> is not in monitor.go; it is the spec's
  \<^verbatim>\<open>Evaluate(now)\<close> of a peer's record. The record is active after it exactly when
  \<open>now - timeStamp\<close> is less than \<open>maxInactiveTime\<close>; \<open>max(0, now - lastUptimeDowntime)\<close> is
  credited to \<open>totalUpTime\<close> if the record was active before, else to \<open>totalDownTime\<close>;
  \<open>lastUptimeDowntime\<close> becomes \<open>now\<close>. The differences of instants are the \<^verbatim>\<open>Duration\<close>s
  that \<open>Sub\<close> gives.\<close>

definition Evaluate :: "heartbeatMessageInfo \<Rightarrow> time \<Rightarrow> heartbeatMessageInfo" where
  "Evaluate v now =
     (let elapsedSinceLastHeartbeat = Sub now (timeStamp v);
          isActive' = (sint elapsedSinceLastHeartbeat < sint (maxInactiveTime v));
          delta = maxDuration 0 (Sub now (lastUptimeDowntime v));
          v = (if isActive v then v\<lparr>totalUpTime := totalUpTime v + delta\<rparr>
               else v\<lparr>totalDownTime := totalDownTime v + delta\<rparr>)
      in v\<lparr>isActive := isActive', lastUptimeDowntime := now\<rparr>)"

subsection \<open>The monitor\<close>

text \<open>A goroutine started with \<^verbatim>\<open>go\<close> and not yet run. The map handed to
  \<^verbatim>\<open>SaveMultipleHeartbeatMessageInfos\<close> holds, under each key, the pointer that
  \<open>heartbeatMessages\<close> holds under that key, so it is given by its keys.\<close>

datatype task =
    SaveMultipleHeartbeatMessageInfos "string list"
  | AddHeartbeatMessageToMap Heartbeat
  | ComputeAllHeartbeatMessages

text \<open>The fields of \<^verbatim>\<open>Monitor\<close> (two are prefixed: the peer's record has fields of the
  same names), and with them what the monitor has sent out: \<open>storerCalls\<close>, the saves
  asked of the storer; \<open>appStatusHandler\<close>, the values set on the status handler;
  \<open>goroutines\<close>, the goroutines started and not yet run.\<close>

record Monitor =
  mon_maxDurationPeerUnresponsive :: duration
  marshalizer :: Marshalizer
  peerTypeProvider :: PeerTypeProviderHandler
  heartbeatMessages :: "string \<rightharpoonup> heartbeatMessageInfo"
  pubKeysMap :: "uint32 \<rightharpoonup> string list"
  fullPeersSlice :: "string list"
  appStatusHandler :: "(metric \<times> nat) list"
  mon_genesisTime :: time
  messageHandler :: MessageHandler
  storer :: HeartbeatStorageHandler
  storerCalls :: "storerCall list"
  timer :: Timer
  antifloodHandler :: P2PAntifloodHandler
  goroutines :: "task list"

definition computePeerTypeAndShardID :: "Monitor \<Rightarrow> string \<Rightarrow> string \<times> uint32" where
  "computePeerTypeAndShardID m pubkey =
     (case ComputeForPubKey (peerTypeProvider m) pubkey of
        Inl err \<Rightarrow> (ObserverList, 0)
      | Inr (pType, shardID) \<Rightarrow> (pType, shardID))"

definition computePeerType :: "Monitor \<Rightarrow> string \<Rightarrow> uint32 \<Rightarrow> string" where
  "computePeerType m pubkey shardID =
     (case ComputeForPubKeyShard (peerTypeProvider m) pubkey shardID of
        Inl err \<Rightarrow> ObserverList
      | Inr pType \<Rightarrow> pType)"

definition loadHbmiFromStorer ::
  "Monitor \<Rightarrow> string \<Rightarrow> (error + heartbeatMessageInfo) \<times> Monitor" where
  "loadHbmiFromStorer m pubKey =
     (case LoadHbmiDTO (storer m) pubKey of
        Inl err \<Rightarrow> (Inl err, m)
      | Inr hbmiDTO \<Rightarrow>
          (let receivedHbmi = convertFromExportedStruct hbmiDTO (mon_maxDurationPeerUnresponsive m);
               receivedHbmi = receivedHbmi\<lparr>getTimeHandler := True\<rparr>;
               (crtTime, tm) = Now (timer m);
               crtDuration = Sub crtTime (lastUptimeDowntime receivedHbmi);
               crtDuration = maxDuration 0 crtDuration;
               receivedHbmi =
                 (if isActive receivedHbmi
                  then receivedHbmi\<lparr>totalUpTime := totalUpTime receivedHbmi + crtDuration,
                                    timeStamp := crtTime\<rparr>
                  else receivedHbmi\<lparr>totalDownTime := totalDownTime receivedHbmi + crtDuration\<rparr>);
               receivedHbmi = receivedHbmi\<lparr>lastUptimeDowntime := crtTime\<rparr>;
               receivedHbmi = receivedHbmi\<lparr>genesisTime := mon_genesisTime m\<rparr>;
               receivedHbmi = receivedHbmi\<lparr>peerType :=
                 computePeerType m pubKey (computedShardID receivedHbmi)\<rparr>
           in (Inr receivedHbmi, m\<lparr>timer := tm\<rparr>)))"

subsection \<open>Construction\<close>

text \<open>\<^verbatim>\<open>pubKeysMapCopy[shardId] = append(pubKeysMapCopy[shardId], pubkey)\<close>.\<close>

definition appendPubKey ::
  "(uint32 \<rightharpoonup> string list) \<Rightarrow> uint32 \<Rightarrow> string \<Rightarrow> (uint32 \<rightharpoonup> string list)" where
  "appendPubKey pubKeysMapCopy shardId pubkey =
     pubKeysMapCopy(shardId \<mapsto>
       (case pubKeysMapCopy shardId of None \<Rightarrow> [] | Some pubKeys \<Rightarrow> pubKeys) @ [pubkey])"

text \<open>The state of the loop of \<^verbatim>\<open>initializeHeartbeatMessagesInfo\<close>: the monitor, the
  keys of \<^verbatim>\<open>pubKeysToSave\<close> and \<^verbatim>\<open>pubKeysMapCopy\<close>.\<close>

type_synonym initState = "Monitor \<times> string list \<times> (uint32 \<rightharpoonup> string list)"

definition initializeHeartBeatForPK ::
  "heartbeatMessageInfoMethods \<Rightarrow> string \<Rightarrow> uint32 \<Rightarrow> initState \<Rightarrow> error + initState" where
  "initializeHeartBeatForPK ops pubkey shardId st =
     (case st of (m, pubKeysToSave, pubKeysMapCopy) \<Rightarrow>
       (case loadHbmiFromStorer m pubkey of
          (Inl err, m) \<Rightarrow>
            (let (pType, shardID) = computePeerTypeAndShardID m pubkey in
             case newHeartbeatMessageInfo ops (mon_maxDurationPeerUnresponsive m) pType
                    (mon_genesisTime m) (timer m) of
               (Inl err, tm) \<Rightarrow> Inl err
             | (Inr hbmi, tm) \<Rightarrow>
                 (let hbmi = hbmi\<lparr>genesisTime := mon_genesisTime m\<rparr>;
                      hbmi = hbmi\<lparr>computedShardID := shardID\<rparr>
                  in Inr (m\<lparr>timer := tm,
                            heartbeatMessages := (heartbeatMessages m)(pubkey \<mapsto> hbmi)\<rparr>,
                          List.insert pubkey pubKeysToSave,
                          appendPubKey pubKeysMapCopy shardId pubkey)))
        | (Inr hbmi, m) \<Rightarrow>
            Inr (m\<lparr>heartbeatMessages := (heartbeatMessages m)(pubkey \<mapsto> hbmi)\<rparr>,
                 pubKeysToSave,
                 appendPubKey pubKeysMapCopy shardId pubkey)))"

text \<open>The inner loop, over the keys of one shard.\<close>

fun initializeShard ::
  "heartbeatMessageInfoMethods \<Rightarrow> uint32 \<Rightarrow> string list \<Rightarrow> initState \<Rightarrow> error + initState" where
  "initializeShard ops shardId [] st = Inr st"
| "initializeShard ops shardId (pubkey # pubKeys) st =
     (case initializeHeartBeatForPK ops pubkey shardId st of
        Inl e \<Rightarrow> Inl e
      | Inr st' \<Rightarrow> initializeShard ops shardId pubKeys st')"

text \<open>The outer loop. The map \<^verbatim>\<open>pubKeysMap\<close> is given as the list of its entries, in
  the order the \<^verbatim>\<open>range\<close> visits them.\<close>

fun initializeShards ::
  "heartbeatMessageInfoMethods \<Rightarrow> (uint32 \<times> string list) list \<Rightarrow> initState \<Rightarrow> error + initState" where
  "initializeShards ops [] st = Inr st"
| "initializeShards ops ((shardId, pubKeys) # rest) st =
     (case initializeShard ops shardId pubKeys st of
        Inl e \<Rightarrow> Inl e
      | Inr st' \<Rightarrow> initializeShards ops rest st')"

definition initializeHeartbeatMessagesInfo ::
  "heartbeatMessageInfoMethods \<Rightarrow> Monitor \<Rightarrow> (uint32 \<times> string list) list \<Rightarrow> error + Monitor" where
  "initializeHeartbeatMessagesInfo ops m pubKeysMapArg =
     (case initializeShards ops pubKeysMapArg (m, [], Map.empty) of
        Inl e \<Rightarrow> Inl e
      | Inr (m, pubKeysToSave, pubKeysMapCopy) \<Rightarrow>
          Inr (m\<lparr>goroutines := goroutines m @ [SaveMultipleHeartbeatMessageInfos pubKeysToSave],
                 pubKeysMap := pubKeysMapCopy\<rparr>))"

text \<open>One round of the loop of \<^verbatim>\<open>loadRestOfPubKeysFromStorage\<close>.\<close>

definition loadRestPeer :: "Monitor \<Rightarrow> string \<Rightarrow> Monitor" where
  "loadRestPeer m pubKey =
     (case heartbeatMessages m pubKey of
        Some v \<Rightarrow> m
      | None \<Rightarrow>
          (case loadHbmiFromStorer m pubKey of
             (Inl err1, m) \<Rightarrow> m
           | (Inr hbmi, m) \<Rightarrow> m\<lparr>heartbeatMessages := (heartbeatMessages m)(pubKey \<mapsto> hbmi)\<rparr>))"

fun loadRestPeers :: "Monitor \<Rightarrow> string list \<Rightarrow> Monitor" where
  "loadRestPeers m [] = m"
| "loadRestPeers m (peer # peersSlice) = loadRestPeers (loadRestPeer m peer) peersSlice"

definition loadRestOfPubKeysFromStorage :: "Monitor \<Rightarrow> error option \<times> Monitor" where
  "loadRestOfPubKeysFromStorage m =
     (case LoadKeys (storer m) of
        Inl err \<Rightarrow> (Some err, m)
      | Inr peersSlice \<Rightarrow> (None, loadRestPeers m peersSlice))"

text \<open>\<^verbatim>\<open>NewMonitor\<close>: a collaborator that is nil is \<open>None\<close>. The result is the error or
  the monitor, never both.\<close>

definition NewMonitor ::
  "heartbeatMessageInfoMethods \<Rightarrow> Marshalizer option \<Rightarrow> duration \<Rightarrow>
   (uint32 \<times> string list) list \<Rightarrow> time \<Rightarrow> MessageHandler option \<Rightarrow>
   HeartbeatStorageHandler option \<Rightarrow> PeerTypeProviderHandler option \<Rightarrow> Timer option \<Rightarrow>
   P2PAntifloodHandler option \<Rightarrow> error + Monitor" where
  "NewMonitor ops marshalizerArg maxDur pubKeysMapArg genesis messageHandlerArg storerArg
     peerTypeProviderArg timerArg antifloodHandlerArg =
     (case marshalizerArg of None \<Rightarrow> Inl ErrNilMarshalizer | Some ma \<Rightarrow>
     (case peerTypeProviderArg of None \<Rightarrow> Inl ErrNilPeerTypeProvider | Some ptp \<Rightarrow>
     (if length pubKeysMapArg = 0 then Inl ErrEmptyPublicKeysMap else
     (case messageHandlerArg of None \<Rightarrow> Inl ErrNilMessageHandler | Some mh \<Rightarrow>
     (case storerArg of None \<Rightarrow> Inl ErrNilHeartbeatStorer | Some sto \<Rightarrow>
     (case timerArg of None \<Rightarrow> Inl ErrNilTimer | Some tim \<Rightarrow>
     (case antifloodHandlerArg of None \<Rightarrow> Inl ErrNilAntifloodHandler | Some af \<Rightarrow>
       (let mon = \<lparr> mon_maxDurationPeerUnresponsive = maxDur,
                     marshalizer = ma,
                     peerTypeProvider = ptp,
                     heartbeatMessages = Map.empty,
                     pubKeysMap = Map.empty,
                     fullPeersSlice = [],
                     appStatusHandler = [],
                     mon_genesisTime = genesis,
                     messageHandler = mh,
                     storer = sto,
                     storerCalls = [],
                     timer = tim,
                     antifloodHandler = af,
                     goroutines = [] \<rparr>
        in case UpdateGenesisTime (storer mon) genesis of
             Some err \<Rightarrow> Inl err
           | None \<Rightarrow>
               (case initializeHeartbeatMessagesInfo ops mon pubKeysMapArg of
                  Inl err \<Rightarrow> Inl err
                | Inr mon \<Rightarrow> Inr (snd (loadRestOfPubKeysFromStorage mon)))))))))))"

subsection \<open>Ingestion\<close>

definition SetAppStatusHandler :: "Monitor \<Rightarrow> (metric \<times> nat) list option \<Rightarrow> error option \<times> Monitor" where
  "SetAppStatusHandler m ash =
     (case ash of
        None \<Rightarrow> (Some ErrNilAppStatusHandler, m)
      | Some h \<Rightarrow> (None, m\<lparr>appStatusHandler := h\<rparr>))"

text \<open>\<^verbatim>\<open>ProcessReceivedMessage\<close>: a nil message is \<open>None\<close>. The two \<^verbatim>\<open>go\<close> statements
  start goroutines; they are run by \<open>runTask\<close> below.\<close>

definition ProcessReceivedMessage ::
  "Monitor \<Rightarrow> MessageP2P option \<Rightarrow> string \<Rightarrow> error option \<times> Monitor" where
  "ProcessReceivedMessage m message fromConnectedPeer =
     (case message of
        None \<Rightarrow> (Some ErrNilMessage, m)
      | Some msg \<Rightarrow>
     (case Data msg of
        None \<Rightarrow> (Some ErrNilDataToProcess, m)
      | Some d \<Rightarrow>
     (case CanProcessMessage (antifloodHandler m) msg fromConnectedPeer of
        Some err \<Rightarrow> (Some err, m)
      | None \<Rightarrow>
     (case CanProcessMessageOnTopic (antifloodHandler m) fromConnectedPeer HeartbeatTopic of
        Some err \<Rightarrow> (Some err, m)
      | None \<Rightarrow>
     (case CreateHeartbeatFromP2PMessage (messageHandler m) msg of
        Inl err \<Rightarrow> (Some err, m)
      | Inr hbRecv \<Rightarrow>
          (None, m\<lparr>goroutines := goroutines m @
                   [AddHeartbeatMessageToMap hbRecv, ComputeAllHeartbeatMessages]\<rparr>))))))"

fun isPeerIn :: "string list \<Rightarrow> string \<Rightarrow> bool" where
  "isPeerIn [] pubKey = False"
| "isPeerIn (peer # peers) pubKey = (if peer = pubKey then True else isPeerIn peers pubKey)"

definition isPeerInFullPeersSlice :: "Monitor \<Rightarrow> string \<Rightarrow> bool" where
  "isPeerInFullPeersSlice m pubKey = isPeerIn (fullPeersSlice m) pubKey"

definition addPeerToFullPeersSlice :: "Monitor \<Rightarrow> string \<Rightarrow> Monitor" where
  "addPeerToFullPeersSlice m pubKey =
     (if \<not> isPeerInFullPeersSlice m pubKey
      then (let m = m\<lparr>fullPeersSlice := fullPeersSlice m @ [pubKey]\<rparr>
            in m\<lparr>storerCalls := storerCalls m @ [SaveKeys (fullPeersSlice m)]\<rparr>)
      else m)"

text \<open>\<^verbatim>\<open>addHeartbeatMessageToMap\<close>. The record is reached through the pointer the map
  holds, so what \<^verbatim>\<open>HeartbeatReceived\<close> does to it is a change of the map's entry. A
  nil pointer in the map is treated by the code as a missing entry; the map of the model
  holds no nil pointer.\<close>

definition addHeartbeatMessageToMap ::
  "heartbeatMessageInfoMethods \<Rightarrow> Monitor \<Rightarrow> Heartbeat \<Rightarrow> Monitor" where
  "addHeartbeatMessageToMap ops m hb =
     (let pubKeyStr = Pubkey hb;
          found =
            (case heartbeatMessages m pubKeyStr of
               Some hbmi \<Rightarrow> (Inr hbmi, m)
             | None \<Rightarrow>
                 (let (pType, shardID) = computePeerTypeAndShardID m (Pubkey hb) in
                  case newHeartbeatMessageInfo ops (mon_maxDurationPeerUnresponsive m) pType
                         (mon_genesisTime m) (timer m) of
                    (Inl err, tm) \<Rightarrow> (Inl err, m\<lparr>timer := tm\<rparr>)
                  | (Inr hbmi, tm) \<Rightarrow>
                      (Inr hbmi, m\<lparr>timer := tm,
                         heartbeatMessages := (heartbeatMessages m)(pubKeyStr \<mapsto> hbmi)\<rparr>)))
      in case found of
           (Inl err, m) \<Rightarrow> m
         | (Inr hbmi, m) \<Rightarrow>
             (let (pType, computedShard) = computePeerTypeAndShardID m (Pubkey hb);
                  (hbmi, tm) = HeartbeatReceived ops hbmi computedShard (ShardID hb)
                                 (hbVersionNumber hb) (hbNodeDisplayName hb) pType (timer m);
                  m = m\<lparr>timer := tm,
                         heartbeatMessages := (heartbeatMessages m)(pubKeyStr \<mapsto> hbmi)\<rparr>;
                  hbDTO = convertToExportedStruct hbmi;
                  m = m\<lparr>storerCalls := storerCalls m @ [SavePubkeyData (Pubkey hb) hbDTO]\<rparr>
              in addPeerToFullPeersSlice m (Pubkey hb)))"

subsection \<open>Persisting records\<close>

text \<open>\<^verbatim>\<open>SaveMultipleHeartbeatMessageInfos\<close>, over the keys of its argument in the order
  the \<^verbatim>\<open>range\<close> visits them; each pointer is read when the loop reaches it.\<close>

fun SaveMultiple :: "Monitor \<Rightarrow> string list \<Rightarrow> Monitor" where
  "SaveMultiple m [] = m"
| "SaveMultiple m (key # keys) =
     (case heartbeatMessages m key of
        None \<Rightarrow> SaveMultiple m keys
      | Some hmbi \<Rightarrow>
          (let hbDTO = convertToExportedStruct hmbi
           in SaveMultiple (m\<lparr>storerCalls := storerCalls m @ [SavePubkeyData key hbDTO]\<rparr>) keys))"

subsection \<open>Aggregation\<close>

text \<open>The state of the loop of \<^verbatim>\<open>computeAllHeartbeatMessages\<close>: the monitor, the two
  counters and the keys of \<^verbatim>\<open>hbChangedStateToInactiveMap\<close>.\<close>

type_synonym computeState = "Monitor \<times> nat \<times> nat \<times> string list"

definition computeEntry ::
  "heartbeatMessageInfoMethods \<Rightarrow> string \<Rightarrow> computeState \<Rightarrow> computeState" where
  "computeEntry ops key st =
     (case st of (m, counterActiveValidators, counterConnectedNodes, changed) \<Rightarrow>
       (case heartbeatMessages m key of
          None \<Rightarrow> st
        | Some v \<Rightarrow>
            (let previousActive = GetIsActive v;
                 (now, tm) = Now (timer m);
                 v = ComputeActive ops v now;
                 m = m\<lparr>timer := tm, heartbeatMessages := (heartbeatMessages m)(key \<mapsto> v)\<rparr>;
                 isAct = GetIsActive v;
                 counterConnectedNodes =
                   (if isAct then counterConnectedNodes + 1 else counterConnectedNodes);
                 counterActiveValidators =
                   (if isAct \<and> GetIsValidator ops v then counterActiveValidators + 1
                    else counterActiveValidators);
                 changedStateToInactive = (previousActive \<and> \<not> isAct);
                 changed = (if changedStateToInactive then List.insert key changed else changed)
             in (m, counterActiveValidators, counterConnectedNodes, changed))))"

text \<open>The loop, over the keys of \<open>heartbeatMessages\<close> in the order \<open>keys\<close> in which the
  \<^verbatim>\<open>range\<close> visits them.\<close>

fun computeEntries ::
  "heartbeatMessageInfoMethods \<Rightarrow> string list \<Rightarrow> computeState \<Rightarrow> computeState" where
  "computeEntries ops [] st = st"
| "computeEntries ops (key # keys) st = computeEntries ops keys (computeEntry ops key st)"

definition computeAllHeartbeatMessages ::
  "heartbeatMessageInfoMethods \<Rightarrow> string list \<Rightarrow> Monitor \<Rightarrow> Monitor" where
  "computeAllHeartbeatMessages ops keys m =
     (case computeEntries ops keys (m, 0, 0, []) of
        (m, counterActiveValidators, counterConnectedNodes, changed) \<Rightarrow>
          (let m = m\<lparr>goroutines := goroutines m @ [SaveMultipleHeartbeatMessageInfos changed]\<rparr>;
               m = m\<lparr>appStatusHandler := appStatusHandler m @
                       [(MetricLiveValidatorNodes, counterActiveValidators)]\<rparr>
           in m\<lparr>appStatusHandler := appStatusHandler m @
                   [(MetricConnectedNodes, counterConnectedNodes)]\<rparr>))"

text \<open>An order in which a \<^verbatim>\<open>range\<close> may visit the map: each key once.\<close>

definition iterationOrder :: "('k \<rightharpoonup> 'v) \<Rightarrow> 'k list \<Rightarrow> bool" where
  "iterationOrder mp keys \<longleftrightarrow> distinct keys \<and> set keys = dom mp"

text \<open>Running a started goroutine; \<open>keys\<close> is the order of the \<^verbatim>\<open>range\<close> over
  \<open>heartbeatMessages\<close>, should the goroutine make one.\<close>

fun runTask :: "heartbeatMessageInfoMethods \<Rightarrow> string list \<Rightarrow> task \<Rightarrow> Monitor \<Rightarrow> Monitor" where
  "runTask ops keys (SaveMultipleHeartbeatMessageInfos pubKeysToSave) m =
     SaveMultiple m pubKeysToSave"
| "runTask ops keys (AddHeartbeatMessageToMap hb) m = addHeartbeatMessageToMap ops m hb"
| "runTask ops keys ComputeAllHeartbeatMessages m = computeAllHeartbeatMessages ops keys m"

subsection \<open>The snapshot\<close>

text \<open>\<^verbatim>\<open>hex.EncodeToString\<close>: two lower-case digits for each byte.\<close>

definition hextable :: string where
  "hextable = ''0123456789abcdef''"

definition hexByte :: "char \<Rightarrow> string" where
  "hexByte c = [hextable ! ((of_char c :: nat) div 16), hextable ! ((of_char c :: nat) mod 16)]"

definition EncodeToString :: "string \<Rightarrow> string" where
  "EncodeToString src = concat (map hexByte src)"

text \<open>
  \<^verbatim>\<open>float64\<close> arithmetic rounds each result to the nearest double, ties to the even
  mantissa. \<open>float64\<close> is that rounding on the rationals, for the normal range of doubles
  (the values met here lie between \<open>10\<^sup>-\<^sup>9\<close> and \<open>2\<^sup>3\<^sup>4\<close> in magnitude, or are 0):
  \<open>binaryExponent x\<close> is the \<open>e\<close> with \<open>2\<^sup>e \<le> |x| < 2\<^sup>e\<^sup>+\<^sup>1\<close>, and the doubles of that
  binade are the multiples of \<open>2\<^sup>e\<^sup>-\<^sup>5\<^sup>2\<close>.
\<close>

definition roundEven :: "rat \<Rightarrow> int" where
  "roundEven q =
     (let f = \<lfloor>q\<rfloor>; r = q - of_int f
      in if r < 1 / 2 then f
         else if r > 1 / 2 then f + 1
         else if even f then f else f + 1)"

definition binaryExponent :: "rat \<Rightarrow> int" where
  "binaryExponent x =
     (let (p, q) = quotient_of \<bar>x\<bar>; k = bitlen p - bitlen q
      in if power_int 2 k \<le> \<bar>x\<bar> then k else k - 1)"

definition float64 :: "rat \<Rightarrow> rat" where
  "float64 x =
     (if x = 0 then 0
      else (let u = power_int 2 (binaryExponent x - 52)
            in of_int (roundEven (x / u)) * u))"

text \<open>\<^verbatim>\<open>d.Seconds()\<close>: \<^verbatim>\<open>sec := d / Second; nsec := d % Second;
  return float64(sec) + float64(nsec)/1e9\<close>, with Go's truncating division and remainder.\<close>

definition Seconds :: "duration \<Rightarrow> rat" where
  "Seconds d =
     (let sec = sint d sdiv 1000000000;
          nsec = sint d smod 1000000000
      in float64 (float64 (of_int sec) + float64 (float64 (of_int nsec) / float64 1000000000)))"

text \<open>\<^verbatim>\<open>int64(f)\<close> of a \<^verbatim>\<open>float64\<close>: the fraction is discarded.\<close>

definition int64OfFloat :: "rat \<Rightarrow> int64" where
  "int64OfFloat f = word_of_int (if 0 \<le> f then \<lfloor>f\<rfloor> else \<lceil>f\<rceil>)"

record PubKeyHeartbeat =
  HexPublicKey :: string
  pkTimeStamp :: time
  pkMaxInactiveTime :: duration
  pkIsActive :: bool
  pkReceivedShardID :: uint32
  pkComputedShardID :: uint32
  pkTotalUpTime :: int64
  pkTotalDownTime :: int64
  pkVersionNumber :: string
  pkNodeDisplayName :: string
  pkPeerType :: string

text \<open>The entry \<^verbatim>\<open>GetHeartbeats\<close> builds for the key \<open>k\<close> and its record \<open>v\<close>.\<close>

definition statusEntry :: "string \<Rightarrow> heartbeatMessageInfo \<Rightarrow> PubKeyHeartbeat" where
  "statusEntry k v =
     \<lparr> HexPublicKey = EncodeToString k,
       pkTimeStamp = timeStamp v,
       pkMaxInactiveTime = maxInactiveTime v,
       pkIsActive = isActive v,
       pkReceivedShardID = receivedShardID v,
       pkComputedShardID = computedShardID v,
       pkTotalUpTime = int64OfFloat (Seconds (totalUpTime v)),
       pkTotalDownTime = int64OfFloat (Seconds (totalDownTime v)),
       pkVersionNumber = versionNumber v,
       pkNodeDisplayName = nodeDisplayName v,
       pkPeerType = peerType v \<rparr>"

text \<open>The second loop of \<^verbatim>\<open>GetHeartbeats\<close>, over the keys in the order of its
  \<^verbatim>\<open>range\<close>.\<close>

fun statusEntries :: "Monitor \<Rightarrow> string list \<Rightarrow> PubKeyHeartbeat list" where
  "statusEntries m [] = []"
| "statusEntries m (k # keys) =
     (case heartbeatMessages m k of
        None \<Rightarrow> statusEntries m keys
      | Some v \<Rightarrow> statusEntry k v # statusEntries m keys)"

text \<open>\<^verbatim>\<open>GetHeartbeats\<close>; \<open>keys1\<close> and \<open>keys2\<close> are the orders of its two \<^verbatim>\<open>range\<close>
  loops over the map. \<^verbatim>\<open>sort.Slice\<close> with the comparison of the hexadecimal keys is the
  sort by that key, in the bytewise lexicographic order of strings.\<close>

definition GetHeartbeats ::
  "heartbeatMessageInfoMethods \<Rightarrow> string list \<Rightarrow> string list \<Rightarrow> Monitor
   \<Rightarrow> PubKeyHeartbeat list \<times> Monitor" where
  "GetHeartbeats ops keys1 keys2 m =
     (let m = computeAllHeartbeatMessages ops keys1 m;
          status = statusEntries m keys2
      in (sort_key HexPublicKey status, m))"

subsection \<open>The monitor's operations\<close>

text \<open>What can happen to a monitor once built: a call of one of its exported methods, or
  the run of the goroutine at position \<open>i\<close> of those started.\<close>

datatype operation =
    OpProcessReceivedMessage "MessageP2P option" string
  | OpGetHeartbeats "string list" "string list"
  | OpSetAppStatusHandler "(metric \<times> nat) list option"
  | OpRun nat "string list"

fun applyOp :: "heartbeatMessageInfoMethods \<Rightarrow> operation \<Rightarrow> Monitor \<Rightarrow> Monitor" where
  "applyOp ops (OpProcessReceivedMessage message fromConnectedPeer) m =
     snd (ProcessReceivedMessage m message fromConnectedPeer)"
| "applyOp ops (OpGetHeartbeats keys1 keys2) m = snd (GetHeartbeats ops keys1 keys2 m)"
| "applyOp ops (OpSetAppStatusHandler ash) m = snd (SetAppStatusHandler m ash)"
| "applyOp ops (OpRun i keys) m =
     (if i < length (goroutines m)
      then runTask ops keys (goroutines m ! i)
             (m\<lparr>goroutines := take i (goroutines m) @ drop (Suc i) (goroutines m)\<rparr>)
      else m)"

fun applyOps :: "heartbeatMessageInfoMethods \<Rightarrow> operation list \<Rightarrow> Monitor \<Rightarrow> Monitor" where
  "applyOps ops [] m = m"
| "applyOps ops (op # rest) m = applyOps ops rest (applyOp ops op m)"

text \<open>The public key whose heartbeat an operation adds to the map: that of the goroutine
  \<^verbatim>\<open>addHeartbeatMessageToMap\<close> it runs, if it runs one. \<open>processedHeartbeats\<close> collects
  these keys along a sequence of operations.\<close>

fun heartbeatOf :: "operation \<Rightarrow> Monitor \<Rightarrow> string set" where
  "heartbeatOf (OpRun i keys) m =
     (if i < length (goroutines m)
      then (case goroutines m ! i of
              AddHeartbeatMessageToMap hb \<Rightarrow> {Pubkey hb}
            | SaveMultipleHeartbeatMessageInfos pubKeysToSave \<Rightarrow> {}
            | ComputeAllHeartbeatMessages \<Rightarrow> {})
      else {})"
| "heartbeatOf (OpProcessReceivedMessage message fromConnectedPeer) m = {}"
| "heartbeatOf (OpGetHeartbeats keys1 keys2) m = {}"
| "heartbeatOf (OpSetAppStatusHandler ash) m = {}"

fun processedHeartbeats ::
  "heartbeatMessageInfoMethods \<Rightarrow> operation list \<Rightarrow> Monitor \<Rightarrow> string set" where
  "processedHeartbeats ops [] m = {}"
| "processedHeartbeats ops (op # rest) m =
     heartbeatOf op m \<union> processedHeartbeats ops rest (applyOp ops op m)"

text \<open>The public key whose heartbeat an operation records: that of the goroutine
  \<^verbatim>\<open>addHeartbeatMessageToMap\<close> it runs, unless the key has no record and the constructor
  of records returns an error, where the goroutine returns early (monitor.go:256-260).
  \<open>recordedHeartbeats\<close> collects these keys along a sequence of operations.\<close>

fun recordedHeartbeatOf ::
  "heartbeatMessageInfoMethods \<Rightarrow> operation \<Rightarrow> Monitor \<Rightarrow> string set" where
  "recordedHeartbeatOf ops (OpRun i keys) m =
     (if i < length (goroutines m)
      then (case goroutines m ! i of
              AddHeartbeatMessageToMap hb \<Rightarrow>
                (if heartbeatMessages m (Pubkey hb) = None \<and>
                    isl (fst (newHeartbeatMessageInfo ops (mon_maxDurationPeerUnresponsive m)
                           (fst (computePeerTypeAndShardID m (Pubkey hb)))
                           (mon_genesisTime m) (timer m)))
                 then {} else {Pubkey hb})
            | SaveMultipleHeartbeatMessageInfos pubKeysToSave \<Rightarrow> {}
            | ComputeAllHeartbeatMessages \<Rightarrow> {})
      else {})"
| "recordedHeartbeatOf ops (OpProcessReceivedMessage message fromConnectedPeer) m = {}"
| "recordedHeartbeatOf ops (OpGetHeartbeats keys1 keys2) m = {}"
| "recordedHeartbeatOf ops (OpSetAppStatusHandler ash) m = {}"

fun recordedHeartbeats ::
  "heartbeatMessageInfoMethods \<Rightarrow> operation list \<Rightarrow> Monitor \<Rightarrow> string set" where
  "recordedHeartbeats ops [] m = {}"
| "recordedHeartbeats ops (op # rest) m =
     recordedHeartbeatOf ops op m \<union> recordedHeartbeats ops rest (applyOp ops op m)"

text \<open>The public keys of the initial assignment, and those of the persisted list of known
  peers whose record loads from storage.\<close>

definition assignedKeys :: "(uint32 \<times> string list) list \<Rightarrow> string set" where
  "assignedKeys pubKeysMapArg = (\<Union>(shardId, pubKeys) \<in> set pubKeysMapArg. set pubKeys)"

definition storedKeys :: "HeartbeatStorageHandler \<Rightarrow> string set" where
  "storedKeys sto =
     (case LoadKeys sto of
        Inl err \<Rightarrow> {}
      | Inr peersSlice \<Rightarrow> set (filter (\<lambda>k. \<not> isl (LoadHbmiDTO sto k)) peersSlice))"

text \<open>What an operation may do to the set of records and to the sequence of known peers,
  from the state \<open>m\<close> to the state \<open>m'\<close>, when \<open>H\<close> are the keys of the heartbeats it adds:
  records are kept, new ones are of \<open>H\<close>, and all of \<open>H\<close> if the constructor of records
  cannot fail; the sequence of known peers is kept, or gets one new key at its end and is
  then saved whole.\<close>

definition stepProperty ::
  "heartbeatMessageInfoMethods \<Rightarrow> string set \<Rightarrow> Monitor \<Rightarrow> Monitor \<Rightarrow> bool" where
  "stepProperty ops H m m' \<longleftrightarrow>
     dom (heartbeatMessages m) \<subseteq> dom (heartbeatMessages m') \<and>
     dom (heartbeatMessages m') \<subseteq> dom (heartbeatMessages m) \<union> H \<and>
     ((\<forall>d p g t. \<not> isl (fst (newHeartbeatMessageInfo ops d p g t))) \<longrightarrow>
        dom (heartbeatMessages m') = dom (heartbeatMessages m) \<union> H) \<and>
     (fullPeersSlice m' = fullPeersSlice m \<or>
      (\<exists>pk. pk \<notin> set (fullPeersSlice m) \<and> fullPeersSlice m' = fullPeersSlice m @ [pk] \<and>
         storerCalls m' \<noteq> [] \<and> last (storerCalls m') = SaveKeys (fullPeersSlice m @ [pk])))"

subsection \<open>A concrete monitor\<close>

text \<open>Storage that holds one record, of the peer \<open>''A''\<close>, last seen active, and the list
  of known peers \<open>''A''\<close>, \<open>''Z''\<close>; the clock reads 5000, 5001, ... nanoseconds.\<close>

definition exampleDTO :: HeartbeatDTO where
  "exampleDTO =
     \<lparr> MaxInactiveTime = 7, TotalUpTime = 100, TotalDownTime = 20, TimeStamp = 900,
       IsActive = True, ReceivedShardID = 1, ComputedShardID = 1, VersionNumber = ''v1'',
       NodeDisplayName = ''node'', PeerType = ''eligible'', LastUptimeDowntime = 1000,
       GenesisTime = 0 \<rparr>"

definition exampleStorer :: HeartbeatStorageHandler where
  "exampleStorer =
     \<lparr> LoadHbmiDTO = (\<lambda>k. if k = ''A'' then Inr exampleDTO
                           else if k = ''I'' then Inr (exampleDTO\<lparr>IsActive := False\<rparr>)
                           else Inl (ErrCollaborator ''not found'')),
       LoadKeys = Inr [''A'', ''Z''],
       UpdateGenesisTime = (\<lambda>t. None) \<rparr>"

definition exampleTimer :: Timer where
  "exampleTimer = \<lparr> readings = (\<lambda>n. 5000 + int n), reads = 0 \<rparr>"

definition exampleProvider :: PeerTypeProviderHandler where
  "exampleProvider =
     \<lparr> ComputeForPubKey = (\<lambda>k. Inr (''eligible'', 0)),
       ComputeForPubKeyShard = (\<lambda>k s. Inr ''eligible'') \<rparr>"

definition exampleMessageHandler :: MessageHandler where
  "exampleMessageHandler =
     \<lparr> CreateHeartbeatFromP2PMessage = (\<lambda>msg.
         case Data msg of
           None \<Rightarrow> Inl (ErrCollaborator ''no data'')
         | Some d \<Rightarrow>
             if d = [] then Inl (ErrCollaborator ''cannot decode'')
             else Inr \<lparr> Pubkey = d, ShardID = 0, hbVersionNumber = ''v1'',
                        hbNodeDisplayName = ''node'' \<rparr>) \<rparr>"

definition exampleAntiflood :: P2PAntifloodHandler where
  "exampleAntiflood =
     \<lparr> CanProcessMessage = (\<lambda>msg p.
         if p = ''flooder'' then Some (ErrCollaborator ''flood'') else None),
       CanProcessMessageOnTopic = (\<lambda>p topic.
         if p = ''topicflooder'' then Some (ErrCollaborator ''topic flood'') else None) \<rparr>"

definition exampleMonitor :: Monitor where
  "exampleMonitor =
     \<lparr> mon_maxDurationPeerUnresponsive = 50,
       marshalizer = Marshalizer,
       peerTypeProvider = exampleProvider,
       heartbeatMessages = Map.empty,
       pubKeysMap = Map.empty,
       fullPeersSlice = [],
       appStatusHandler = [],
       mon_genesisTime = 0,
       messageHandler = exampleMessageHandler,
       storer = exampleStorer,
       storerCalls = [],
       timer = exampleTimer,
       antifloodHandler = exampleAntiflood,
       goroutines = [] \<rparr>"

text \<open>One implementation of the record's constructor and methods, after the spec's
  description of the record's state machine: a fresh record is inactive with empty totals;
  a heartbeat makes the record active and stamps it with the timer's reading; the
  evaluation at \<open>now\<close> is \<open>Evaluate\<close>. The roles of validators are taken to be
  \<open>''eligible''\<close> and \<open>''waiting''\<close>.\<close>

definition exampleMethods :: heartbeatMessageInfoMethods where
  "exampleMethods =
     \<lparr> newHeartbeatMessageInfo = (\<lambda>maxDur pType genesis tm.
         (Inr \<lparr> maxDurationPeerUnresponsive = maxDur, maxInactiveTime = maxDur,
                 totalUpTime = 0, totalDownTime = 0, getTimeHandler = True,
                 timeStamp = genesis, isActive = False, receivedShardID = 0,
                 computedShardID = 0, versionNumber = [], nodeDisplayName = [],
                 peerType = pType, lastUptimeDowntime = genesis, genesisTime = genesis \<rparr>,
          tm)),
       HeartbeatReceived = (\<lambda>v computedShard receivedShard version name pType tm.
         (v\<lparr>isActive := True, timeStamp := fst (Now tm), computedShardID := computedShard,
            receivedShardID := receivedShard, versionNumber := version,
            nodeDisplayName := name, peerType := pType\<rparr>,
          snd (Now tm))),
       ComputeActive = Evaluate,
       GetIsValidator = (\<lambda>v. peerType v = ''eligible'' \<or> peerType v = ''waiting'') \<rparr>"

text \<open>A monitor that tracks two active validators: \<open>''A''\<close>, silent since the instant 900,
  and \<open>''B''\<close>, heard at the instant 4990; the threshold is 50 ns.\<close>

definition trackingMonitor :: Monitor where
  "trackingMonitor =
     exampleMonitor\<lparr>heartbeatMessages :=
       [''A'' \<mapsto> (convertFromExportedStruct exampleDTO 50)\<lparr>maxInactiveTime := 50\<rparr>,
        ''B'' \<mapsto> (convertFromExportedStruct exampleDTO 50)\<lparr>maxInactiveTime := 50,
                                                            timeStamp := 4990\<rparr>]\<rparr>"

text \<open>The same, with \<open>''B''\<close> heard at the instant 4951: 49 ns before the timer's first
  reading, 50 ns before its second.\<close>

definition edgeMonitor :: Monitor where
  "edgeMonitor =
     exampleMonitor\<lparr>heartbeatMessages :=
       [''A'' \<mapsto> (convertFromExportedStruct exampleDTO 50)\<lparr>maxInactiveTime := 50\<rparr>,
        ''B'' \<mapsto> (convertFromExportedStruct exampleDTO 50)\<lparr>maxInactiveTime := 50,
                                                            timeStamp := 4951\<rparr>]\<rparr>"

text \<open>The monitor built over that storage for the validators \<open>''A''\<close> and \<open>''B''\<close> of
  shard 0.\<close>

definition builtMonitor :: "error + Monitor" where
  "builtMonitor =
     NewMonitor exampleMethods (Some Marshalizer) 50 [(0, [''A'', ''B''])] 0
       (Some exampleMessageHandler) (Some exampleStorer) (Some exampleProvider)
       (Some exampleTimer) (Some exampleAntiflood)"

text \<open>The peer \<open>''C''\<close>, unknown to the built monitor, sends two heartbeats; each is
  accepted and then added by its goroutine.\<close>

definition twoHeartbeats :: "operation list" where
  "twoHeartbeats =
     [OpProcessReceivedMessage (Some \<lparr>Data = Some ''C'', Peer = ''p''\<rparr>) ''p'', OpRun 1 [],
      OpProcessReceivedMessage (Some \<lparr>Data = Some ''C'', Peer = ''p''\<rparr>) ''p'', OpRun 2 []]"

text \<open>Methods whose constructor refuses a threshold that is not positive, and that are
  those above otherwise; the monitor built with them and the threshold 0 for the validator
  \<open>''A''\<close>, whose record loads from the storage; and one heartbeat of the peer \<open>''C''\<close>,
  accepted and then handled by its goroutine.\<close>

definition strictMethods :: heartbeatMessageInfoMethods where
  "strictMethods =
     exampleMethods\<lparr>newHeartbeatMessageInfo := (\<lambda>maxDur pType genesis tm.
       if sint maxDur \<le> 0 then (Inl (ErrCollaborator ''invalid threshold''), tm)
       else newHeartbeatMessageInfo exampleMethods maxDur pType genesis tm)\<rparr>"

definition strictMonitor :: "error + Monitor" where
  "strictMonitor =
     NewMonitor strictMethods (Some Marshalizer) 0 [(0, [''A''])] 0
       (Some exampleMessageHandler) (Some exampleStorer) (Some exampleProvider)
       (Some exampleTimer) (Some exampleAntiflood)"

definition oneHeartbeat :: "operation list" where
  "oneHeartbeat =
     [OpProcessReceivedMessage (Some \<lparr>Data = Some ''C'', Peer = ''p''\<rparr>) ''p'', OpRun 1 []]"

text \<open>A monitor whose one record has 16777216.999999999 seconds of uptime, accounted up to
  the instant 5000 that the timer reads next.\<close>

definition longRunningMonitor :: Monitor where
  "longRunningMonitor =
     exampleMonitor\<lparr>heartbeatMessages :=
       [''A'' \<mapsto> (convertFromExportedStruct exampleDTO 50)\<lparr>maxInactiveTime := 50,
          timeStamp := 4990, lastUptimeDowntime := 5000,
          totalUpTime := 16777216999999999\<rparr>]\<rparr>"

section \<open>Properties\<close>

subsection \<open>Round trip through the exported form\<close>

lemma Unix0_UnixNano: "Unix0 (UnixNano t) = t \<longleftrightarrow> representable t"
proof
  assume h: "Unix0 (UnixNano t) = t"
  have "- (2 ^ 63) \<le> sint (word_of_int t :: 64 word)"
    using sint_ge [of "word_of_int t :: 64 word"] by simp
  moreover have "sint (word_of_int t :: 64 word) < 2 ^ 63"
    using sint_lt [of "word_of_int t :: 64 word"] by simp
  ultimately show "representable t"
    using h by (simp add: Unix0_def UnixNano_def representable_def)
next
  assume "representable t"
  then show "Unix0 (UnixNano t) = t"
    by (simp add: Unix0_def UnixNano_def representable_def sint_sbintrunc'
        signed_take_bit_int_eq_self)
qed

lemma UnixNano_Unix0: "UnixNano (Unix0 n) = n"
  by (simp add: Unix0_def UnixNano_def)

lemma representable_Unix0: "representable (Unix0 n)"
  using Unix0_UnixNano [of "Unix0 n"] by (simp add: UnixNano_Unix0)


lemma sint_word_of_int_64:
  "- (2 ^ 63) \<le> d \<Longrightarrow> d < 2 ^ 63 \<Longrightarrow> sint (word_of_int d :: 64 word) = d"
  using Unix0_UnixNano [of d] by (simp add: Unix0_def UnixNano_def representable_def)

text \<open>
  C6, as stated: converting any record to the exported form and back reproduces every
  persisted field. It fails for a record that holds the zero \<^verbatim>\<open>time.Time\<close> as its
  genesis time: \<^verbatim>\<open>UnixNano\<close> wraps the instant into \<^verbatim>\<open>int64\<close>, and \<^verbatim>\<open>time.Unix\<close>
  gives back another instant.
\<close>

theorem C6_roundtrip_counterexample:
  "persistedFields (convertFromExportedStruct (convertToExportedStruct zeroTimeRecord)
      (maxDurationPeerUnresponsive zeroTimeRecord)) \<noteq> persistedFields zeroTimeRecord"
  by (simp add: persistedFields_def convertFromExportedStruct_def convertToExportedStruct_def
      Unix0_UnixNano Nanoseconds_def Duration_def zeroTimeRecord_def representable_def
      zeroTime_def)

text \<open>
  C6, amended: converting a record to the exported form and back, with any threshold,
  reproduces the twelve persisted fields (\<open>isActive\<close>, \<open>receivedShardID\<close>,
  \<open>computedShardID\<close>, \<open>versionNumber\<close>, \<open>nodeDisplayName\<close>, \<open>peerType\<close>, \<open>timeStamp\<close>,
  \<open>maxInactiveTime\<close>, \<open>totalUpTime\<close>, \<open>totalDownTime\<close>, \<open>lastUptimeDowntime\<close>,
  \<open>genesisTime\<close>) exactly when the record's three instants are representable as
  \<^verbatim>\<open>int64\<close> nanoseconds since the epoch; the nine other fields are reproduced always.
\<close>

theorem C6_roundtrip:
  "(persistedFields (convertFromExportedStruct (convertToExportedStruct v) d) = persistedFields v
    \<longleftrightarrow> representable (timeStamp v) \<and> representable (lastUptimeDowntime v)
        \<and> representable (genesisTime v))
   \<and> fst (persistedFields (convertFromExportedStruct (convertToExportedStruct v) d))
       = fst (persistedFields v)
   \<and> maxInactiveTime (convertFromExportedStruct (convertToExportedStruct v) d)
       = maxInactiveTime v
   \<and> totalUpTime (convertFromExportedStruct (convertToExportedStruct v) d) = totalUpTime v
   \<and> totalDownTime (convertFromExportedStruct (convertToExportedStruct v) d)
       = totalDownTime v"
  by (auto simp add: persistedFields_def convertFromExportedStruct_def
      convertToExportedStruct_def Unix0_UnixNano Nanoseconds_def Duration_def)

theorem C6_roundtrip_witness:
  "representable (timeStamp (convertFromExportedStruct exampleDTO 50))
   \<and> persistedFields (convertFromExportedStruct
        (convertToExportedStruct (convertFromExportedStruct exampleDTO 50)) 50)
      = persistedFields (convertFromExportedStruct exampleDTO 50)"
proof -
  have "representable (timeStamp (convertFromExportedStruct exampleDTO 50))"
    and "representable (lastUptimeDowntime (convertFromExportedStruct exampleDTO 50))"
    and "representable (genesisTime (convertFromExportedStruct exampleDTO 50))"
    by (simp_all add: convertFromExportedStruct_def representable_Unix0)
  then show ?thesis
    using C6_roundtrip [of "convertFromExportedStruct exampleDTO 50" 50] by blast
qed

subsection \<open>Reloading a record from storage\<close>

lemma sint_Sub: "sint (Sub t u) = max (- (2 ^ 63)) (min (2 ^ 63 - 1) (t - u))"
proof -
  define d where "d = t - u"
  have "sint (if d > 2 ^ 63 - 1 then maxDurationValue
              else if d < - (2 ^ 63) then minDurationValue
              else word_of_int d) = max (- (2 ^ 63)) (min (2 ^ 63 - 1) d)"
    by (simp add: maxDurationValue_def minDurationValue_def sint_word_of_int_64)
  then show ?thesis
    unfolding Sub_def Let_def d_def .
qed

lemma sint_maxDuration: "sint (maxDuration a b) = max (sint a) (sint b)"
  by (simp add: maxDuration_def)

lemma sint_clipped: "sint (maxDuration 0 (Sub t u)) = min (2 ^ 63 - 1) (max 0 (t - u))"
  by (simp add: sint_maxDuration sint_Sub)

text \<open>
  C2: a record loaded from storage at the timer's reading \<open>t1\<close>, with persisted watermark
  \<open>t0\<close>, has \<open>totalUpTime\<close> increased by \<open>max(0, t1 - t0)\<close> when the persisted
  \<open>isActive\<close> is true, and \<open>totalDownTime\<close> increased by it otherwise; the other total is
  as persisted and the watermark is \<open>t1\<close>. The load succeeds and takes one reading of the
  timer. The increase is the \<^verbatim>\<open>time.Duration\<close> that the code computes, added by the
  code's \<^verbatim>\<open>+=\<close>: as an integer it is \<open>max(0, t1 - t0)\<close>, capped at the largest duration.
\<close>

theorem C2_loadHbmiFromStorer_accounting:
  assumes "LoadHbmiDTO (storer m) pubKey = Inr hbmiDTO"
  shows "\<exists>r. loadHbmiFromStorer m pubKey = (Inr r, m\<lparr>timer := snd (Now (timer m))\<rparr>) \<and>
     lastUptimeDowntime r = fst (Now (timer m)) \<and>
     (if IsActive hbmiDTO
      then totalUpTime r = Duration (TotalUpTime hbmiDTO) +
             maxDuration 0 (Sub (fst (Now (timer m))) (Unix0 (LastUptimeDowntime hbmiDTO))) \<and>
           totalDownTime r = Duration (TotalDownTime hbmiDTO)
      else totalDownTime r = Duration (TotalDownTime hbmiDTO) +
             maxDuration 0 (Sub (fst (Now (timer m))) (Unix0 (LastUptimeDowntime hbmiDTO))) \<and>
           totalUpTime r = Duration (TotalUpTime hbmiDTO)) \<and>
     sint (maxDuration 0 (Sub (fst (Now (timer m))) (Unix0 (LastUptimeDowntime hbmiDTO))))
       = min (2 ^ 63 - 1) (max 0 (fst (Now (timer m)) - Unix0 (LastUptimeDowntime hbmiDTO)))"
  using assms
  by (simp add: loadHbmiFromStorer_def Let_def split_def convertFromExportedStruct_def
      sint_clipped)

text \<open>The peer \<open>''A''\<close>, persisted active with 100 ns of uptime and watermark 1000, is
  loaded at the reading 5000: its uptime becomes 4100 and its watermark 5000.\<close>

theorem C2_loadHbmiFromStorer_accounting_witness:
  "LoadHbmiDTO (storer exampleMonitor) ''A'' = Inr exampleDTO \<and>
   (\<exists>r. fst (loadHbmiFromStorer exampleMonitor ''A'') = Inr r \<and>
        lastUptimeDowntime r = 5000 \<and> totalUpTime r = 4100 \<and> totalDownTime r = 20)"
proof -
  have h: "LoadHbmiDTO (storer exampleMonitor) ''A'' = Inr exampleDTO"
    by (simp add: exampleMonitor_def exampleStorer_def)
  have d: "maxDuration 0 (Sub 5000 (Unix0 (1000 :: 64 word))) = 4000"
    by (simp add: maxDuration_def Sub_def Unix0_def)
  from C2_loadHbmiFromStorer_accounting [OF h] obtain r where
    "loadHbmiFromStorer exampleMonitor ''A''
       = (Inr r, exampleMonitor\<lparr>timer := snd (Now (timer exampleMonitor))\<rparr>)"
    "lastUptimeDowntime r = fst (Now (timer exampleMonitor))"
    "if IsActive exampleDTO
     then totalUpTime r = Duration (TotalUpTime exampleDTO) +
            maxDuration 0 (Sub (fst (Now (timer exampleMonitor)))
              (Unix0 (LastUptimeDowntime exampleDTO))) \<and>
          totalDownTime r = Duration (TotalDownTime exampleDTO)
     else totalDownTime r = Duration (TotalDownTime exampleDTO) +
            maxDuration 0 (Sub (fst (Now (timer exampleMonitor)))
              (Unix0 (LastUptimeDowntime exampleDTO))) \<and>
          totalUpTime r = Duration (TotalUpTime exampleDTO)"
    by blast
  then have "fst (loadHbmiFromStorer exampleMonitor ''A'') = Inr r \<and>
        lastUptimeDowntime r = 5000 \<and> totalUpTime r = 4100 \<and> totalDownTime r = 20"
    using d by (simp add: exampleMonitor_def exampleTimer_def exampleDTO_def Now_def
        Duration_def)
  then show ?thesis using h by blast
qed

text \<open>
  The peer \<open>''A''\<close> is persisted active with the threshold 7 and is reloaded at the instant
  5000, which becomes its time stamp; an evaluation at the instant 5007, with no heartbeat
  in between, finds it inactive. So a record that is reloaded active does not remain
  active at every next evaluation.
\<close>

theorem C10_loadHbmiFromStorer_counterexample:
  "LoadHbmiDTO (storer exampleMonitor) ''A'' = Inr exampleDTO \<and> IsActive exampleDTO \<and>
   isActive (projr (fst (loadHbmiFromStorer exampleMonitor ''A''))) \<and>
   timeStamp (projr (fst (loadHbmiFromStorer exampleMonitor ''A''))) = 5000 \<and>
   maxInactiveTime (projr (fst (loadHbmiFromStorer exampleMonitor ''A''))) = 7 \<and>
   \<not> isActive (Evaluate (projr (fst (loadHbmiFromStorer exampleMonitor ''A''))) 5007)"
  by (simp add: loadHbmiFromStorer_def exampleMonitor_def exampleStorer_def exampleDTO_def
      exampleTimer_def Now_def Let_def split_def convertFromExportedStruct_def Evaluate_def
      Duration_def Unix0_def sint_Sub)

text \<open>
  C10 (amended): when a persisted record is loaded at the timer's reading \<open>t1\<close>, its
  \<open>isActive\<close> flag and its threshold \<open>maxInactiveTime\<close> are the persisted ones; if the flag
  is true its \<open>timeStamp\<close> is reset to \<open>t1\<close>, and if it is false its \<open>timeStamp\<close> is the
  persisted one. So an evaluation at \<open>now\<close> of the record as reloaded finds it active
  exactly when less than the threshold has passed since \<open>t1\<close>, if the persisted flag is
  true (whatever the persisted time of the last heartbeat), and exactly when less than the
  threshold has passed since the persisted time stamp, if it is false. The time passed is
  the \<^verbatim>\<open>Duration\<close> that \<open>Sub\<close> gives: the difference of the instants, kept in the range of
  \<^verbatim>\<open>int64\<close>.
\<close>

theorem C10_loadHbmiFromStorer_timeStamp:
  assumes "LoadHbmiDTO (storer m) pubKey = Inr hbmiDTO"
  shows "\<exists>r. loadHbmiFromStorer m pubKey = (Inr r, m\<lparr>timer := snd (Now (timer m))\<rparr>) \<and>
     isActive r = IsActive hbmiDTO \<and>
     maxInactiveTime r = Duration (MaxInactiveTime hbmiDTO) \<and>
     timeStamp r = (if IsActive hbmiDTO then fst (Now (timer m))
                    else Unix0 (TimeStamp hbmiDTO)) \<and>
     isActive (Evaluate r now) =
       (max (- (2 ^ 63)) (min (2 ^ 63 - 1)
          (now - (if IsActive hbmiDTO then fst (Now (timer m))
                  else Unix0 (TimeStamp hbmiDTO))))
        < sint (MaxInactiveTime hbmiDTO))"
  using assms
  by (simp add: loadHbmiFromStorer_def Let_def split_def convertFromExportedStruct_def
      Evaluate_def Duration_def sint_Sub)

text \<open>The peer \<open>''A''\<close> is persisted active with the time stamp 900 and the threshold 7: it
  is reloaded at the instant 5000, which becomes its time stamp, and an evaluation at the
  instant 5006 finds it active.\<close>

theorem C10_loadHbmiFromStorer_timeStamp_witness:
  "LoadHbmiDTO (storer exampleMonitor) ''A'' = Inr exampleDTO \<and>
   IsActive exampleDTO \<and> TimeStamp exampleDTO = 900 \<and>
   (\<exists>r. fst (loadHbmiFromStorer exampleMonitor ''A'') = Inr r \<and>
        isActive r \<and> timeStamp r = 5000 \<and> isActive (Evaluate r 5006))"
proof -
  have h: "LoadHbmiDTO (storer exampleMonitor) ''A'' = Inr exampleDTO"
    by (simp add: exampleMonitor_def exampleStorer_def)
  have a: "IsActive exampleDTO" "TimeStamp exampleDTO = 900"
    by (simp_all add: exampleDTO_def)
  from C10_loadHbmiFromStorer_timeStamp [OF h, of 5006] obtain r where
    l: "loadHbmiFromStorer exampleMonitor ''A''
       = (Inr r, exampleMonitor\<lparr>timer := snd (Now (timer exampleMonitor))\<rparr>)"
    and f: "isActive r = IsActive exampleDTO"
    and t: "timeStamp r = (if IsActive exampleDTO then fst (Now (timer exampleMonitor))
                    else Unix0 (TimeStamp exampleDTO))"
    and e: "isActive (Evaluate r 5006) =
       (max (- (2 ^ 63)) (min (2 ^ 63 - 1)
          (5006 - (if IsActive exampleDTO then fst (Now (timer exampleMonitor))
                   else Unix0 (TimeStamp exampleDTO))))
        < sint (MaxInactiveTime exampleDTO))"
    by blast
  have n: "fst (Now (timer exampleMonitor)) = 5000"
    by (simp add: exampleMonitor_def exampleTimer_def Now_def)
  have "isActive (Evaluate r 5006)"
    unfolding e n by (simp add: exampleDTO_def)
  moreover have "isActive r" "timeStamp r = 5000"
    using f t a(1) n by simp_all
  moreover have "fst (loadHbmiFromStorer exampleMonitor ''A'') = Inr r"
    using l by simp
  ultimately show ?thesis using h a by blast
qed

text \<open>The peer \<open>''I''\<close> is persisted inactive with the time stamp 900, and keeps it; an
  evaluation at the instant 906 finds it active, one at the instant 5001 inactive.\<close>

lemma loadHbmiFromStorer_inactive_example:
  "isActive (Evaluate (projr (fst (loadHbmiFromStorer exampleMonitor ''I''))) 906) \<and>
   \<not> isActive (Evaluate (projr (fst (loadHbmiFromStorer exampleMonitor ''I''))) 5001) \<and>
   timeStamp (projr (fst (loadHbmiFromStorer exampleMonitor ''I''))) = 900"
  by (simp add: loadHbmiFromStorer_def exampleMonitor_def exampleStorer_def exampleDTO_def
      exampleTimer_def Now_def Let_def split_def convertFromExportedStruct_def Evaluate_def
      Duration_def Unix0_def sint_Sub)

subsection \<open>Ingestion of a message\<close>

text \<open>
  C1: \<^verbatim>\<open>ProcessReceivedMessage\<close> returns \<^verbatim>\<open>ErrNilMessage\<close> for a nil message,
  \<^verbatim>\<open>ErrNilDataToProcess\<close> for a nil payload, the error of the first admission check
  (per peer) if it rejects, else the error of the second (on the heartbeat topic) if it
  rejects, else the decoder's error if decoding fails; in each of these cases the monitor
  is left as it was and no goroutine is started. Otherwise it returns nil, having started
  the goroutines that add the heartbeat and run the aggregation pass.
\<close>

theorem C1_ProcessReceivedMessage:
  "(message = None \<longrightarrow>
      ProcessReceivedMessage m message p = (Some ErrNilMessage, m)) \<and>
   (message = Some msg \<and> Data msg = None \<longrightarrow>
      ProcessReceivedMessage m message p = (Some ErrNilDataToProcess, m)) \<and>
   (message = Some msg \<and> Data msg = Some d \<and>
    CanProcessMessage (antifloodHandler m) msg p = Some e \<longrightarrow>
      ProcessReceivedMessage m message p = (Some e, m)) \<and>
   (message = Some msg \<and> Data msg = Some d \<and>
    CanProcessMessage (antifloodHandler m) msg p = None \<and>
    CanProcessMessageOnTopic (antifloodHandler m) p HeartbeatTopic = Some e \<longrightarrow>
      ProcessReceivedMessage m message p = (Some e, m)) \<and>
   (message = Some msg \<and> Data msg = Some d \<and>
    CanProcessMessage (antifloodHandler m) msg p = None \<and>
    CanProcessMessageOnTopic (antifloodHandler m) p HeartbeatTopic = None \<and>
    CreateHeartbeatFromP2PMessage (messageHandler m) msg = Inl e \<longrightarrow>
      ProcessReceivedMessage m message p = (Some e, m)) \<and>
   (message = Some msg \<and> Data msg = Some d \<and>
    CanProcessMessage (antifloodHandler m) msg p = None \<and>
    CanProcessMessageOnTopic (antifloodHandler m) p HeartbeatTopic = None \<and>
    CreateHeartbeatFromP2PMessage (messageHandler m) msg = Inr hb \<longrightarrow>
      ProcessReceivedMessage m message p =
        (None, m\<lparr>goroutines := goroutines m @
                 [AddHeartbeatMessageToMap hb, ComputeAllHeartbeatMessages]\<rparr>))"
  by (simp add: ProcessReceivedMessage_def)


text \<open>One message for each of the six outcomes, at the concrete monitor.\<close>

theorem C1_ProcessReceivedMessage_witness:
  "ProcessReceivedMessage exampleMonitor None ''p'' = (Some ErrNilMessage, exampleMonitor) \<and>
   ProcessReceivedMessage exampleMonitor (Some \<lparr>Data = None, Peer = ''p''\<rparr>) ''p''
     = (Some ErrNilDataToProcess, exampleMonitor) \<and>
   ProcessReceivedMessage exampleMonitor (Some \<lparr>Data = Some ''B'', Peer = ''flooder''\<rparr>)
       ''flooder''
     = (Some (ErrCollaborator ''flood''), exampleMonitor) \<and>
   ProcessReceivedMessage exampleMonitor (Some \<lparr>Data = Some ''B'', Peer = ''topicflooder''\<rparr>)
       ''topicflooder''
     = (Some (ErrCollaborator ''topic flood''), exampleMonitor) \<and>
   ProcessReceivedMessage exampleMonitor (Some \<lparr>Data = Some [], Peer = ''p''\<rparr>) ''p''
     = (Some (ErrCollaborator ''cannot decode''), exampleMonitor) \<and>
   ProcessReceivedMessage exampleMonitor (Some \<lparr>Data = Some ''B'', Peer = ''p''\<rparr>) ''p''
     = (None, exampleMonitor\<lparr>goroutines := goroutines exampleMonitor @
          [AddHeartbeatMessageToMap \<lparr>Pubkey = ''B'', ShardID = 0, hbVersionNumber = ''v1'',
              hbNodeDisplayName = ''node''\<rparr>, ComputeAllHeartbeatMessages]\<rparr>)"
proof -
  have af: "antifloodHandler exampleMonitor = exampleAntiflood"
    and mh: "messageHandler exampleMonitor = exampleMessageHandler"
    by (simp_all add: exampleMonitor_def)
  have 1: "ProcessReceivedMessage exampleMonitor None ''p'' = (Some ErrNilMessage, exampleMonitor)"
    using C1_ProcessReceivedMessage [where message = None and m = exampleMonitor and p = "''p''"]
    by simp
  have 2: "ProcessReceivedMessage exampleMonitor (Some \<lparr>Data = None, Peer = ''p''\<rparr>) ''p''
     = (Some ErrNilDataToProcess, exampleMonitor)"
    using C1_ProcessReceivedMessage [where message = "Some \<lparr>Data = None, Peer = ''p''\<rparr>"
        and msg = "\<lparr>Data = None, Peer = ''p''\<rparr>" and m = exampleMonitor and p = "''p''"]
    by simp
  have 3: "ProcessReceivedMessage exampleMonitor (Some \<lparr>Data = Some ''B'', Peer = ''flooder''\<rparr>)
       ''flooder'' = (Some (ErrCollaborator ''flood''), exampleMonitor)"
    using C1_ProcessReceivedMessage [where message = "Some \<lparr>Data = Some ''B'', Peer = ''flooder''\<rparr>"
        and msg = "\<lparr>Data = Some ''B'', Peer = ''flooder''\<rparr>" and m = exampleMonitor
        and p = "''flooder''" and d = "''B''" and e = "ErrCollaborator ''flood''"]
    by (simp add: af exampleAntiflood_def)
  have 4: "ProcessReceivedMessage exampleMonitor
       (Some \<lparr>Data = Some ''B'', Peer = ''topicflooder''\<rparr>) ''topicflooder''
     = (Some (ErrCollaborator ''topic flood''), exampleMonitor)"
    using C1_ProcessReceivedMessage [where
        message = "Some \<lparr>Data = Some ''B'', Peer = ''topicflooder''\<rparr>"
        and msg = "\<lparr>Data = Some ''B'', Peer = ''topicflooder''\<rparr>" and m = exampleMonitor
        and p = "''topicflooder''" and d = "''B''" and e = "ErrCollaborator ''topic flood''"]
    by (simp add: af exampleAntiflood_def)
  have 5: "ProcessReceivedMessage exampleMonitor (Some \<lparr>Data = Some [], Peer = ''p''\<rparr>) ''p''
     = (Some (ErrCollaborator ''cannot decode''), exampleMonitor)"
    using C1_ProcessReceivedMessage [where message = "Some \<lparr>Data = Some [], Peer = ''p''\<rparr>"
        and msg = "\<lparr>Data = Some [], Peer = ''p''\<rparr>" and m = exampleMonitor
        and p = "''p''" and d = "[]" and e = "ErrCollaborator ''cannot decode''"]
    by (simp add: af mh exampleAntiflood_def exampleMessageHandler_def)
  have 6: "ProcessReceivedMessage exampleMonitor (Some \<lparr>Data = Some ''B'', Peer = ''p''\<rparr>) ''p''
     = (None, exampleMonitor\<lparr>goroutines := goroutines exampleMonitor @
          [AddHeartbeatMessageToMap \<lparr>Pubkey = ''B'', ShardID = 0, hbVersionNumber = ''v1'',
              hbNodeDisplayName = ''node''\<rparr>, ComputeAllHeartbeatMessages]\<rparr>)"
    using C1_ProcessReceivedMessage [where message = "Some \<lparr>Data = Some ''B'', Peer = ''p''\<rparr>"
        and msg = "\<lparr>Data = Some ''B'', Peer = ''p''\<rparr>" and m = exampleMonitor
        and p = "''p''" and d = "''B''"
        and hb = "\<lparr>Pubkey = ''B'', ShardID = 0, hbVersionNumber = ''v1'',
              hbNodeDisplayName = ''node''\<rparr>"]
    by (simp add: af mh exampleAntiflood_def exampleMessageHandler_def)
  show ?thesis
    by (rule conjI [OF 1 conjI [OF 2 conjI [OF 3 conjI [OF 4 conjI [OF 5 6]]]]])
qed

subsection \<open>Construction\<close>

text \<open>
  C3: \<^verbatim>\<open>NewMonitor\<close> returns an error, and no monitor, when the marshalizer, the
  peer type provider, the message handler, the storer, the timer or the antiflood handler
  is nil or the map of public keys is empty; when it returns a monitor, none of them is
  nil and the map is not empty.
\<close>

theorem C3_NewMonitor:
  "(marshalizerArg = None \<or> peerTypeProviderArg = None \<or> pubKeysMapArg = [] \<or>
    messageHandlerArg = None \<or> storerArg = None \<or> timerArg = None \<or>
    antifloodHandlerArg = None \<longrightarrow>
      (\<exists>e. NewMonitor ops marshalizerArg maxDur pubKeysMapArg genesis messageHandlerArg
             storerArg peerTypeProviderArg timerArg antifloodHandlerArg = Inl e)) \<and>
   (NewMonitor ops marshalizerArg maxDur pubKeysMapArg genesis messageHandlerArg
      storerArg peerTypeProviderArg timerArg antifloodHandlerArg = Inr mon \<longrightarrow>
      marshalizerArg \<noteq> None \<and> peerTypeProviderArg \<noteq> None \<and> pubKeysMapArg \<noteq> [] \<and>
      messageHandlerArg \<noteq> None \<and> storerArg \<noteq> None \<and> timerArg \<noteq> None \<and>
      antifloodHandlerArg \<noteq> None)"
  by (auto simp add: NewMonitor_def split: option.splits)

text \<open>The concrete monitor is built: its storage holds the record of \<open>''A''\<close>, and
  \<open>''B''\<close> gets a fresh record, queued to be saved.\<close>

lemma builtMonitor_value:
  "\<exists>mon. builtMonitor = Inr mon \<and> dom (heartbeatMessages mon) = {''A'', ''B''} \<and>
     fullPeersSlice mon = [] \<and>
     goroutines mon = [SaveMultipleHeartbeatMessageInfos [''B'']] \<and>
     messageHandler mon = exampleMessageHandler \<and>
     antifloodHandler mon = exampleAntiflood \<and>
     peerTypeProvider mon = exampleProvider"
  by (auto simp add: builtMonitor_def NewMonitor_def initializeHeartbeatMessagesInfo_def
      initializeHeartBeatForPK_def loadHbmiFromStorer_def loadRestOfPubKeysFromStorage_def
      loadRestPeer_def computePeerTypeAndShardID_def computePeerType_def
      exampleStorer_def exampleMethods_def exampleProvider_def exampleTimer_def
      Now_def Let_def appendPubKey_def)

theorem C3_NewMonitor_witness:
  "(\<exists>e. NewMonitor exampleMethods None 50 [(0, [''A'', ''B''])] 0
          (Some exampleMessageHandler) (Some exampleStorer) (Some exampleProvider)
          (Some exampleTimer) (Some exampleAntiflood) = Inl e) \<and>
   (\<exists>e. NewMonitor exampleMethods (Some Marshalizer) 50 [] 0
          (Some exampleMessageHandler) (Some exampleStorer) (Some exampleProvider)
          (Some exampleTimer) (Some exampleAntiflood) = Inl e) \<and>
   (\<exists>mon. NewMonitor exampleMethods (Some Marshalizer) 50 [(0, [''A'', ''B''])] 0
          (Some exampleMessageHandler) (Some exampleStorer) (Some exampleProvider)
          (Some exampleTimer) (Some exampleAntiflood) = Inr mon \<and>
       Some exampleStorer \<noteq> None \<and> [(0 :: uint32, [''A'', ''B''])] \<noteq> [])"
proof -
  have 1: "\<exists>e. NewMonitor exampleMethods None 50 [(0, [''A'', ''B''])] 0
          (Some exampleMessageHandler) (Some exampleStorer) (Some exampleProvider)
          (Some exampleTimer) (Some exampleAntiflood) = Inl e"
    using C3_NewMonitor [where marshalizerArg = None and ops = exampleMethods and maxDur = 50
        and pubKeysMapArg = "[(0, [''A'', ''B''])]" and genesis = 0
        and messageHandlerArg = "Some exampleMessageHandler" and storerArg = "Some exampleStorer"
        and peerTypeProviderArg = "Some exampleProvider" and timerArg = "Some exampleTimer"
        and antifloodHandlerArg = "Some exampleAntiflood"]
    by simp
  have 2: "\<exists>e. NewMonitor exampleMethods (Some Marshalizer) 50 [] 0
          (Some exampleMessageHandler) (Some exampleStorer) (Some exampleProvider)
          (Some exampleTimer) (Some exampleAntiflood) = Inl e"
    using C3_NewMonitor [where marshalizerArg = "Some Marshalizer" and ops = exampleMethods
        and maxDur = 50 and pubKeysMapArg = "[]" and genesis = 0
        and messageHandlerArg = "Some exampleMessageHandler" and storerArg = "Some exampleStorer"
        and peerTypeProviderArg = "Some exampleProvider" and timerArg = "Some exampleTimer"
        and antifloodHandlerArg = "Some exampleAntiflood"]
    by simp
  from builtMonitor_value obtain mon where
    b: "NewMonitor exampleMethods (Some Marshalizer) 50 [(0, [''A'', ''B''])] 0
          (Some exampleMessageHandler) (Some exampleStorer) (Some exampleProvider)
          (Some exampleTimer) (Some exampleAntiflood) = Inr mon"
    unfolding builtMonitor_def by blast
  from C3_NewMonitor [where marshalizerArg = "Some Marshalizer" and ops = exampleMethods
        and maxDur = 50 and pubKeysMapArg = "[(0, [''A'', ''B''])]" and genesis = 0
        and messageHandlerArg = "Some exampleMessageHandler" and storerArg = "Some exampleStorer"
        and peerTypeProviderArg = "Some exampleProvider" and timerArg = "Some exampleTimer"
        and antifloodHandlerArg = "Some exampleAntiflood" and mon = mon] b
  have "Some exampleStorer \<noteq> None \<and> [(0 :: uint32, [''A'', ''B''])] \<noteq> []"
    by blast
  with b have 3: "\<exists>mon. NewMonitor exampleMethods (Some Marshalizer) 50 [(0, [''A'', ''B''])] 0
          (Some exampleMessageHandler) (Some exampleStorer) (Some exampleProvider)
          (Some exampleTimer) (Some exampleAntiflood) = Inr mon \<and>
       Some exampleStorer \<noteq> None \<and> [(0 :: uint32, [''A'', ''B''])] \<noteq> []"
    by blast
  show ?thesis by (rule conjI [OF 1 conjI [OF 2 3]])
qed

subsection \<open>The aggregation pass\<close>

lemma computeEntry_None:
  "heartbeatMessages m key = None \<Longrightarrow> computeEntry ops key (m, a, c, ch) = (m, a, c, ch)"
  by (simp add: computeEntry_def)

lemma computeEntry_Some:
  assumes "heartbeatMessages m key = Some v"
  shows "computeEntry ops key (m, a, c, ch) =
     (m\<lparr>timer := snd (Now (timer m)),
        heartbeatMessages := (heartbeatMessages m)(key \<mapsto> ComputeActive ops v (fst (Now (timer m))))\<rparr>,
      (if isActive (ComputeActive ops v (fst (Now (timer m)))) \<and>
          GetIsValidator ops (ComputeActive ops v (fst (Now (timer m)))) then a + 1 else a),
      (if isActive (ComputeActive ops v (fst (Now (timer m)))) then c + 1 else c),
      (if isActive v \<and> \<not> isActive (ComputeActive ops v (fst (Now (timer m))))
       then List.insert key ch else ch))"
  using assms by (simp add: computeEntry_def Let_def split_def GetIsActive_def)

lemma singleton_Collect: "{k \<in> {key}. P k} = (if P key then {key} else {})"
  by auto

text \<open>What one round of the loop does, read off the state before and after it.\<close>

lemma computeEntry_step:
  assumes "computeEntry ops key (m, a, c, ch) = (m1, a1, c1, ch1)"
  shows "(\<forall>k. k \<noteq> key \<longrightarrow> heartbeatMessages m1 k = heartbeatMessages m k) \<and>
     dom (heartbeatMessages m1) = dom (heartbeatMessages m) \<and>
     goroutines m1 = goroutines m \<and> storerCalls m1 = storerCalls m \<and>
     appStatusHandler m1 = appStatusHandler m \<and> fullPeersSlice m1 = fullPeersSlice m \<and>
     set ch1 = set ch \<union> {k \<in> {key}. \<exists>v v'. heartbeatMessages m k = Some v \<and>
            heartbeatMessages m1 k = Some v' \<and> isActive v \<and> \<not> isActive v'} \<and>
     c1 = c + card {k \<in> {key}. \<exists>v'. heartbeatMessages m1 k = Some v' \<and> isActive v'} \<and>
     a1 = a + card {k \<in> {key}. \<exists>v'. heartbeatMessages m1 k = Some v' \<and> isActive v' \<and>
            GetIsValidator ops v'}"
proof (cases "heartbeatMessages m key")
  case None
  with assms have "m1 = m" "a1 = a" "c1 = c" "ch1 = ch"
    by (simp_all add: computeEntry_None)
  then show ?thesis
    unfolding singleton_Collect by (simp add: None)
next
  case (Some v)
  define w where "w = ComputeActive ops v (fst (Now (timer m)))"
  from assms have
    m1: "m1 = m\<lparr>timer := snd (Now (timer m)),
                 heartbeatMessages := (heartbeatMessages m)(key \<mapsto> w)\<rparr>"
    and a1: "a1 = (if isActive w \<and> GetIsValidator ops w then a + 1 else a)"
    and c1: "c1 = (if isActive w then c + 1 else c)"
    and ch1: "ch1 = (if isActive v \<and> \<not> isActive w then List.insert key ch else ch)"
    unfolding computeEntry_Some [OF Some] w_def by simp_all
  have h1: "heartbeatMessages m1 key = Some w" by (simp add: m1)
  have f1: "\<forall>k. k \<noteq> key \<longrightarrow> heartbeatMessages m1 k = heartbeatMessages m k"
    by (simp add: m1)
  have f2: "dom (heartbeatMessages m1) = dom (heartbeatMessages m)"
    using Some by (auto simp add: m1)
  have f3: "goroutines m1 = goroutines m \<and> storerCalls m1 = storerCalls m \<and>
     appStatusHandler m1 = appStatusHandler m \<and> fullPeersSlice m1 = fullPeersSlice m"
    by (simp add: m1)
  have f4: "set ch1 = set ch \<union> {k \<in> {key}. \<exists>v v'. heartbeatMessages m k = Some v \<and>
            heartbeatMessages m1 k = Some v' \<and> isActive v \<and> \<not> isActive v'}"
    unfolding singleton_Collect by (simp add: Some h1 ch1)
  have f5: "c1 = c + card {k \<in> {key}. \<exists>v'. heartbeatMessages m1 k = Some v' \<and> isActive v'}"
    unfolding singleton_Collect by (simp add: h1 c1)
  have f6: "a1 = a + card {k \<in> {key}. \<exists>v'. heartbeatMessages m1 k = Some v' \<and> isActive v' \<and>
            GetIsValidator ops v'}"
    unfolding singleton_Collect by (simp add: h1 a1)
  show ?thesis using f1 f2 f3 f4 f5 f6 by blast
qed

lemma computeEntries_loop:
  assumes "distinct keys"
    and "computeEntries ops keys (m, a, c, ch) = (m', a', c', ch')"
  shows "(\<forall>k. k \<notin> set keys \<longrightarrow> heartbeatMessages m' k = heartbeatMessages m k) \<and>
     dom (heartbeatMessages m') = dom (heartbeatMessages m) \<and>
     goroutines m' = goroutines m \<and> storerCalls m' = storerCalls m \<and>
     appStatusHandler m' = appStatusHandler m \<and> fullPeersSlice m' = fullPeersSlice m \<and>
     set ch' = set ch \<union> {k \<in> set keys. \<exists>v v'. heartbeatMessages m k = Some v \<and>
            heartbeatMessages m' k = Some v' \<and> isActive v \<and> \<not> isActive v'} \<and>
     c' = c + card {k \<in> set keys. \<exists>v'. heartbeatMessages m' k = Some v' \<and> isActive v'} \<and>
     a' = a + card {k \<in> set keys. \<exists>v'. heartbeatMessages m' k = Some v' \<and> isActive v' \<and>
            GetIsValidator ops v'}"
  using assms
proof (induction keys arbitrary: m a c ch)
  case Nil
  then show ?case by simp
next
  case (Cons key keys)
  obtain m1 a1 c1 ch1 where e: "computeEntry ops key (m, a, c, ch) = (m1, a1, c1, ch1)"
    using prod_cases4 by blast
  note st = computeEntry_step [OF e]
  note s1 = st [THEN conjunct1]
  note s2 = st [THEN conjunct2, THEN conjunct1]
  note s3 = st [THEN conjunct2, THEN conjunct2, THEN conjunct1]
  note s4 = st [THEN conjunct2, THEN conjunct2, THEN conjunct2, THEN conjunct1]
  note s5 = st [THEN conjunct2, THEN conjunct2, THEN conjunct2, THEN conjunct2, THEN conjunct1]
  note s6 = st [THEN conjunct2, THEN conjunct2, THEN conjunct2, THEN conjunct2, THEN conjunct2,
    THEN conjunct1]
  note s7 = st [THEN conjunct2, THEN conjunct2, THEN conjunct2, THEN conjunct2, THEN conjunct2,
    THEN conjunct2, THEN conjunct1]
  note s8 = st [THEN conjunct2, THEN conjunct2, THEN conjunct2, THEN conjunct2, THEN conjunct2,
    THEN conjunct2, THEN conjunct2, THEN conjunct1]
  note s9 = st [THEN conjunct2, THEN conjunct2, THEN conjunct2, THEN conjunct2, THEN conjunct2,
    THEN conjunct2, THEN conjunct2, THEN conjunct2]
  from Cons.prems(2) e have r: "computeEntries ops keys (m1, a1, c1, ch1) = (m', a', c', ch')"
    by simp
  from Cons.prems(1) have d: "distinct keys" and nk: "key \<notin> set keys" by simp_all
  note ih = Cons.IH [OF d r]
  note i1 = ih [THEN conjunct1]
  note i2 = ih [THEN conjunct2, THEN conjunct1]
  note i3 = ih [THEN conjunct2, THEN conjunct2, THEN conjunct1]
  note i4 = ih [THEN conjunct2, THEN conjunct2, THEN conjunct2, THEN conjunct1]
  note i5 = ih [THEN conjunct2, THEN conjunct2, THEN conjunct2, THEN conjunct2, THEN conjunct1]
  note i6 = ih [THEN conjunct2, THEN conjunct2, THEN conjunct2, THEN conjunct2, THEN conjunct2,
    THEN conjunct1]
  note i7 = ih [THEN conjunct2, THEN conjunct2, THEN conjunct2, THEN conjunct2, THEN conjunct2,
    THEN conjunct2, THEN conjunct1]
  note i8 = ih [THEN conjunct2, THEN conjunct2, THEN conjunct2, THEN conjunct2, THEN conjunct2,
    THEN conjunct2, THEN conjunct2, THEN conjunct1]
  note i9 = ih [THEN conjunct2, THEN conjunct2, THEN conjunct2, THEN conjunct2, THEN conjunct2,
    THEN conjunct2, THEN conjunct2, THEN conjunct2]
  have same: "heartbeatMessages m' key = heartbeatMessages m1 key"
    using i1 nk by simp
  have old: "\<And>k. k \<in> set keys \<Longrightarrow> heartbeatMessages m1 k = heartbeatMessages m k"
  proof -
    fix k assume "k \<in> set keys"
    then have "k \<noteq> key" using nk by blast
    then show "heartbeatMessages m1 k = heartbeatMessages m k" using s1 by simp
  qed
  have split: "\<And>P. {k \<in> set (key # keys). P k} = {k \<in> {key}. P k} \<union> {k \<in> set keys. P k}"
    by auto
  have disj: "\<And>P Q. {k \<in> {key}. P k} \<inter> {k \<in> set keys. Q k} = {}"
    using nk by auto
  have fr: "\<forall>k. k \<notin> set (key # keys) \<longrightarrow> heartbeatMessages m' k = heartbeatMessages m k"
  proof (intro allI impI)
    fix k assume "k \<notin> set (key # keys)"
    then have "k \<notin> set keys" and "k \<noteq> key" by simp_all
    then show "heartbeatMessages m' k = heartbeatMessages m k" using i1 s1 by simp
  qed
  have e1: "{k \<in> set keys. \<exists>v v'. heartbeatMessages m1 k = Some v \<and>
            heartbeatMessages m' k = Some v' \<and> isActive v \<and> \<not> isActive v'}
        = {k \<in> set keys. \<exists>v v'. heartbeatMessages m k = Some v \<and>
            heartbeatMessages m' k = Some v' \<and> isActive v \<and> \<not> isActive v'}"
    by (rule Collect_cong) (simp add: old cong: conj_cong)
  have e2: "{k \<in> {key}. \<exists>v v'. heartbeatMessages m k = Some v \<and>
            heartbeatMessages m1 k = Some v' \<and> isActive v \<and> \<not> isActive v'}
        = {k \<in> {key}. \<exists>v v'. heartbeatMessages m k = Some v \<and>
            heartbeatMessages m' k = Some v' \<and> isActive v \<and> \<not> isActive v'}"
    unfolding singleton_Collect by (simp add: same)
  have ch: "set ch' = set ch \<union> {k \<in> set (key # keys). \<exists>v v'. heartbeatMessages m k = Some v \<and>
            heartbeatMessages m' k = Some v' \<and> isActive v \<and> \<not> isActive v'}"
    unfolding split i7 s7 e1 e2 by (simp only: Un_assoc)
  have e3: "{k \<in> {key}. \<exists>v'. heartbeatMessages m1 k = Some v' \<and> isActive v'}
        = {k \<in> {key}. \<exists>v'. heartbeatMessages m' k = Some v' \<and> isActive v'}"
    unfolding singleton_Collect by (simp add: same)
  have u3: "card ({k \<in> {key}. \<exists>v'. heartbeatMessages m' k = Some v' \<and> isActive v'}
          \<union> {k \<in> set keys. \<exists>v'. heartbeatMessages m' k = Some v' \<and> isActive v'})
        = card {k \<in> {key}. \<exists>v'. heartbeatMessages m' k = Some v' \<and> isActive v'}
          + card {k \<in> set keys. \<exists>v'. heartbeatMessages m' k = Some v' \<and> isActive v'}"
    by (rule card_Un_disjoint [OF _ _ disj]) simp_all
  have c: "c' = c + card {k \<in> set (key # keys). \<exists>v'. heartbeatMessages m' k = Some v' \<and> isActive v'}"
    unfolding split u3 i8 s8 e3 by (simp only: add.assoc)
  have e4: "{k \<in> {key}. \<exists>v'. heartbeatMessages m1 k = Some v' \<and> isActive v' \<and> GetIsValidator ops v'}
        = {k \<in> {key}. \<exists>v'. heartbeatMessages m' k = Some v' \<and> isActive v' \<and> GetIsValidator ops v'}"
    unfolding singleton_Collect by (simp add: same)
  have u4: "card ({k \<in> {key}. \<exists>v'. heartbeatMessages m' k = Some v' \<and> isActive v' \<and>
            GetIsValidator ops v'}
          \<union> {k \<in> set keys. \<exists>v'. heartbeatMessages m' k = Some v' \<and> isActive v' \<and>
            GetIsValidator ops v'})
        = card {k \<in> {key}. \<exists>v'. heartbeatMessages m' k = Some v' \<and> isActive v' \<and>
            GetIsValidator ops v'}
          + card {k \<in> set keys. \<exists>v'. heartbeatMessages m' k = Some v' \<and> isActive v' \<and>
            GetIsValidator ops v'}"
    by (rule card_Un_disjoint [OF _ _ disj]) simp_all
  have a: "a' = a + card {k \<in> set (key # keys). \<exists>v'. heartbeatMessages m' k = Some v' \<and>
            isActive v' \<and> GetIsValidator ops v'}"
    unfolding split u4 i9 s9 e4 by (simp only: add.assoc)
  have r2: "dom (heartbeatMessages m') = dom (heartbeatMessages m)" using i2 s2 by simp
  have r3: "goroutines m' = goroutines m" using i3 s3 by simp
  have r4: "storerCalls m' = storerCalls m" using i4 s4 by simp
  have r5: "appStatusHandler m' = appStatusHandler m" using i5 s5 by simp
  have r6: "fullPeersSlice m' = fullPeersSlice m" using i6 s6 by simp
  show ?case
    by (rule conjI [OF fr conjI [OF r2 conjI [OF r3 conjI [OF r4 conjI [OF r5 conjI [OF r6
        conjI [OF ch conjI [OF c a]]]]]]]])
qed

lemma computeEntry_distinct:
  "computeEntry ops key (m, a, c, ch) = (m1, a1, c1, ch1) \<Longrightarrow> distinct ch \<Longrightarrow> distinct ch1"
  by (cases "heartbeatMessages m key")
     (auto simp add: computeEntry_None computeEntry_Some split: if_splits)

lemma computeEntries_distinct:
  "computeEntries ops keys (m, a, c, ch) = (m', a', c', ch') \<Longrightarrow> distinct ch \<Longrightarrow> distinct ch'"
proof (induction keys arbitrary: m a c ch)
  case Nil
  then show ?case by simp
next
  case (Cons key keys)
  obtain m1 a1 c1 ch1 where e: "computeEntry ops key (m, a, c, ch) = (m1, a1, c1, ch1)"
    using prod_cases4 by blast
  from Cons.prems(1) e have "computeEntries ops keys (m1, a1, c1, ch1) = (m', a', c', ch')"
    by simp
  then show ?case
    using Cons.IH computeEntry_distinct [OF e Cons.prems(2)] by blast
qed

lemma SaveMultiple_heartbeatMessages:
  "heartbeatMessages (SaveMultiple m ks) = heartbeatMessages m"
  by (induction ks arbitrary: m) (auto simp add: Let_def split: option.splits)

lemma SaveMultiple_storerCalls:
  "set ks \<subseteq> dom (heartbeatMessages m) \<Longrightarrow>
   storerCalls (SaveMultiple m ks) =
     storerCalls m @
     map (\<lambda>k. SavePubkeyData k (convertToExportedStruct (the (heartbeatMessages m k)))) ks"
  by (induction ks arbitrary: m) (auto simp add: Let_def split: option.splits)

lemma computeAll_result:
  assumes "computeEntries ops keys (m, 0, 0, []) = (m', a', c', ch')"
  shows "computeAllHeartbeatMessages ops keys m =
     m'\<lparr>goroutines := goroutines m' @ [SaveMultipleHeartbeatMessageInfos ch'],
        appStatusHandler := appStatusHandler m' @
          [(MetricLiveValidatorNodes, a'), (MetricConnectedNodes, c')]\<rparr>"
  using assms by (simp add: computeAllHeartbeatMessages_def Let_def)


text \<open>
  C4: an aggregation pass over the records, in any order of iteration, hands to
  \<^verbatim>\<open>SaveMultipleHeartbeatMessageInfos\<close> exactly the keys of the records whose
  \<open>isActive\<close> flag was true before the pass and is false after it, each once. The pass
  itself asks no save of the storer; the goroutine it starts, run on the state the pass
  leaves, asks one save for each of these keys and no other.
\<close>

theorem C4_computeAll_persists_transitioned:
  assumes "iterationOrder (heartbeatMessages m) keys"
  shows "\<exists>changed.
     goroutines (computeAllHeartbeatMessages ops keys m)
       = goroutines m @ [SaveMultipleHeartbeatMessageInfos changed] \<and>
     distinct changed \<and>
     set changed = {k. \<exists>v v'. heartbeatMessages m k = Some v \<and>
        heartbeatMessages (computeAllHeartbeatMessages ops keys m) k = Some v' \<and>
        isActive v \<and> \<not> isActive v'} \<and>
     storerCalls (computeAllHeartbeatMessages ops keys m) = storerCalls m \<and>
     storerCalls (SaveMultiple (computeAllHeartbeatMessages ops keys m) changed)
       = storerCalls m @
         map (\<lambda>k. SavePubkeyData k (convertToExportedStruct
                (the (heartbeatMessages (computeAllHeartbeatMessages ops keys m) k)))) changed"
proof -
  obtain m' a' c' ch' where r: "computeEntries ops keys (m, 0, 0, []) = (m', a', c', ch')"
    using prod_cases4 by blast
  from assms have d: "distinct keys" and k: "set keys = dom (heartbeatMessages m)"
    by (simp_all add: iterationOrder_def)
  note l = computeEntries_loop [OF d r]
  let ?M = "computeAllHeartbeatMessages ops keys m"
  have M: "?M = m'\<lparr>goroutines := goroutines m' @ [SaveMultipleHeartbeatMessageInfos ch'],
        appStatusHandler := appStatusHandler m' @
          [(MetricLiveValidatorNodes, a'), (MetricConnectedNodes, c')]\<rparr>"
    by (rule computeAll_result [OF r])
  have hm: "heartbeatMessages ?M = heartbeatMessages m'" by (simp add: M)
  have g: "goroutines ?M = goroutines m @ [SaveMultipleHeartbeatMessageInfos ch']"
    using l by (simp add: M)
  have dc: "distinct ch'" using computeEntries_distinct [OF r] by simp
  have sc: "set ch' = {k. \<exists>v v'. heartbeatMessages m k = Some v \<and>
        heartbeatMessages ?M k = Some v' \<and> isActive v \<and> \<not> isActive v'}"
    using l k unfolding hm by auto
  have st: "storerCalls ?M = storerCalls m" using l by (simp add: M)
  have "set ch' \<subseteq> dom (heartbeatMessages ?M)" using sc by auto
  from SaveMultiple_storerCalls [OF this] st
  have sv: "storerCalls (SaveMultiple ?M ch') = storerCalls m @
         map (\<lambda>k. SavePubkeyData k (convertToExportedStruct (the (heartbeatMessages ?M k)))) ch'"
    by simp
  show ?thesis using g dc sc st sv by blast
qed


text \<open>At the instant 5000 the validator \<open>''A''\<close>, silent for 4100 ns, turns inactive and
  \<open>''B''\<close>, heard 10 ns ago, stays active: the pass hands \<open>''A''\<close> alone to persistence
  and counts one live validator and one connected node.\<close>

lemma trackingMonitor_order:
  "iterationOrder (heartbeatMessages trackingMonitor) [''A'', ''B'']"
  by (auto simp add: iterationOrder_def trackingMonitor_def)

lemma trackingMonitor_pass:
  "goroutines (computeAllHeartbeatMessages exampleMethods [''A'', ''B''] trackingMonitor)
     = [SaveMultipleHeartbeatMessageInfos [''A'']] \<and>
   appStatusHandler (computeAllHeartbeatMessages exampleMethods [''A'', ''B''] trackingMonitor)
     = [(MetricLiveValidatorNodes, 1), (MetricConnectedNodes, 1)]"
  by (simp add: computeAllHeartbeatMessages_def computeEntry_def trackingMonitor_def
      exampleMonitor_def exampleMethods_def Evaluate_def exampleTimer_def exampleDTO_def
      convertFromExportedStruct_def Now_def Let_def GetIsActive_def Sub_def maxDuration_def
      Unix0_def Duration_def)


theorem C4_computeAll_persists_transitioned_witness:
  "iterationOrder (heartbeatMessages trackingMonitor) [''A'', ''B''] \<and>
   (\<exists>changed.
      goroutines (computeAllHeartbeatMessages exampleMethods [''A'', ''B''] trackingMonitor)
        = goroutines trackingMonitor @ [SaveMultipleHeartbeatMessageInfos changed] \<and>
      changed = [''A''] \<and>
      set changed = {k. \<exists>v v'. heartbeatMessages trackingMonitor k = Some v \<and>
        heartbeatMessages (computeAllHeartbeatMessages exampleMethods [''A'', ''B'']
          trackingMonitor) k = Some v' \<and> isActive v \<and> \<not> isActive v'})"
proof -
  from C4_computeAll_persists_transitioned [OF trackingMonitor_order, of exampleMethods]
  obtain changed where
    g: "goroutines (computeAllHeartbeatMessages exampleMethods [''A'', ''B''] trackingMonitor)
        = goroutines trackingMonitor @ [SaveMultipleHeartbeatMessageInfos changed]"
    and sc: "set changed = {k. \<exists>v v'. heartbeatMessages trackingMonitor k = Some v \<and>
        heartbeatMessages (computeAllHeartbeatMessages exampleMethods [''A'', ''B'']
          trackingMonitor) k = Some v' \<and> isActive v \<and> \<not> isActive v'}"
    by blast
  have "goroutines trackingMonitor = []"
    by (simp add: trackingMonitor_def exampleMonitor_def)
  with g trackingMonitor_pass have "changed = [''A'']" by simp
  with g sc trackingMonitor_order show ?thesis by blast
qed


text \<open>
  C7: an aggregation pass, in any order of iteration, sets two values on the status
  handler: the number of records that are active after the pass and that
  \<^verbatim>\<open>GetIsValidator\<close> reports as validators, under \<^verbatim>\<open>MetricLiveValidatorNodes\<close>, and
  the number of records that are active after the pass, under
  \<^verbatim>\<open>MetricConnectedNodes\<close>.
\<close>

theorem C7_computeAll_metrics:
  assumes "iterationOrder (heartbeatMessages m) keys"
  shows "appStatusHandler (computeAllHeartbeatMessages ops keys m) =
     appStatusHandler m @
     [(MetricLiveValidatorNodes,
         card {k. \<exists>v. heartbeatMessages (computeAllHeartbeatMessages ops keys m) k = Some v \<and>
                  isActive v \<and> GetIsValidator ops v}),
      (MetricConnectedNodes,
         card {k. \<exists>v. heartbeatMessages (computeAllHeartbeatMessages ops keys m) k = Some v \<and>
                  isActive v})]"
proof -
  obtain m' a' c' ch' where r: "computeEntries ops keys (m, 0, 0, []) = (m', a', c', ch')"
    using prod_cases4 by blast
  from assms have d: "distinct keys" and k: "set keys = dom (heartbeatMessages m)"
    by (simp_all add: iterationOrder_def)
  note l = computeEntries_loop [OF d r]
  let ?M = "computeAllHeartbeatMessages ops keys m"
  have M: "?M = m'\<lparr>goroutines := goroutines m' @ [SaveMultipleHeartbeatMessageInfos ch'],
        appStatusHandler := appStatusHandler m' @
          [(MetricLiveValidatorNodes, a'), (MetricConnectedNodes, c')]\<rparr>"
    by (rule computeAll_result [OF r])
  have hm: "heartbeatMessages ?M = heartbeatMessages m'" by (simp add: M)
  have dm: "set keys = dom (heartbeatMessages m')" using l k by simp
  have "{k \<in> set keys. \<exists>v'. heartbeatMessages m' k = Some v' \<and> isActive v'}
      = {k. \<exists>v. heartbeatMessages m' k = Some v \<and> isActive v}"
    using dm by auto
  then have c: "c' = card {k. \<exists>v. heartbeatMessages m' k = Some v \<and> isActive v}"
    using l by simp
  have "{k \<in> set keys. \<exists>v'. heartbeatMessages m' k = Some v' \<and> isActive v' \<and> GetIsValidator ops v'}
      = {k. \<exists>v. heartbeatMessages m' k = Some v \<and> isActive v \<and> GetIsValidator ops v}"
    using dm by auto
  then have a: "a' = card {k. \<exists>v. heartbeatMessages m' k = Some v \<and> isActive v \<and>
      GetIsValidator ops v}"
    using l by simp
  have "appStatusHandler ?M = appStatusHandler m @
          [(MetricLiveValidatorNodes, a'), (MetricConnectedNodes, c')]"
    using l by (simp add: M)
  then show ?thesis unfolding hm a c .
qed

theorem C7_computeAll_metrics_witness:
  "iterationOrder (heartbeatMessages trackingMonitor) [''A'', ''B''] \<and>
   card {k. \<exists>v. heartbeatMessages (computeAllHeartbeatMessages exampleMethods [''A'', ''B'']
             trackingMonitor) k = Some v \<and> isActive v \<and> GetIsValidator exampleMethods v} = 1 \<and>
   card {k. \<exists>v. heartbeatMessages (computeAllHeartbeatMessages exampleMethods [''A'', ''B'']
             trackingMonitor) k = Some v \<and> isActive v} = 1"
proof -
  have "appStatusHandler trackingMonitor = []"
    by (simp add: trackingMonitor_def exampleMonitor_def)
  with C7_computeAll_metrics [OF trackingMonitor_order, of exampleMethods] trackingMonitor_pass
  show ?thesis using trackingMonitor_order by simp
qed

subsection \<open>The records and the known peers of a running monitor\<close>

text \<open>Loading a record changes nothing of the monitor but its timer.\<close>

lemma loadHbmiFromStorer_frame:
  "snd (loadHbmiFromStorer m k) = m\<lparr>timer := timer (snd (loadHbmiFromStorer m k))\<rparr>"
  by (cases "LoadHbmiDTO (storer m) k") (simp_all add: loadHbmiFromStorer_def Let_def split_def)

lemma loadHbmiFromStorer_isl:
  "isl (fst (loadHbmiFromStorer m k)) = isl (LoadHbmiDTO (storer m) k)"
  by (cases "LoadHbmiDTO (storer m) k") (simp_all add: loadHbmiFromStorer_def Let_def split_def)

lemma loadHbmiFromStorer_fields:
  assumes "loadHbmiFromStorer m k = (r, m')"
  shows "heartbeatMessages m' = heartbeatMessages m" and "fullPeersSlice m' = fullPeersSlice m"
    and "storer m' = storer m" and "storerCalls m' = storerCalls m"
    and "goroutines m' = goroutines m" and "isl r = isl (LoadHbmiDTO (storer m) k)"
proof -
  have m': "m' = m\<lparr>timer := timer m'\<rparr>"
    using loadHbmiFromStorer_frame [of m k] assms by simp
  show "heartbeatMessages m' = heartbeatMessages m" by (subst m') simp
  show "fullPeersSlice m' = fullPeersSlice m" by (subst m') simp
  show "storer m' = storer m" by (subst m') simp
  show "storerCalls m' = storerCalls m" by (subst m') simp
  show "goroutines m' = goroutines m" by (subst m') simp
  show "isl r = isl (LoadHbmiDTO (storer m) k)"
    using loadHbmiFromStorer_isl [of m k] assms by simp
qed

lemma initializeHeartBeatForPK_fields:
  assumes "initializeHeartBeatForPK ops pubkey shardId (m, ts, cp) = Inr (m', ts', cp')"
  shows "dom (heartbeatMessages m') = insert pubkey (dom (heartbeatMessages m))"
    and "fullPeersSlice m' = fullPeersSlice m" and "storer m' = storer m"
    and "storerCalls m' = storerCalls m" and "goroutines m' = goroutines m"
proof -
  obtain r m1 where l: "loadHbmiFromStorer m pubkey = (r, m1)" by fastforce
  note f = loadHbmiFromStorer_fields [OF l]
  have "dom (heartbeatMessages m') = insert pubkey (dom (heartbeatMessages m)) \<and>
    fullPeersSlice m' = fullPeersSlice m \<and> storer m' = storer m \<and>
    storerCalls m' = storerCalls m \<and> goroutines m' = goroutines m"
  proof (cases r)
    case (Inr hbmi)
    with assms l have "m' = m1\<lparr>heartbeatMessages := (heartbeatMessages m1)(pubkey \<mapsto> hbmi)\<rparr>"
      by (simp add: initializeHeartBeatForPK_def)
    then show ?thesis using f by simp
  next
    case (Inl err)
    note rl = this
    obtain pt sid where c: "computePeerTypeAndShardID m1 pubkey = (pt, sid)" by fastforce
    obtain r2 tm where n: "newHeartbeatMessageInfo ops (mon_maxDurationPeerUnresponsive m1) pt
        (mon_genesisTime m1) (timer m1) = (r2, tm)" by fastforce
    show ?thesis
    proof (cases r2)
      case (Inl e2)
      with assms l rl c n show ?thesis
        by (simp add: initializeHeartBeatForPK_def)
    next
      case (Inr hbmi)
      with assms l rl c n have "m' = m1\<lparr>timer := tm,
          heartbeatMessages := (heartbeatMessages m1)(pubkey \<mapsto>
            hbmi\<lparr>genesisTime := mon_genesisTime m1, computedShardID := sid\<rparr>)\<rparr>"
        by (simp add: initializeHeartBeatForPK_def Let_def)
      then show ?thesis using f by simp
    qed
  qed
  then show "dom (heartbeatMessages m') = insert pubkey (dom (heartbeatMessages m))"
    and "fullPeersSlice m' = fullPeersSlice m" and "storer m' = storer m"
    and "storerCalls m' = storerCalls m" and "goroutines m' = goroutines m"
    by simp_all
qed

lemma initializeShard_fields:
  assumes "initializeShard ops shardId pubKeys (m, ts, cp) = Inr (m', ts', cp')"
  shows "dom (heartbeatMessages m') = dom (heartbeatMessages m) \<union> set pubKeys \<and>
    fullPeersSlice m' = fullPeersSlice m \<and> storer m' = storer m \<and>
    storerCalls m' = storerCalls m \<and> goroutines m' = goroutines m"
  using assms
proof (induction pubKeys arbitrary: m ts cp)
  case Nil
  then show ?case by simp
next
  case (Cons pubkey pubKeys)
  from Cons.prems obtain st1 where
    s: "initializeHeartBeatForPK ops pubkey shardId (m, ts, cp) = Inr st1"
    and r: "initializeShard ops shardId pubKeys st1 = Inr (m', ts', cp')"
    by (cases "initializeHeartBeatForPK ops pubkey shardId (m, ts, cp)") simp_all
  obtain m1 ts1 cp1 where st1: "st1 = (m1, ts1, cp1)" using prod_cases3 by blast
  note f = initializeHeartBeatForPK_fields [OF s [unfolded st1]]
  note ih = Cons.IH [OF r [unfolded st1]]
  show ?case using ih f by auto
qed

lemma initializeShards_fields:
  assumes "initializeShards ops pubKeysMapArg (m, ts, cp) = Inr (m', ts', cp')"
  shows "dom (heartbeatMessages m') = dom (heartbeatMessages m) \<union> assignedKeys pubKeysMapArg \<and>
    fullPeersSlice m' = fullPeersSlice m \<and> storer m' = storer m \<and>
    storerCalls m' = storerCalls m \<and> goroutines m' = goroutines m"
  using assms
proof (induction pubKeysMapArg arbitrary: m ts cp)
  case Nil
  then show ?case by (simp add: assignedKeys_def)
next
  case (Cons entry rest)
  obtain shardId pubKeys where en: "entry = (shardId, pubKeys)" by fastforce
  from Cons.prems obtain st1 where
    s: "initializeShard ops shardId pubKeys (m, ts, cp) = Inr st1"
    and r: "initializeShards ops rest st1 = Inr (m', ts', cp')"
    unfolding en by (cases "initializeShard ops shardId pubKeys (m, ts, cp)") simp_all
  obtain m1 ts1 cp1 where st1: "st1 = (m1, ts1, cp1)" using prod_cases3 by blast
  note f = initializeShard_fields [OF s [unfolded st1]]
  note ih = Cons.IH [OF r [unfolded st1]]
  have "assignedKeys (entry # rest) = set pubKeys \<union> assignedKeys rest"
    by (simp add: assignedKeys_def en)
  then show ?case using ih f by auto
qed

lemma loadRestPeer_fields:
  "dom (heartbeatMessages (loadRestPeer m k)) =
     dom (heartbeatMessages m) \<union> (if isl (LoadHbmiDTO (storer m) k) then {} else {k}) \<and>
   fullPeersSlice (loadRestPeer m k) = fullPeersSlice m \<and>
   storer (loadRestPeer m k) = storer m \<and>
   storerCalls (loadRestPeer m k) = storerCalls m \<and>
   goroutines (loadRestPeer m k) = goroutines m"
proof (cases "heartbeatMessages m k")
  case (Some v)
  then have "loadRestPeer m k = m" by (simp add: loadRestPeer_def)
  then show ?thesis using Some by auto
next
  case None
  obtain r m1 where l: "loadHbmiFromStorer m k = (r, m1)" by fastforce
  note f = loadHbmiFromStorer_fields [OF l]
  show ?thesis
  proof (cases r)
    case (Inl err)
    with None l have "loadRestPeer m k = m1" by (simp add: loadRestPeer_def)
    then show ?thesis using f Inl by simp
  next
    case (Inr hbmi)
    with None l have "loadRestPeer m k =
        m1\<lparr>heartbeatMessages := (heartbeatMessages m1)(k \<mapsto> hbmi)\<rparr>"
      by (simp add: loadRestPeer_def)
    then show ?thesis using f Inr by simp
  qed
qed

lemma loadRestPeers_fields:
  "dom (heartbeatMessages (loadRestPeers m ks)) =
     dom (heartbeatMessages m) \<union> set (filter (\<lambda>k. \<not> isl (LoadHbmiDTO (storer m) k)) ks) \<and>
   fullPeersSlice (loadRestPeers m ks) = fullPeersSlice m \<and>
   storer (loadRestPeers m ks) = storer m \<and>
   storerCalls (loadRestPeers m ks) = storerCalls m \<and>
   goroutines (loadRestPeers m ks) = goroutines m"
proof (induction ks arbitrary: m)
  case Nil
  then show ?case by simp
next
  case (Cons k ks)
  note f = loadRestPeer_fields [of m k]
  note ih = Cons.IH [of "loadRestPeer m k"]
  show ?case using ih f by auto
qed

text \<open>The monitor that \<^verbatim>\<open>NewMonitor\<close> returns.\<close>

lemma NewMonitor_fields:
  assumes "NewMonitor ops marshalizerArg maxDur pubKeysMapArg genesis messageHandlerArg
      (Some sto) peerTypeProviderArg timerArg antifloodHandlerArg = Inr mon"
  shows "dom (heartbeatMessages mon) = assignedKeys pubKeysMapArg \<union> storedKeys sto"
    and "fullPeersSlice mon = []" and "storerCalls mon = []" and "storer mon = sto"
proof -
  from assms obtain ma ptp mh tim af where
    a: "marshalizerArg = Some ma" "peerTypeProviderArg = Some ptp"
       "messageHandlerArg = Some mh" "timerArg = Some tim" "antifloodHandlerArg = Some af"
    by (auto simp add: NewMonitor_def split: option.splits if_splits)
  define mon0 where "mon0 =
    \<lparr> mon_maxDurationPeerUnresponsive = maxDur, marshalizer = ma, peerTypeProvider = ptp,
      heartbeatMessages = Map.empty, pubKeysMap = Map.empty, fullPeersSlice = [],
      appStatusHandler = [], mon_genesisTime = genesis, messageHandler = mh, storer = sto,
      storerCalls = [], timer = tim, antifloodHandler = af, goroutines = [] \<rparr>"
  from assms obtain mon1 where
    i: "initializeHeartbeatMessagesInfo ops mon0 pubKeysMapArg = Inr mon1"
    and m: "mon = snd (loadRestOfPubKeysFromStorage mon1)"
    unfolding a mon0_def
    by (auto simp add: NewMonitor_def Let_def split: option.splits if_splits sum.splits)
  from i obtain m2 ts cp where
    s: "initializeShards ops pubKeysMapArg (mon0, [], Map.empty) = Inr (m2, ts, cp)"
    and m1: "mon1 = m2\<lparr>goroutines := goroutines m2 @ [SaveMultipleHeartbeatMessageInfos ts],
                 pubKeysMap := cp\<rparr>"
    by (auto simp add: initializeHeartbeatMessagesInfo_def split: sum.splits)
  note f = initializeShards_fields [OF s]
  have d1: "dom (heartbeatMessages mon1) = assignedKeys pubKeysMapArg"
    and s1: "fullPeersSlice mon1 = []" "storerCalls mon1 = []" "storer mon1 = sto"
    using f by (simp_all add: m1 mon0_def)
  have "dom (heartbeatMessages mon) = assignedKeys pubKeysMapArg \<union> storedKeys sto \<and>
    fullPeersSlice mon = [] \<and> storerCalls mon = [] \<and> storer mon = sto"
  proof (cases "LoadKeys sto")
    case (Inl err)
    then have "mon = mon1" using m s1 by (simp add: loadRestOfPubKeysFromStorage_def)
    then show ?thesis using d1 s1 Inl by (simp add: storedKeys_def)
  next
    case (Inr peersSlice)
    then have "mon = loadRestPeers mon1 peersSlice"
      using m s1 by (simp add: loadRestOfPubKeysFromStorage_def)
    then show ?thesis
      using loadRestPeers_fields [of mon1 peersSlice] d1 s1 Inr by (simp add: storedKeys_def)
  qed
  then show "dom (heartbeatMessages mon) = assignedKeys pubKeysMapArg \<union> storedKeys sto"
    and "fullPeersSlice mon = []" and "storerCalls mon = []" and "storer mon = sto"
    by simp_all
qed

lemma isPeerIn_set: "isPeerIn peers pubKey \<longleftrightarrow> pubKey \<in> set peers"
  by (induction peers) auto

lemma addPeerToFullPeersSlice_fields:
  "fullPeersSlice (addPeerToFullPeersSlice m pubKey) =
     (if pubKey \<in> set (fullPeersSlice m) then fullPeersSlice m
      else fullPeersSlice m @ [pubKey]) \<and>
   storerCalls (addPeerToFullPeersSlice m pubKey) =
     (if pubKey \<in> set (fullPeersSlice m) then storerCalls m
      else storerCalls m @ [SaveKeys (fullPeersSlice m @ [pubKey])]) \<and>
   heartbeatMessages (addPeerToFullPeersSlice m pubKey) = heartbeatMessages m \<and>
   storer (addPeerToFullPeersSlice m pubKey) = storer m"
  by (simp add: addPeerToFullPeersSlice_def isPeerInFullPeersSlice_def isPeerIn_set Let_def)

text \<open>\<^verbatim>\<open>addHeartbeatMessageToMap\<close> either gives up, when the record is missing and cannot
  be created, or leaves a record under the key and registers the key.\<close>

lemma addHeartbeatMessageToMap_cases:
  "(heartbeatMessages m (Pubkey hb) = None \<and>
    isl (fst (newHeartbeatMessageInfo ops (mon_maxDurationPeerUnresponsive m)
           (fst (computePeerTypeAndShardID m (Pubkey hb))) (mon_genesisTime m) (timer m))) \<and>
    (\<exists>tm. addHeartbeatMessageToMap ops m hb = m\<lparr>timer := tm\<rparr>))
   \<or>
   ((heartbeatMessages m (Pubkey hb) \<noteq> None \<or>
     \<not> isl (fst (newHeartbeatMessageInfo ops (mon_maxDurationPeerUnresponsive m)
           (fst (computePeerTypeAndShardID m (Pubkey hb))) (mon_genesisTime m) (timer m)))) \<and>
    (\<exists>m2. addHeartbeatMessageToMap ops m hb = addPeerToFullPeersSlice m2 (Pubkey hb) \<and>
       dom (heartbeatMessages m2) = insert (Pubkey hb) (dom (heartbeatMessages m)) \<and>
       fullPeersSlice m2 = fullPeersSlice m \<and> storer m2 = storer m \<and>
       storerCalls m2 \<noteq> []))"
proof -
  define k where "k = Pubkey hb"
  obtain pt sid where c: "computePeerTypeAndShardID m k = (pt, sid)" by fastforce
  obtain r tm where n: "newHeartbeatMessageInfo ops (mon_maxDurationPeerUnresponsive m) pt
      (mon_genesisTime m) (timer m) = (r, tm)" by fastforce
  have rest: "\<And>hbmi m1. dom (heartbeatMessages m1) = insert k (dom (heartbeatMessages m)) \<Longrightarrow>
      fullPeersSlice m1 = fullPeersSlice m \<Longrightarrow> storer m1 = storer m \<Longrightarrow>
      \<exists>m2. (let (pType, computedShard) = computePeerTypeAndShardID m1 k;
                  (hbmi, tm) = HeartbeatReceived ops hbmi computedShard (ShardID hb)
                                 (hbVersionNumber hb) (hbNodeDisplayName hb) pType (timer m1);
                  m1 = m1\<lparr>timer := tm,
                         heartbeatMessages := (heartbeatMessages m1)(k \<mapsto> hbmi)\<rparr>;
                  hbDTO = convertToExportedStruct hbmi;
                  m1 = m1\<lparr>storerCalls := storerCalls m1 @ [SavePubkeyData k hbDTO]\<rparr>
              in addPeerToFullPeersSlice m1 k) = addPeerToFullPeersSlice m2 k \<and>
         dom (heartbeatMessages m2) = insert k (dom (heartbeatMessages m)) \<and>
         fullPeersSlice m2 = fullPeersSlice m \<and> storer m2 = storer m \<and> storerCalls m2 \<noteq> []"
    unfolding Let_def split_def
    by (rule exI, rule conjI, rule refl) simp
  show ?thesis
  proof (cases "heartbeatMessages m k")
    case (Some hbmi)
    have d: "dom (heartbeatMessages m) = insert k (dom (heartbeatMessages m))"
      using Some by auto
    from rest [OF d refl refl, of hbmi] Some show ?thesis
      unfolding k_def [symmetric]
      by (simp add: addHeartbeatMessageToMap_def Let_def k_def [symmetric])
  next
    case None
    show ?thesis
    proof (cases r)
      case (Inl err)
      with None c n show ?thesis
        unfolding k_def [symmetric]
        by (simp add: addHeartbeatMessageToMap_def Let_def k_def [symmetric])
           (rule exI [of _ tm], rule refl)
    next
      case (Inr hbmi)
      have "dom (heartbeatMessages (m\<lparr>timer := tm,
          heartbeatMessages := (heartbeatMessages m)(k \<mapsto> hbmi)\<rparr>))
          = insert k (dom (heartbeatMessages m))" by simp
      from rest [OF this, of hbmi] None c n Inr show ?thesis
        unfolding k_def [symmetric]
        by (simp add: addHeartbeatMessageToMap_def Let_def k_def [symmetric])
    qed
  qed
qed

lemma computeEntries_frame:
  assumes "computeEntries ops keys (m, a, c, ch) = (m', a', c', ch')"
  shows "dom (heartbeatMessages m') = dom (heartbeatMessages m) \<and>
     storerCalls m' = storerCalls m \<and> fullPeersSlice m' = fullPeersSlice m"
  using assms
proof (induction keys arbitrary: m a c ch)
  case Nil
  then show ?case by simp
next
  case (Cons key keys)
  obtain m1 a1 c1 ch1 where e: "computeEntry ops key (m, a, c, ch) = (m1, a1, c1, ch1)"
    using prod_cases4 by blast
  from Cons.prems e have r: "computeEntries ops keys (m1, a1, c1, ch1) = (m', a', c', ch')"
    by simp
  show ?case using Cons.IH [OF r] computeEntry_step [OF e] by simp
qed

lemma computeAllHeartbeatMessages_frame:
  "dom (heartbeatMessages (computeAllHeartbeatMessages ops keys m)) = dom (heartbeatMessages m) \<and>
   storerCalls (computeAllHeartbeatMessages ops keys m) = storerCalls m \<and>
   fullPeersSlice (computeAllHeartbeatMessages ops keys m) = fullPeersSlice m"
proof -
  obtain m' a' c' ch' where r: "computeEntries ops keys (m, 0, 0, []) = (m', a', c', ch')"
    using prod_cases4 by blast
  show ?thesis
    using computeEntries_frame [OF r] by (simp add: computeAll_result [OF r])
qed

lemma SaveMultiple_fullPeersSlice:
  "fullPeersSlice (SaveMultiple m ks) = fullPeersSlice m"
  by (induction ks arbitrary: m) (auto simp add: Let_def split: option.splits)

lemma ProcessReceivedMessage_frame:
  "heartbeatMessages (snd (ProcessReceivedMessage m message p)) = heartbeatMessages m \<and>
   storerCalls (snd (ProcessReceivedMessage m message p)) = storerCalls m \<and>
   fullPeersSlice (snd (ProcessReceivedMessage m message p)) = fullPeersSlice m"
  by (simp add: ProcessReceivedMessage_def split: option.splits sum.splits)

lemma SetAppStatusHandler_frame:
  "heartbeatMessages (snd (SetAppStatusHandler m ash)) = heartbeatMessages m \<and>
   storerCalls (snd (SetAppStatusHandler m ash)) = storerCalls m \<and>
   fullPeersSlice (snd (SetAppStatusHandler m ash)) = fullPeersSlice m"
  by (simp add: SetAppStatusHandler_def split: option.splits)

lemma stepProperty_same:
  "dom (heartbeatMessages m') = dom (heartbeatMessages m) \<Longrightarrow>
   fullPeersSlice m' = fullPeersSlice m \<Longrightarrow> stepProperty ops {} m m'"
  by (simp add: stepProperty_def)

lemma addHeartbeatMessageToMap_step:
  "stepProperty ops {Pubkey hb} m (addHeartbeatMessageToMap ops m hb)"
proof -
  from addHeartbeatMessageToMap_cases [of m hb ops]
  consider
    (fail) tm where "heartbeatMessages m (Pubkey hb) = None"
      "isl (fst (newHeartbeatMessageInfo ops (mon_maxDurationPeerUnresponsive m)
           (fst (computePeerTypeAndShardID m (Pubkey hb))) (mon_genesisTime m) (timer m)))"
      "addHeartbeatMessageToMap ops m hb = m\<lparr>timer := tm\<rparr>"
  | (ok) m2 where "addHeartbeatMessageToMap ops m hb = addPeerToFullPeersSlice m2 (Pubkey hb)"
      "dom (heartbeatMessages m2) = insert (Pubkey hb) (dom (heartbeatMessages m))"
      "fullPeersSlice m2 = fullPeersSlice m" "storerCalls m2 \<noteq> []"
    by blast
  then show ?thesis
  proof cases
    case fail
    then show ?thesis
      unfolding stepProperty_def by auto
  next
    case ok
    note f = addPeerToFullPeersSlice_fields [of m2 "Pubkey hb"]
    show ?thesis
    proof (cases "Pubkey hb \<in> set (fullPeersSlice m)")
      case True
      then show ?thesis using ok f unfolding stepProperty_def by auto
    next
      case False
      then have "fullPeersSlice (addHeartbeatMessageToMap ops m hb) = fullPeersSlice m @ [Pubkey hb]"
        and "storerCalls (addHeartbeatMessageToMap ops m hb) \<noteq> []"
        and "last (storerCalls (addHeartbeatMessageToMap ops m hb))
              = SaveKeys (fullPeersSlice m @ [Pubkey hb])"
        and "dom (heartbeatMessages (addHeartbeatMessageToMap ops m hb))
              = insert (Pubkey hb) (dom (heartbeatMessages m))"
        using ok f by simp_all
      then show ?thesis using False unfolding stepProperty_def by auto
    qed
  qed
qed

lemma stepProperty_goroutines:
  "stepProperty ops H (m\<lparr>goroutines := g\<rparr>) m' = stepProperty ops H m m'"
  by (simp add: stepProperty_def)

lemma applyOp_step: "stepProperty ops (heartbeatOf op m) m (applyOp ops op m)"
proof (cases op)
  case (OpProcessReceivedMessage message p)
  then show ?thesis
    using ProcessReceivedMessage_frame [of m message p] by (simp add: stepProperty_same)
next
  case (OpGetHeartbeats keys1 keys2)
  then show ?thesis
    using computeAllHeartbeatMessages_frame [of ops keys1 m]
    by (simp add: stepProperty_same GetHeartbeats_def Let_def)
next
  case (OpSetAppStatusHandler ash)
  then show ?thesis
    using SetAppStatusHandler_frame [of m ash] by (simp add: stepProperty_same)
next
  case (OpRun i keys)
  show ?thesis
  proof (cases "i < length (goroutines m)")
    case False
    then show ?thesis using OpRun by (simp add: stepProperty_same)
  next
    case True
    define mg where "mg = m\<lparr>goroutines := take i (goroutines m) @ drop (Suc i) (goroutines m)\<rparr>"
    have a: "applyOp ops op m = runTask ops keys (goroutines m ! i) mg"
      using True OpRun by (simp add: mg_def)
    have "stepProperty ops (heartbeatOf op m) mg (runTask ops keys (goroutines m ! i) mg)"
    proof (cases "goroutines m ! i")
      case (SaveMultipleHeartbeatMessageInfos ks)
      then show ?thesis
        using True OpRun
        by (simp add: stepProperty_same SaveMultiple_heartbeatMessages
            SaveMultiple_fullPeersSlice)
    next
      case (AddHeartbeatMessageToMap hb)
      then show ?thesis
        using True OpRun addHeartbeatMessageToMap_step [of ops hb mg] by simp
    next
      case ComputeAllHeartbeatMessages
      then show ?thesis
        using True OpRun computeAllHeartbeatMessages_frame [of ops keys mg]
        by (simp add: stepProperty_same)
    qed
    then show ?thesis
      unfolding a mg_def stepProperty_goroutines .
  qed
qed

lemma applyOp_fullPeersSlice:
  "fullPeersSlice (applyOp ops op m) = fullPeersSlice m \<or>
   (\<exists>pk. pk \<notin> set (fullPeersSlice m) \<and>
      fullPeersSlice (applyOp ops op m) = fullPeersSlice m @ [pk] \<and>
      storerCalls (applyOp ops op m) \<noteq> [] \<and>
      last (storerCalls (applyOp ops op m)) = SaveKeys (fullPeersSlice m @ [pk]))"
  using applyOp_step [of ops op m] unfolding stepProperty_def by blast

lemma applyOp_distinct:
  "distinct (fullPeersSlice m) \<Longrightarrow> distinct (fullPeersSlice (applyOp ops op m))"
  using applyOp_fullPeersSlice [of ops op m] by auto

lemma applyOp_prefix: "prefix (fullPeersSlice m) (fullPeersSlice (applyOp ops op m))"
  using applyOp_fullPeersSlice [of ops op m] by auto

lemma applyOps_distinct:
  "distinct (fullPeersSlice m) \<Longrightarrow> distinct (fullPeersSlice (applyOps ops os m))"
  by (induction os arbitrary: m) (simp_all add: applyOp_distinct)

lemma applyOps_prefix: "prefix (fullPeersSlice m) (fullPeersSlice (applyOps ops os m))"
proof (induction os arbitrary: m)
  case Nil
  then show ?case by simp
next
  case (Cons op os)
  have "prefix (fullPeersSlice m) (fullPeersSlice (applyOp ops op m))"
    by (rule applyOp_prefix)
  also have "prefix \<dots> (fullPeersSlice (applyOps ops os (applyOp ops op m)))"
    by (rule Cons.IH)
  finally show ?case by simp
qed

lemma applyOp_dom_lower:
  "dom (heartbeatMessages m) \<subseteq> dom (heartbeatMessages (applyOp ops op m))"
  using applyOp_step [of ops op m] unfolding stepProperty_def by blast

lemma applyOp_dom_upper:
  "dom (heartbeatMessages (applyOp ops op m))
         \<subseteq> dom (heartbeatMessages m) \<union> heartbeatOf op m"
  using applyOp_step [of ops op m] unfolding stepProperty_def by blast

lemma applyOp_dom_eq:
  "(\<forall>d p g t. \<not> isl (fst (newHeartbeatMessageInfo ops d p g t))) \<Longrightarrow>
   dom (heartbeatMessages (applyOp ops op m)) = dom (heartbeatMessages m) \<union> heartbeatOf op m"
  using applyOp_step [of ops op m] unfolding stepProperty_def by blast

lemma applyOps_dom_lower:
  "dom (heartbeatMessages m) \<subseteq> dom (heartbeatMessages (applyOps ops os m))"
proof (induction os arbitrary: m)
  case Nil
  then show ?case by simp
next
  case (Cons op os)
  show ?case
    unfolding applyOps.simps
    using applyOp_dom_lower [of m ops op] Cons.IH [of "applyOp ops op m"] by blast
qed

lemma applyOps_dom_upper:
  "dom (heartbeatMessages (applyOps ops os m))
     \<subseteq> dom (heartbeatMessages m) \<union> processedHeartbeats ops os m"
proof (induction os arbitrary: m)
  case Nil
  then show ?case by simp
next
  case (Cons op os)
  show ?case
    unfolding applyOps.simps processedHeartbeats.simps
    using applyOp_dom_upper [of ops op m] Cons.IH [of "applyOp ops op m"] by blast
qed

lemma applyOps_dom_eq:
  assumes "\<forall>d p g t. \<not> isl (fst (newHeartbeatMessageInfo ops d p g t))"
  shows "dom (heartbeatMessages (applyOps ops os m))
     = dom (heartbeatMessages m) \<union> processedHeartbeats ops os m"
proof (induction os arbitrary: m)
  case Nil
  then show ?case by simp
next
  case (Cons op os)
  show ?case
    unfolding applyOps.simps processedHeartbeats.simps
    using applyOp_dom_eq [OF assms, of op m] Cons.IH [of "applyOp ops op m"] by blast
qed

lemma NewMonitor_storer:
  "NewMonitor ops marshalizerArg maxDur pubKeysMapArg genesis messageHandlerArg storerArg
      peerTypeProviderArg timerArg antifloodHandlerArg = Inr mon \<Longrightarrow> \<exists>sto. storerArg = Some sto"
  by (auto simp add: NewMonitor_def split: option.splits if_splits)

text \<open>
  C9: the sequence of known peers is empty in the monitor that \<^verbatim>\<open>NewMonitor\<close> returns
  and holds no key twice after any sequence of operations. Every operation (a call of
  \<^verbatim>\<open>ProcessReceivedMessage\<close>, \<^verbatim>\<open>GetHeartbeats\<close> or \<^verbatim>\<open>SetAppStatusHandler\<close>, or the
  run of a started goroutine) keeps it free of duplicates, and either leaves it as it is
  or appends one key that was absent, and then its latest call of the storer is
  \<^verbatim>\<open>SaveKeys\<close> with the whole new sequence. So the sequence before any operations is a
  prefix of the sequence after them: no entry is removed or moved.
\<close>

theorem C9_fullPeersSlice:
  "(NewMonitor ops marshalizerArg maxDur pubKeysMapArg genesis messageHandlerArg storerArg
      peerTypeProviderArg timerArg antifloodHandlerArg = Inr m0 \<longrightarrow>
      fullPeersSlice m0 = [] \<and> distinct (fullPeersSlice (applyOps ops os m0))) \<and>
   (distinct (fullPeersSlice m) \<longrightarrow> distinct (fullPeersSlice (applyOp ops op m))) \<and>
   (fullPeersSlice (applyOp ops op m) = fullPeersSlice m \<or>
    (\<exists>pk. pk \<notin> set (fullPeersSlice m) \<and>
       fullPeersSlice (applyOp ops op m) = fullPeersSlice m @ [pk] \<and>
       storerCalls (applyOp ops op m) \<noteq> [] \<and>
       last (storerCalls (applyOp ops op m)) = SaveKeys (fullPeersSlice m @ [pk]))) \<and>
   prefix (fullPeersSlice m) (fullPeersSlice (applyOps ops os m))"
proof -
  have 1: "NewMonitor ops marshalizerArg maxDur pubKeysMapArg genesis messageHandlerArg storerArg
      peerTypeProviderArg timerArg antifloodHandlerArg = Inr m0 \<longrightarrow>
      fullPeersSlice m0 = [] \<and> distinct (fullPeersSlice (applyOps ops os m0))"
  proof
    assume n: "NewMonitor ops marshalizerArg maxDur pubKeysMapArg genesis messageHandlerArg
      storerArg peerTypeProviderArg timerArg antifloodHandlerArg = Inr m0"
    then obtain sto where "storerArg = Some sto" using NewMonitor_storer by blast
    with n have e: "fullPeersSlice m0 = []" using NewMonitor_fields(2) by blast
    then have "distinct (fullPeersSlice m0)" by simp
    then show "fullPeersSlice m0 = [] \<and> distinct (fullPeersSlice (applyOps ops os m0))"
      using e applyOps_distinct by blast
  qed
  have 2: "distinct (fullPeersSlice m) \<longrightarrow> distinct (fullPeersSlice (applyOp ops op m))"
    using applyOp_distinct by blast
  show ?thesis
    by (rule conjI [OF 1 conjI [OF 2 conjI [OF applyOp_fullPeersSlice applyOps_prefix]]])
qed

text \<open>The records after an operation are those before it and the one of the heartbeat
  it records.\<close>

lemma computePeerTypeAndShardID_goroutines:
  "computePeerTypeAndShardID (m\<lparr>goroutines := g\<rparr>) k = computePeerTypeAndShardID m k"
  by (simp add: computePeerTypeAndShardID_def)

lemma addHeartbeatMessageToMap_dom:
  "dom (heartbeatMessages (addHeartbeatMessageToMap ops m hb)) =
     dom (heartbeatMessages m) \<union>
     (if heartbeatMessages m (Pubkey hb) = None \<and>
         isl (fst (newHeartbeatMessageInfo ops (mon_maxDurationPeerUnresponsive m)
                (fst (computePeerTypeAndShardID m (Pubkey hb))) (mon_genesisTime m) (timer m)))
      then {} else {Pubkey hb})"
proof -
  from addHeartbeatMessageToMap_cases [of m hb ops]
  consider
    (fail) tm where "heartbeatMessages m (Pubkey hb) = None"
      "isl (fst (newHeartbeatMessageInfo ops (mon_maxDurationPeerUnresponsive m)
           (fst (computePeerTypeAndShardID m (Pubkey hb))) (mon_genesisTime m) (timer m)))"
      "addHeartbeatMessageToMap ops m hb = m\<lparr>timer := tm\<rparr>"
  | (ok) m2 where "heartbeatMessages m (Pubkey hb) \<noteq> None \<or>
     \<not> isl (fst (newHeartbeatMessageInfo ops (mon_maxDurationPeerUnresponsive m)
           (fst (computePeerTypeAndShardID m (Pubkey hb))) (mon_genesisTime m) (timer m)))"
      "addHeartbeatMessageToMap ops m hb = addPeerToFullPeersSlice m2 (Pubkey hb)"
      "dom (heartbeatMessages m2) = insert (Pubkey hb) (dom (heartbeatMessages m))"
    by blast
  then show ?thesis
  proof cases
    case fail
    then show ?thesis by simp
  next
    case ok
    have "heartbeatMessages (addPeerToFullPeersSlice m2 (Pubkey hb)) = heartbeatMessages m2"
      by (simp add: addPeerToFullPeersSlice_def Let_def)
    then have "dom (heartbeatMessages (addHeartbeatMessageToMap ops m hb))
        = insert (Pubkey hb) (dom (heartbeatMessages m))"
      using ok(2,3) by simp
    moreover have "(if heartbeatMessages m (Pubkey hb) = None \<and>
         isl (fst (newHeartbeatMessageInfo ops (mon_maxDurationPeerUnresponsive m)
                (fst (computePeerTypeAndShardID m (Pubkey hb))) (mon_genesisTime m) (timer m)))
      then {} else {Pubkey hb}) = {Pubkey hb}"
      using ok(1) by auto
    ultimately show ?thesis by simp
  qed
qed

lemma applyOp_dom_recorded:
  "dom (heartbeatMessages (applyOp ops op m))
     = dom (heartbeatMessages m) \<union> recordedHeartbeatOf ops op m"
proof (cases op)
  case (OpProcessReceivedMessage message p)
  then show ?thesis
    using ProcessReceivedMessage_frame [of m message p] by simp
next
  case (OpGetHeartbeats keys1 keys2)
  then show ?thesis
    using computeAllHeartbeatMessages_frame [of ops keys1 m]
    by (simp add: GetHeartbeats_def Let_def)
next
  case (OpSetAppStatusHandler ash)
  then show ?thesis
    using SetAppStatusHandler_frame [of m ash] by simp
next
  case (OpRun i keys)
  show ?thesis
  proof (cases "i < length (goroutines m)")
    case False
    then show ?thesis using OpRun by simp
  next
    case True
    define mg where "mg = m\<lparr>goroutines := take i (goroutines m) @ drop (Suc i) (goroutines m)\<rparr>"
    have a: "applyOp ops op m = runTask ops keys (goroutines m ! i) mg"
      using True OpRun by (simp add: mg_def)
    show ?thesis
    proof (cases "goroutines m ! i")
      case (SaveMultipleHeartbeatMessageInfos ks)
      then show ?thesis
        unfolding a using True OpRun
        by (simp add: SaveMultiple_heartbeatMessages mg_def)
    next
      case (AddHeartbeatMessageToMap hb)
      then show ?thesis
        unfolding a using True OpRun addHeartbeatMessageToMap_dom [of ops mg hb]
        by (simp add: mg_def computePeerTypeAndShardID_goroutines)
    next
      case ComputeAllHeartbeatMessages
      then show ?thesis
        unfolding a using True OpRun computeAllHeartbeatMessages_frame [of ops keys mg]
        by (simp add: mg_def)
    qed
  qed
qed

lemma applyOps_dom_recorded:
  "dom (heartbeatMessages (applyOps ops os m))
     = dom (heartbeatMessages m) \<union> recordedHeartbeats ops os m"
proof (induction os arbitrary: m)
  case Nil
  then show ?case by simp
next
  case (Cons op os)
  show ?case
    unfolding applyOps.simps recordedHeartbeats.simps
    using applyOp_dom_recorded [of ops op m] Cons.IH [of "applyOp ops op m"] by blast
qed

lemma recordedHeartbeatOf_subset: "recordedHeartbeatOf ops op m \<subseteq> heartbeatOf op m"
  by (cases op) (auto split: task.splits)

lemma recordedHeartbeats_subset:
  "recordedHeartbeats ops os m \<subseteq> processedHeartbeats ops os m"
proof (induction os arbitrary: m)
  case Nil
  then show ?case by simp
next
  case (Cons op os)
  show ?case
    unfolding processedHeartbeats.simps recordedHeartbeats.simps
    using recordedHeartbeatOf_subset [of ops op m] Cons.IH [of "applyOp ops op m"] by blast
qed

lemma recordedHeartbeatOf_total:
  "(\<forall>d p g t. \<not> isl (fst (newHeartbeatMessageInfo ops d p g t))) \<Longrightarrow>
   recordedHeartbeatOf ops op m = heartbeatOf op m"
  by (cases op) (auto split: task.splits)

lemma recordedHeartbeats_total:
  assumes "\<forall>d p g t. \<not> isl (fst (newHeartbeatMessageInfo ops d p g t))"
  shows "recordedHeartbeats ops os m = processedHeartbeats ops os m"
  by (induction os arbitrary: m) (simp_all add: recordedHeartbeatOf_total [OF assms])

text \<open>
  C8 (amended): the keys that have a record in the monitor \<^verbatim>\<open>NewMonitor\<close> returns are
  those of the initial assignment and those of the persisted list of known peers whose
  record loads. After any sequence of operations the keys with a record are exactly
  these and the keys of the heartbeats recorded: those that a run of
  \<^verbatim>\<open>addHeartbeatMessageToMap\<close> handled when the key had a record already or the
  constructor of records (\<^verbatim>\<open>newHeartbeatMessageInfo\<close>, outside monitor.go) returned one.
  The heartbeats recorded are among the heartbeats handled, and are all of them if the
  constructor cannot fail. No operation, and no sequence of operations, removes a record.
\<close>

theorem C8_records:
  assumes "NewMonitor ops marshalizerArg maxDur pubKeysMapArg genesis messageHandlerArg
      (Some sto) peerTypeProviderArg timerArg antifloodHandlerArg = Inr m0"
  shows "dom (heartbeatMessages m0) = assignedKeys pubKeysMapArg \<union> storedKeys sto \<and>
     dom (heartbeatMessages (applyOps ops os m0))
       = assignedKeys pubKeysMapArg \<union> storedKeys sto \<union> recordedHeartbeats ops os m0 \<and>
     recordedHeartbeats ops os m0 \<subseteq> processedHeartbeats ops os m0 \<and>
     ((\<forall>d p g t. \<not> isl (fst (newHeartbeatMessageInfo ops d p g t))) \<longrightarrow>
        dom (heartbeatMessages (applyOps ops os m0))
          = assignedKeys pubKeysMapArg \<union> storedKeys sto \<union> processedHeartbeats ops os m0) \<and>
     dom (heartbeatMessages m) \<subseteq> dom (heartbeatMessages (applyOp ops op m)) \<and>
     dom (heartbeatMessages m) \<subseteq> dom (heartbeatMessages (applyOps ops os m))"
proof -
  note d0 = NewMonitor_fields(1) [OF assms]
  have 2: "dom (heartbeatMessages (applyOps ops os m0))
       = assignedKeys pubKeysMapArg \<union> storedKeys sto \<union> recordedHeartbeats ops os m0"
    using applyOps_dom_recorded [of ops os m0] unfolding d0 .
  have 4: "(\<forall>d p g t. \<not> isl (fst (newHeartbeatMessageInfo ops d p g t))) \<longrightarrow>
        dom (heartbeatMessages (applyOps ops os m0))
          = assignedKeys pubKeysMapArg \<union> storedKeys sto \<union> processedHeartbeats ops os m0"
    using applyOps_dom_eq [of ops os m0] unfolding d0 by blast
  show ?thesis
    by (rule conjI [OF d0 conjI [OF 2 conjI [OF recordedHeartbeats_subset conjI [OF 4
        conjI [OF applyOp_dom_lower applyOps_dom_lower]]]]])
qed

text \<open>The concrete run: the heartbeats of \<open>''C''\<close> on the built monitor.\<close>

lemma accept_C:
  assumes "messageHandler m = exampleMessageHandler" and "antifloodHandler m = exampleAntiflood"
  shows "applyOp ops (OpProcessReceivedMessage (Some \<lparr>Data = Some ''C'', Peer = ''p''\<rparr>) ''p'') m
     = m\<lparr>goroutines := goroutines m @
          [AddHeartbeatMessageToMap \<lparr>Pubkey = ''C'', ShardID = 0, hbVersionNumber = ''v1'',
              hbNodeDisplayName = ''node''\<rparr>, ComputeAllHeartbeatMessages]\<rparr>"
  using assms
  by (simp add: ProcessReceivedMessage_def exampleAntiflood_def exampleMessageHandler_def)


lemma addPeerToFullPeersSlice_handlers:
  "goroutines (addPeerToFullPeersSlice m k) = goroutines m \<and>
   messageHandler (addPeerToFullPeersSlice m k) = messageHandler m \<and>
   antifloodHandler (addPeerToFullPeersSlice m k) = antifloodHandler m"
  by (simp add: addPeerToFullPeersSlice_def Let_def)

lemma addHeartbeatMessageToMap_handlers:
  "goroutines (addHeartbeatMessageToMap ops m hb) = goroutines m \<and>
   messageHandler (addHeartbeatMessageToMap ops m hb) = messageHandler m \<and>
   antifloodHandler (addHeartbeatMessageToMap ops m hb) = antifloodHandler m"
proof -
  obtain r tm where n: "newHeartbeatMessageInfo ops (mon_maxDurationPeerUnresponsive m)
      (fst (computePeerTypeAndShardID m (Pubkey hb))) (mon_genesisTime m) (timer m) = (r, tm)"
    by fastforce
  show ?thesis
  proof (cases "heartbeatMessages m (Pubkey hb)")
    case (Some hbmi)
    then show ?thesis
      by (simp add: addHeartbeatMessageToMap_def Let_def split_def
          addPeerToFullPeersSlice_handlers)
  next
    case None
    then show ?thesis
      using n
      by (cases r) (simp_all add: addHeartbeatMessageToMap_def Let_def split_def
          addPeerToFullPeersSlice_handlers)
  qed
qed


lemma addHeartbeatMessageToMap_fullPeersSlice:
  assumes "\<forall>d p g t. \<not> isl (fst (newHeartbeatMessageInfo ops d p g t))"
  shows "fullPeersSlice (addHeartbeatMessageToMap ops m hb) =
     (if Pubkey hb \<in> set (fullPeersSlice m) then fullPeersSlice m
      else fullPeersSlice m @ [Pubkey hb])"
proof -
  from addHeartbeatMessageToMap_cases [of m hb ops] assms
  obtain m2 where "addHeartbeatMessageToMap ops m hb = addPeerToFullPeersSlice m2 (Pubkey hb)"
    and "fullPeersSlice m2 = fullPeersSlice m"
    by blast
  then show ?thesis
    using addPeerToFullPeersSlice_fields [of m2 "Pubkey hb"] by simp
qed

lemma exampleMethods_total:
  "\<forall>d p g t. \<not> isl (fst (newHeartbeatMessageInfo exampleMethods d p g t))"
  by (simp add: exampleMethods_def)

lemma twoHeartbeats_run:
  assumes f: "fullPeersSlice mon = []"
    and g: "goroutines mon = [SaveMultipleHeartbeatMessageInfos [''B'']]"
    and mh: "messageHandler mon = exampleMessageHandler"
    and af: "antifloodHandler mon = exampleAntiflood"
  shows "fullPeersSlice (applyOps exampleMethods twoHeartbeats mon) = [''C''] \<and>
     processedHeartbeats exampleMethods twoHeartbeats mon = {''C''}"
proof -
  define hb where "hb = \<lparr>Pubkey = ''C'', ShardID = 0, hbVersionNumber = ''v1'',
              hbNodeDisplayName = ''node''\<rparr>"
  define acc where "acc = OpProcessReceivedMessage (Some \<lparr>Data = Some ''C'', Peer = ''p''\<rparr>) ''p''"
  define m1 where "m1 = applyOp exampleMethods acc mon"
  define m2 where "m2 = applyOp exampleMethods (OpRun 1 []) m1"
  define m3 where "m3 = applyOp exampleMethods acc m2"
  define m4 where "m4 = applyOp exampleMethods (OpRun 2 []) m3"
  have e1: "m1 = mon\<lparr>goroutines := goroutines mon @
      [AddHeartbeatMessageToMap hb, ComputeAllHeartbeatMessages]\<rparr>"
    unfolding m1_def acc_def hb_def by (rule accept_C [OF mh af])
  have g1: "goroutines m1 = [SaveMultipleHeartbeatMessageInfos [''B''],
      AddHeartbeatMessageToMap hb, ComputeAllHeartbeatMessages]"
    and f1: "fullPeersSlice m1 = []"
    and h1: "messageHandler m1 = exampleMessageHandler" "antifloodHandler m1 = exampleAntiflood"
    by (simp_all add: e1 g f mh af)
  define n1 where "n1 = m1\<lparr>goroutines := take 1 (goroutines m1) @ drop (Suc 1) (goroutines m1)\<rparr>"
  have e2: "m2 = addHeartbeatMessageToMap exampleMethods n1 hb"
    unfolding m2_def n1_def by (simp add: g1)
  have f2: "fullPeersSlice m2 = [''C'']"
    unfolding e2 addHeartbeatMessageToMap_fullPeersSlice [OF exampleMethods_total]
    by (simp add: n1_def f1 hb_def)
  have g2: "goroutines m2 = [SaveMultipleHeartbeatMessageInfos [''B''],
      ComputeAllHeartbeatMessages]"
    and h2: "messageHandler m2 = exampleMessageHandler" "antifloodHandler m2 = exampleAntiflood"
    using addHeartbeatMessageToMap_handlers [of exampleMethods n1 hb]
    by (simp_all add: e2 n1_def g1 h1)
  have e3: "m3 = m2\<lparr>goroutines := goroutines m2 @
      [AddHeartbeatMessageToMap hb, ComputeAllHeartbeatMessages]\<rparr>"
    unfolding m3_def acc_def hb_def by (rule accept_C [OF h2])
  have g3: "goroutines m3 = [SaveMultipleHeartbeatMessageInfos [''B''],
      ComputeAllHeartbeatMessages, AddHeartbeatMessageToMap hb, ComputeAllHeartbeatMessages]"
    and f3: "fullPeersSlice m3 = [''C'']"
    by (simp_all add: e3 g2 f2)
  define n3 where "n3 = m3\<lparr>goroutines := take 2 (goroutines m3) @ drop (Suc 2) (goroutines m3)\<rparr>"
  have e4: "m4 = addHeartbeatMessageToMap exampleMethods n3 hb"
    unfolding m4_def n3_def by (simp add: g3)
  have f4: "fullPeersSlice m4 = [''C'']"
    unfolding e4 addHeartbeatMessageToMap_fullPeersSlice [OF exampleMethods_total]
    by (simp add: n3_def f3 hb_def)
  have a: "applyOps exampleMethods twoHeartbeats mon = m4"
    by (simp add: twoHeartbeats_def m4_def m3_def m2_def m1_def acc_def)
  have p: "processedHeartbeats exampleMethods twoHeartbeats mon =
      heartbeatOf acc mon \<union> (heartbeatOf (OpRun 1 []) m1 \<union>
        (heartbeatOf acc m2 \<union> (heartbeatOf (OpRun 2 []) m3 \<union> {})))"
    by (simp add: twoHeartbeats_def m3_def m2_def m1_def acc_def)
  have "processedHeartbeats exampleMethods twoHeartbeats mon = {''C''}"
    unfolding p by (simp add: acc_def g1 g3 hb_def)
  then show ?thesis using a f4 by simp
qed

theorem C9_fullPeersSlice_witness:
  "\<exists>mon. builtMonitor = Inr mon \<and> fullPeersSlice mon = [] \<and>
     distinct (fullPeersSlice (applyOps exampleMethods twoHeartbeats mon)) \<and>
     fullPeersSlice (applyOps exampleMethods twoHeartbeats mon) = [''C''] \<and>
     distinct (fullPeersSlice (applyOp exampleMethods (OpRun 0 []) mon))"
proof -
  from builtMonitor_value obtain mon where
    b: "builtMonitor = Inr mon" and f: "fullPeersSlice mon = []"
    and g: "goroutines mon = [SaveMultipleHeartbeatMessageInfos [''B'']]"
    and mh: "messageHandler mon = exampleMessageHandler"
    and af: "antifloodHandler mon = exampleAntiflood"
    by blast
  have d: "distinct (fullPeersSlice mon)" by (simp add: f)
  note t = C9_fullPeersSlice [where ops = exampleMethods and m0 = mon and os = twoHeartbeats
      and m = mon and op = "OpRun 0 []"
      and marshalizerArg = "Some Marshalizer" and maxDur = 50
      and pubKeysMapArg = "[(0, [''A'', ''B''])]" and genesis = 0
      and messageHandlerArg = "Some exampleMessageHandler" and storerArg = "Some exampleStorer"
      and peerTypeProviderArg = "Some exampleProvider" and timerArg = "Some exampleTimer"
      and antifloodHandlerArg = "Some exampleAntiflood"]
  from t b have 1: "distinct (fullPeersSlice (applyOps exampleMethods twoHeartbeats mon))"
    unfolding builtMonitor_def by blast
  from t d have 2: "distinct (fullPeersSlice (applyOp exampleMethods (OpRun 0 []) mon))"
    by blast
  from twoHeartbeats_run [OF f g mh af]
  have 3: "fullPeersSlice (applyOps exampleMethods twoHeartbeats mon) = [''C'']" by blast
  from b f 1 2 3 show ?thesis by blast
qed

theorem C8_records_witness:
  "\<exists>mon. builtMonitor = Inr mon \<and> dom (heartbeatMessages mon) = {''A'', ''B''} \<and>
     dom (heartbeatMessages (applyOps exampleMethods twoHeartbeats mon)) = {''A'', ''B'', ''C''} \<and>
     recordedHeartbeats exampleMethods twoHeartbeats mon = {''C''}"
proof -
  from builtMonitor_value obtain mon where
    b: "builtMonitor = Inr mon" and f: "fullPeersSlice mon = []"
    and g: "goroutines mon = [SaveMultipleHeartbeatMessageInfos [''B'']]"
    and mh: "messageHandler mon = exampleMessageHandler"
    and af: "antifloodHandler mon = exampleAntiflood"
    by blast
  have a: "assignedKeys [(0 :: uint32, [''A'', ''B''])] = {''A'', ''B''}"
    by (simp add: assignedKeys_def)
  have s: "storedKeys exampleStorer = {''A''}"
    by (simp add: storedKeys_def exampleStorer_def)
  from twoHeartbeats_run [OF f g mh af]
  have p: "processedHeartbeats exampleMethods twoHeartbeats mon = {''C''}" by blast
  note t = C8_records [OF b [unfolded builtMonitor_def], of twoHeartbeats mon "OpRun 0 []"]
  from t have 1: "dom (heartbeatMessages mon) = {''A'', ''B''}"
    unfolding a s by auto
  from t exampleMethods_total
  have "dom (heartbeatMessages (applyOps exampleMethods twoHeartbeats mon))
      = {''A'', ''B''} \<union> {''A''} \<union> {''C''}"
    unfolding a s p by blast
  then have 2: "dom (heartbeatMessages (applyOps exampleMethods twoHeartbeats mon))
      = {''A'', ''B'', ''C''}" by auto
  have 3: "recordedHeartbeats exampleMethods twoHeartbeats mon = {''C''}"
    unfolding recordedHeartbeats_total [OF exampleMethods_total] by (rule p)
  from b 1 2 3 show ?thesis by blast
qed

text \<open>The monitor built with the constructor that refuses the threshold 0: the record of
  \<open>''A''\<close> loads from the storage, so the monitor is built.\<close>

lemma strictMonitor_value:
  "\<exists>mon. strictMonitor = Inr mon \<and> heartbeatMessages mon ''C'' = None \<and>
     dom (heartbeatMessages mon) = {''A''} \<and>
     mon_maxDurationPeerUnresponsive mon = 0 \<and>
     goroutines mon = [SaveMultipleHeartbeatMessageInfos []] \<and>
     messageHandler mon = exampleMessageHandler \<and>
     antifloodHandler mon = exampleAntiflood"
  by (auto simp add: strictMonitor_def NewMonitor_def initializeHeartbeatMessagesInfo_def
      initializeHeartBeatForPK_def loadHbmiFromStorer_def loadRestOfPubKeysFromStorage_def
      loadRestPeer_def computePeerTypeAndShardID_def computePeerType_def
      exampleStorer_def strictMethods_def exampleMethods_def exampleProvider_def exampleTimer_def
      Now_def Let_def appendPubKey_def)

lemma oneHeartbeat_run:
  assumes c: "heartbeatMessages mon ''C'' = None"
    and z: "mon_maxDurationPeerUnresponsive mon = 0"
    and g: "goroutines mon = [SaveMultipleHeartbeatMessageInfos []]"
    and mh: "messageHandler mon = exampleMessageHandler"
    and af: "antifloodHandler mon = exampleAntiflood"
  shows "fst (ProcessReceivedMessage mon (Some \<lparr>Data = Some ''C'', Peer = ''p''\<rparr>) ''p'') = None \<and>
     processedHeartbeats strictMethods oneHeartbeat mon = {''C''} \<and>
     recordedHeartbeats strictMethods oneHeartbeat mon = {} \<and>
     heartbeatMessages (applyOps strictMethods oneHeartbeat mon) ''C'' = None"
proof -
  define hb where "hb = \<lparr>Pubkey = ''C'', ShardID = 0, hbVersionNumber = ''v1'',
              hbNodeDisplayName = ''node''\<rparr>"
  define acc where "acc = OpProcessReceivedMessage (Some \<lparr>Data = Some ''C'', Peer = ''p''\<rparr>) ''p''"
  define m1 where "m1 = applyOp strictMethods acc mon"
  have e1: "m1 = mon\<lparr>goroutines := goroutines mon @
      [AddHeartbeatMessageToMap hb, ComputeAllHeartbeatMessages]\<rparr>"
    unfolding m1_def acc_def hb_def by (rule accept_C [OF mh af])
  have g1: "goroutines m1 = [SaveMultipleHeartbeatMessageInfos [],
      AddHeartbeatMessageToMap hb, ComputeAllHeartbeatMessages]"
    and c1: "heartbeatMessages m1 ''C'' = None"
    and z1: "mon_maxDurationPeerUnresponsive m1 = 0"
    by (simp_all add: e1 g c z)
  have r: "fst (ProcessReceivedMessage mon (Some \<lparr>Data = Some ''C'', Peer = ''p''\<rparr>) ''p'') = None"
    using mh af
    by (simp add: ProcessReceivedMessage_def exampleAntiflood_def exampleMessageHandler_def)
  have p: "processedHeartbeats strictMethods oneHeartbeat mon =
      heartbeatOf acc mon \<union> (heartbeatOf (OpRun 1 []) m1 \<union> {})"
    by (simp add: oneHeartbeat_def m1_def acc_def)
  have 1: "processedHeartbeats strictMethods oneHeartbeat mon = {''C''}"
    unfolding p by (simp add: acc_def g1 hb_def)
  have q: "recordedHeartbeats strictMethods oneHeartbeat mon =
      recordedHeartbeatOf strictMethods acc mon \<union>
        (recordedHeartbeatOf strictMethods (OpRun 1 []) m1 \<union> {})"
    by (simp add: oneHeartbeat_def m1_def acc_def)
  have 2: "recordedHeartbeats strictMethods oneHeartbeat mon = {}"
    unfolding q by (simp add: acc_def g1 hb_def c1 z1 strictMethods_def)
  have a: "applyOps strictMethods oneHeartbeat mon = applyOp strictMethods (OpRun 1 []) m1"
    by (simp add: oneHeartbeat_def m1_def acc_def)
  have "dom (heartbeatMessages (applyOps strictMethods oneHeartbeat mon))
      = dom (heartbeatMessages mon)"
    using applyOps_dom_recorded [of strictMethods oneHeartbeat mon] unfolding 2 by simp
  then have 3: "heartbeatMessages (applyOps strictMethods oneHeartbeat mon) ''C'' = None"
    using c by (metis domIff)
  from r 1 2 3 show ?thesis by blast
qed

text \<open>
  On that monitor the heartbeat of the peer \<open>''C''\<close> is accepted and its goroutine run, and
  \<open>''C''\<close> has no record: a heartbeat received from a key does not always leave a record.
\<close>

theorem C8_records_counterexample:
  "\<not> isl strictMonitor \<and>
   fst (ProcessReceivedMessage (projr strictMonitor)
          (Some \<lparr>Data = Some ''C'', Peer = ''p''\<rparr>) ''p'') = None \<and>
   processedHeartbeats strictMethods oneHeartbeat (projr strictMonitor) = {''C''} \<and>
   heartbeatMessages (applyOps strictMethods oneHeartbeat (projr strictMonitor)) ''C'' = None"
proof -
  from strictMonitor_value obtain mon where
    b: "strictMonitor = Inr mon" and c: "heartbeatMessages mon ''C'' = None"
    and z: "mon_maxDurationPeerUnresponsive mon = 0"
    and g: "goroutines mon = [SaveMultipleHeartbeatMessageInfos []]"
    and mh: "messageHandler mon = exampleMessageHandler"
    and af: "antifloodHandler mon = exampleAntiflood"
    by blast
  have p: "projr strictMonitor = mon" "\<not> isl strictMonitor" by (simp_all add: b)
  from oneHeartbeat_run [OF c z g mh af] show ?thesis unfolding p using p(2) by blast
qed

subsection \<open>The snapshot\<close>

text \<open>Rounding to double precision: \<open>float64 x\<close> is at least as near to \<open>x\<close> as any
  integer, while \<open>x\<close> is below \<open>2\<^sup>5\<^sup>3\<close> in magnitude.\<close>

lemma roundEven_cases:
  "roundEven q = \<lfloor>q\<rfloor> \<and> q - of_int \<lfloor>q\<rfloor> \<le> 1 / 2 \<or>
   roundEven q = \<lfloor>q\<rfloor> + 1 \<and> 1 / 2 \<le> q - of_int \<lfloor>q\<rfloor>"
  by (simp add: roundEven_def Let_def)

lemma roundEven_nearest: "\<bar>of_int (roundEven q) - q\<bar> \<le> \<bar>of_int j - q\<bar>"
proof -
  define f where "f = \<lfloor>q\<rfloor>"
  define r where "r = q - of_int f"
  have r0: "0 \<le> r" and r1: "r < 1"
    unfolding r_def f_def by linarith+
  have q: "q = of_int f + r" by (simp add: r_def)
  have c: "roundEven q = f \<and> r \<le> 1 / 2 \<or> roundEven q = f + 1 \<and> 1 / 2 \<le> r"
    using roundEven_cases [of q] unfolding f_def r_def .
  have e: "\<bar>of_int (roundEven q) - q\<bar> \<le> r \<and> \<bar>of_int (roundEven q) - q\<bar> \<le> 1 - r"
  proof -
    from c consider "roundEven q = f" "r \<le> 1 / 2" | "roundEven q = f + 1" "1 / 2 \<le> r"
      by blast
    then show ?thesis
    proof cases
      case 1
      have "of_int (roundEven q) - q = - r" unfolding 1(1) r_def by simp
      then show ?thesis using 1(2) r0 by linarith
    next
      case 2
      have "of_int (roundEven q) - q = 1 - r" unfolding 2(1) r_def by simp
      then show ?thesis using 2(2) r1 by linarith
    qed
  qed
  consider "j \<le> f" | "f + 1 \<le> j" by linarith
  then show ?thesis
  proof cases
    case 1
    then have "(of_int j :: rat) \<le> of_int f" by simp
    then have "r \<le> \<bar>of_int j - q\<bar>" unfolding q using r0 by linarith
    then show ?thesis using e by linarith
  next
    case 2
    then have "(of_int f :: rat) + 1 \<le> of_int j"
      by (metis of_int_1 of_int_add of_int_le_iff)
    then have "1 - r \<le> \<bar>of_int j - q\<bar>" unfolding q using r1 by linarith
    then show ?thesis using e by linarith
  qed
qed

lemma binaryExponent_le:
  assumes "x \<noteq> 0"
  shows "power_int 2 (binaryExponent x) \<le> \<bar>x\<bar>"
proof -
  obtain p q where pq: "quotient_of \<bar>x\<bar> = (p, q)" by fastforce
  have q0: "0 < q" using quotient_of_denom_pos [OF pq] .
  have x: "\<bar>x\<bar> = of_int p / of_int q" using quotient_of_div [OF pq] .
  have "0 < \<bar>x\<bar>" using assms by simp
  then have p0: "0 < p" using q0 unfolding x by (simp add: zero_less_divide_iff)
  define k where "k = bitlen p - bitlen q"
  have e: "binaryExponent x = (if power_int 2 k \<le> \<bar>x\<bar> then k else k - 1)"
    by (simp add: binaryExponent_def pq k_def Let_def)
  have bp: "(2 :: int) ^ nat (bitlen p - 1) \<le> p" using bitlen_bounds [OF p0] by blast
  have bq: "q < (2 :: int) ^ nat (bitlen q)" using bitlen_bounds [OF q0] by blast
  have p1: "1 \<le> bitlen p" using p0 bitlen_nonneg [of p] bitlen_eq_zero_iff [of p] by linarith
  have q1: "0 \<le> bitlen q" by (rule bitlen_nonneg)
  have "power_int (2 :: rat) (k - 1) = power_int 2 (bitlen p - 1) / power_int 2 (bitlen q)"
    unfolding k_def using power_int_diff [of "2 :: rat" "bitlen p - 1" "bitlen q"]
    by (simp add: algebra_simps)
  also have "power_int (2 :: rat) (bitlen p - 1) = 2 ^ nat (bitlen p - 1)"
    using p1 power_int_of_nat [of "2 :: rat" "nat (bitlen p - 1)"] by simp
  also have "power_int (2 :: rat) (bitlen q) = 2 ^ nat (bitlen q)"
    using q1 power_int_of_nat [of "2 :: rat" "nat (bitlen q)"] by simp
  finally have k1: "power_int (2 :: rat) (k - 1) = 2 ^ nat (bitlen p - 1) / 2 ^ nat (bitlen q)" .
  have a: "(2 :: rat) ^ nat (bitlen p - 1) \<le> of_int p"
    using bp by (metis of_int_le_iff of_int_numeral of_int_power)
  have b: "(of_int q :: rat) \<le> 2 ^ nat (bitlen q)"
    using bq by (metis less_imp_le of_int_le_iff of_int_numeral of_int_power)
  have "(2 :: rat) ^ nat (bitlen p - 1) / 2 ^ nat (bitlen q) \<le> of_int p / of_int q"
    by (rule frac_le) (use a b p0 q0 in simp_all)
  then have "power_int (2 :: rat) (k - 1) \<le> \<bar>x\<bar>" unfolding k1 x .
  then show ?thesis unfolding e by simp
qed

lemma scale_abs:
  fixes a x u :: rat
  assumes "0 < u"
  shows "\<bar>a - x / u\<bar> * u = \<bar>a * u - x\<bar>"
proof -
  have "(a - x / u) * u = a * u - x" using assms by (simp add: field_simps)
  then have "\<bar>a * u - x\<bar> = \<bar>a - x / u\<bar> * \<bar>u\<bar>" using abs_mult [of "a - x / u" u] by simp
  then show ?thesis using assms by simp
qed

lemma float64_nearest:
  assumes "x \<noteq> 0" and "\<bar>x\<bar> < 2 ^ 53"
  shows "\<bar>float64 x - x\<bar> \<le> \<bar>of_int n - x\<bar>"
proof -
  define e where "e = binaryExponent x"
  define u :: rat where "u = power_int 2 (e - 52)"
  have u0: "0 < u" unfolding u_def by (simp add: zero_less_power_int)
  have f: "float64 x = of_int (roundEven (x / u)) * u"
    using assms(1) by (simp add: float64_def Let_def u_def e_def)
  have lt: "power_int (2 :: rat) e < 2 ^ 53"
    using binaryExponent_le [OF assms(1)] assms(2) unfolding e_def by linarith
  have e53: "e < 53"
  proof (rule ccontr)
    assume "\<not> e < 53"
    then have "53 \<le> e" by simp
    then have "power_int (2 :: rat) 53 \<le> power_int 2 e"
      by (intro power_int_increasing) simp_all
    then show False using lt by simp
  qed
  define N where "N = nat (52 - e)"
  have "power_int (2 :: rat) (52 - e) = 2 ^ N"
    using e53 power_int_of_nat [of "2 :: rat" N] unfolding N_def by simp
  moreover have "power_int (2 :: rat) (52 - e) = 1 / u"
    unfolding u_def using power_int_minus_divide [of "2 :: rat" "e - 52"] by simp
  ultimately have iu: "1 / u = 2 ^ N" by simp
  have "of_int n / u = of_int n * (1 / u)" by simp
  also have "\<dots> = of_int n * 2 ^ N" unfolding iu ..
  also have "\<dots> = of_int (n * 2 ^ N)" by simp
  finally have nu: "of_int n / u = of_int (n * 2 ^ N)" .
  have "\<bar>of_int (roundEven (x / u)) - x / u\<bar> \<le> \<bar>of_int (n * 2 ^ N) - x / u\<bar>"
    by (rule roundEven_nearest)
  then have "\<bar>of_int (roundEven (x / u)) - x / u\<bar> \<le> \<bar>of_int n / u - x / u\<bar>"
    unfolding nu .
  then have "\<bar>of_int (roundEven (x / u)) - x / u\<bar> * u \<le> \<bar>of_int n / u - x / u\<bar> * u"
    by (rule mult_right_mono) (use u0 in simp_all)
  moreover have "\<bar>of_int n / u - x / u\<bar> * u = \<bar>of_int n / u * u - x\<bar>"
    by (rule scale_abs [OF u0])
  moreover have "of_int n / u * u = of_int n" using u0 by simp
  ultimately show ?thesis unfolding f scale_abs [OF u0] by simp
qed

lemma float64_between:
  assumes "of_int a \<le> x" and "x \<le> of_int b"
    and "- (2 ^ 53) < a" and "b < 2 ^ 53"
  shows "of_int a \<le> float64 x \<and> float64 x \<le> of_int b"
proof (cases "x = 0")
  case True
  then show ?thesis using assms by (simp add: float64_def)
next
  case False
  have "(of_int b :: rat) < of_int (2 ^ 53)" using assms(4) by (simp only: of_int_less_iff)
  moreover have "(of_int (- (2 ^ 53)) :: rat) < of_int a"
    using assms(3) by (simp only: of_int_less_iff)
  ultimately have "\<bar>x\<bar> < 2 ^ 53" using assms(1,2) by simp
  note n = float64_nearest [OF False this]
  from n [of a] assms(1) have "of_int a \<le> float64 x" by linarith
  moreover from n [of b] assms(2) have "float64 x \<le> of_int b" by linarith
  ultimately show ?thesis by simp
qed

lemma float64_of_int:
  assumes "- (2 ^ 53) < n" and "n < 2 ^ 53"
  shows "float64 (of_int n) = of_int n"
  using float64_between [of n "of_int n" n] assms by simp

lemma float64_billion: "float64 1000000000 = 1000000000"
proof -
  have "float64 (of_int 1000000000) = of_int 1000000000"
    by (rule float64_of_int) simp_all
  then show ?thesis by simp
qed

lemma seconds_up:
  fixes sec nsec :: int
  assumes "0 \<le> nsec" and "nsec < 1000000000" and "- (2 ^ 52) < sec" and "sec < 2 ^ 52"
  shows "of_int sec \<le> float64 (float64 (of_int sec) +
                 float64 (float64 (of_int nsec) / float64 1000000000)) \<and>
         float64 (float64 (of_int sec) +
                 float64 (float64 (of_int nsec) / float64 1000000000)) \<le> of_int (sec + 1)"
proof -
  have fs: "float64 (of_int sec) = of_int sec"
    by (rule float64_of_int) (use assms in simp_all)
  have fn: "float64 (of_int nsec) = of_int nsec"
    by (rule float64_of_int) (use assms in simp_all)
  define y :: rat where "y = of_int nsec / 1000000000"
  have y0: "of_int 0 \<le> y" and y1: "y \<le> of_int 1"
    unfolding y_def using assms(1,2) by simp_all
  have fy: "0 \<le> float64 y \<and> float64 y \<le> 1"
    using float64_between [OF y0 y1] by simp
  define x :: rat where "x = of_int sec + float64 y"
  have x0: "of_int sec \<le> x" and x1: "x \<le> of_int (sec + 1)"
    unfolding x_def using fy by simp_all
  have "of_int sec \<le> float64 x \<and> float64 x \<le> of_int (sec + 1)"
    by (rule float64_between [OF x0 x1]) (use assms in simp_all)
  then show ?thesis
    unfolding x_def y_def fs fn float64_billion .
qed

lemma seconds_down:
  fixes sec nsec :: int
  assumes "nsec \<le> 0" and "- 1000000000 < nsec" and "- (2 ^ 52) < sec" and "sec < 2 ^ 52"
  shows "of_int (sec - 1) \<le> float64 (float64 (of_int sec) +
                 float64 (float64 (of_int nsec) / float64 1000000000)) \<and>
         float64 (float64 (of_int sec) +
                 float64 (float64 (of_int nsec) / float64 1000000000)) \<le> of_int sec"
proof -
  have fs: "float64 (of_int sec) = of_int sec"
    by (rule float64_of_int) (use assms in simp_all)
  have fn: "float64 (of_int nsec) = of_int nsec"
    by (rule float64_of_int) (use assms in simp_all)
  define y :: rat where "y = of_int nsec / 1000000000"
  have y0: "of_int (- 1) \<le> y" and y1: "y \<le> of_int 0"
    unfolding y_def using assms(1,2) by simp_all
  have fy: "- 1 \<le> float64 y \<and> float64 y \<le> 0"
    using float64_between [OF y0 y1] by simp
  define x :: rat where "x = of_int sec + float64 y"
  have x0: "of_int (sec - 1) \<le> x" and x1: "x \<le> of_int sec"
    unfolding x_def using fy by simp_all
  have "of_int (sec - 1) \<le> float64 x \<and> float64 x \<le> of_int sec"
    by (rule float64_between [OF x0 x1]) (use assms in simp_all)
  then show ?thesis
    unfolding x_def y_def fs fn float64_billion .
qed

text \<open>The whole seconds of a duration, as \<^verbatim>\<open>int64(d.Seconds())\<close> gives them: the
  truncated number of seconds, or the next whole second away from zero.\<close>

lemma whole_seconds:
  "int64OfFloat (Seconds d) = word_of_int (sint d sdiv 1000000000) \<or>
   int64OfFloat (Seconds d) =
     word_of_int (sint d sdiv 1000000000 + (if 0 \<le> sint d then 1 else - 1))"
proof -
  define D where "D = sint d"
  have lo: "- 9223372036854775808 \<le> D" and hi: "D < 9223372036854775808"
    unfolding D_def using sint_ge [of d] sint_lt [of d] by simp_all
  define z where "z = Seconds d"
  show ?thesis
  proof (cases "0 \<le> D")
    case True
    define s where "s = D div 1000000000"
    define ns where "ns = D mod 1000000000"
    have sd: "D sdiv 1000000000 = s" and sm: "D smod 1000000000 = ns"
      using True by (simp_all add: signed_divide_int_def signed_modulo_int_def s_def ns_def
          sgn_if)
    have ns0: "0 \<le> ns" and ns1: "ns < 1000000000" unfolding ns_def by simp_all
    have dm: "s * 1000000000 + ns = D" unfolding s_def ns_def by simp
    have s0: "0 \<le> s" unfolding s_def using True by (simp add: pos_imp_zdiv_nonneg_iff)
    have s2: "s < 2 ^ 52" using dm ns0 hi by simp
    have z: "z = float64 (float64 (of_int s) +
                 float64 (float64 (of_int ns) / float64 1000000000))"
      unfolding z_def Seconds_def Let_def D_def [symmetric] sd sm ..
    have b: "of_int s \<le> z \<and> z \<le> of_int (s + 1)"
      unfolding z by (rule seconds_up) (use ns0 ns1 s0 s2 in simp_all)
    have "(0 :: rat) \<le> of_int s" using s0 by simp
    then have "0 \<le> z" using b by linarith
    moreover have "\<lfloor>z\<rfloor> = s \<or> \<lfloor>z\<rfloor> = s + 1"
    proof (cases "z = of_int (s + 1)")
      case True
      then show ?thesis by simp
    next
      case False
      then have "of_int s \<le> z" and "z < of_int s + 1" using b by simp_all
      then have "\<lfloor>z\<rfloor> = s" by (rule floor_unique)
      then show ?thesis by simp
    qed
    ultimately show ?thesis
      unfolding z_def [symmetric] D_def [symmetric] sd int64OfFloat_def using True by auto
  next
    case False
    define E where "E = - D"
    define s where "s = E div 1000000000"
    define ns where "ns = E mod 1000000000"
    have E0: "0 < E" using False unfolding E_def by simp
    have sd: "D sdiv 1000000000 = - s" and sm: "D smod 1000000000 = - ns"
      using False by (simp_all add: signed_divide_int_def signed_modulo_int_def s_def ns_def
          E_def sgn_if)
    have ns0: "0 \<le> ns" and ns1: "ns < 1000000000" unfolding ns_def by simp_all
    have dm: "s * 1000000000 + ns = E" unfolding s_def ns_def by simp
    have s0: "0 \<le> s" unfolding s_def using E0 by (simp add: pos_imp_zdiv_nonneg_iff)
    have "E \<le> 9223372036854775808" using lo unfolding E_def by simp
    then have s2: "s < 2 ^ 52" using dm ns0 by simp
    have z: "z = float64 (float64 (of_int (- s)) +
                 float64 (float64 (of_int (- ns)) / float64 1000000000))"
      unfolding z_def Seconds_def Let_def D_def [symmetric] sd sm ..
    have b: "of_int (- s - 1) \<le> z \<and> z \<le> of_int (- s)"
      unfolding z by (rule seconds_down) (use ns0 ns1 s0 s2 in simp_all)
    have "\<lceil>z\<rceil> = - s \<or> \<lceil>z\<rceil> = - s - 1"
    proof (cases "z = of_int (- s - 1)")
      case True
      have "\<lceil>(of_int (- s - 1)) :: rat\<rceil> = - s - 1" by (rule ceiling_of_int)
      then have "\<lceil>z\<rceil> = - s - 1" unfolding True .
      then show ?thesis by blast
    next
      case False
      then have "of_int (- s) - 1 < z" and "z \<le> of_int (- s)" using b by simp_all
      then have "\<lceil>z\<rceil> = - s" by (rule ceiling_unique)
      then show ?thesis by simp
    qed
    moreover have "0 \<le> z \<Longrightarrow> \<lfloor>z\<rfloor> = - s"
    proof -
      assume "0 \<le> z"
      then have "(0 :: rat) \<le> of_int (- s)" using b by linarith
      then have "s = 0" using s0 by simp
      then have "z = 0" using b \<open>0 \<le> z\<close> by simp
      then show ?thesis using \<open>s = 0\<close> by simp
    qed
    ultimately show ?thesis
      unfolding z_def [symmetric] D_def [symmetric] sd int64OfFloat_def using False by auto
  qed
qed

text \<open>The error of one rounding is at most half the distance of the doubles of the
  binade. Below \<open>2\<^sup>2\<^sup>4\<close> seconds that is less than what the fraction of a second leaves to
  the next whole second, and the whole seconds are the truncation; so they are for every
  duration whose part below the second is at most 0.999999 s.\<close>

lemma roundEven_half: "\<bar>of_int (roundEven q) - q\<bar> \<le> 1 / 2"
proof -
  define r where "r = q - of_int \<lfloor>q\<rfloor>"
  have r0: "0 \<le> r" and r1: "r < 1"
    unfolding r_def by linarith+
  from roundEven_cases [of q]
  consider "roundEven q = \<lfloor>q\<rfloor>" "r \<le> 1 / 2" | "roundEven q = \<lfloor>q\<rfloor> + 1" "1 / 2 \<le> r"
    unfolding r_def by blast
  then show ?thesis
  proof cases
    case 1
    have "of_int (roundEven q) - q = - r" unfolding 1(1) r_def by simp
    then show ?thesis using 1(2) r0 by linarith
  next
    case 2
    have "of_int (roundEven q) - q = 1 - r" unfolding 2(1) r_def by simp
    then show ?thesis using 2(2) r1 by linarith
  qed
qed

lemma float64_error:
  assumes "x \<noteq> 0" and "\<bar>x\<bar> < power_int 2 (E + 1)"
  shows "\<bar>float64 x - x\<bar> \<le> power_int 2 (E - 53)"
proof -
  define e where "e = binaryExponent x"
  define u :: rat where "u = power_int 2 (e - 52)"
  have u0: "0 < u" unfolding u_def by (simp add: zero_less_power_int)
  have f: "float64 x = of_int (roundEven (x / u)) * u"
    using assms(1) by (simp add: float64_def Let_def u_def e_def)
  have lt: "power_int (2 :: rat) e < power_int 2 (E + 1)"
    using binaryExponent_le [OF assms(1)] assms(2) unfolding e_def by linarith
  have eE: "e \<le> E"
  proof (rule ccontr)
    assume "\<not> e \<le> E"
    then have "E + 1 \<le> e" by simp
    then have "power_int (2 :: rat) (E + 1) \<le> power_int 2 e"
      by (intro power_int_increasing) simp_all
    then show False using lt by simp
  qed
  have "\<bar>float64 x - x\<bar> = \<bar>of_int (roundEven (x / u)) - x / u\<bar> * u"
    unfolding f scale_abs [OF u0] ..
  also have "\<dots> \<le> (1 / 2) * u"
    by (rule mult_right_mono [OF roundEven_half]) (use u0 in simp)
  also have "(1 / 2) * u = power_int 2 (e - 53)"
  proof -
    have "power_int (2 :: rat) (e - 52) = power_int 2 ((e - 53) + 1)" by simp
    also have "\<dots> = power_int 2 (e - 53) * 2"
      by (subst power_int_add) simp_all
    finally show ?thesis unfolding u_def by simp
  qed
  also have "\<dots> \<le> power_int 2 (E - 53)"
    by (intro power_int_increasing) (use eE in simp_all)
  finally show ?thesis .
qed

lemma fraction_error:
  fixes y :: rat
  assumes "\<bar>y\<bar> < 1"
  shows "\<bar>float64 y - y\<bar> \<le> power_int 2 (- 54)"
proof (cases "y = 0")
  case True
  then show ?thesis by (simp add: float64_def)
next
  case False
  have "\<bar>y\<bar> < power_int 2 (- 1 + 1)" using assms by simp
  from float64_error [OF False this] show ?thesis by simp
qed

lemma seconds_up_strict:
  fixes sec nsec N E :: int
  assumes "0 \<le> nsec" and "nsec \<le> N" and "N < 1000000000"
    and "0 \<le> sec" and "sec < 2 ^ 52"
    and "of_int sec + 1 \<le> power_int (2 :: rat) (E + 1)"
    and "of_int N / 1000000000 + power_int 2 (- 54) + power_int 2 (E - 53) < (1 :: rat)"
  shows "float64 (float64 (of_int sec) +
           float64 (float64 (of_int nsec) / float64 1000000000)) < of_int sec + 1"
proof -
  have fs: "float64 (of_int sec) = of_int sec"
    by (rule float64_of_int) (use assms in simp_all)
  have fn: "float64 (of_int nsec) = of_int nsec"
    by (rule float64_of_int) (use assms in simp_all)
  define y :: rat where "y = of_int nsec / 1000000000"
  have y0: "0 \<le> y" unfolding y_def using assms(1) by simp
  have "(of_int nsec :: rat) \<le> of_int N" using assms(2) by simp
  then have yN: "y \<le> of_int N / 1000000000" unfolding y_def by (simp add: divide_right_mono)
  have "(of_int N :: rat) < of_int 1000000000" using assms(3) by (simp only: of_int_less_iff)
  then have "of_int N / 1000000000 < (1 :: rat)" by simp
  then have "\<bar>y\<bar> < 1" using y0 yN by linarith
  note ey = fraction_error [OF this]
  have fy0: "0 \<le> float64 y"
    using float64_between [of 0 y 1] y0 \<open>\<bar>y\<bar> < 1\<close> by simp
  define x :: rat where "x = of_int sec + float64 y"
  have s0: "(0 :: rat) \<le> of_int sec" using assms(4) by simp
  have x0: "0 \<le> x" unfolding x_def using fy0 s0 by linarith
  have p0: "(0 :: rat) < power_int 2 (E - 53)" by (simp add: zero_less_power_int)
  have xu: "x \<le> of_int sec + of_int N / 1000000000 + power_int 2 (- 54)"
    unfolding x_def using ey yN by linarith
  have "float64 x < of_int sec + 1"
  proof (cases "x = 0")
    case True
    then show ?thesis using s0 by (simp add: float64_def)
  next
    case False
    have "\<bar>x\<bar> < power_int 2 (E + 1)"
      using x0 xu assms(6,7) p0 by linarith
    from float64_error [OF False this] xu assms(7) show ?thesis by linarith
  qed
  then show ?thesis
    unfolding x_def y_def fs fn float64_billion .
qed

lemma seconds_down_strict:
  fixes sec nsec N E :: int
  assumes "nsec \<le> 0" and "- N \<le> nsec" and "N < 1000000000"
    and "sec \<le> 0" and "- (2 ^ 52) < sec"
    and "1 - of_int sec \<le> power_int (2 :: rat) (E + 1)"
    and "of_int N / 1000000000 + power_int 2 (- 54) + power_int 2 (E - 53) < (1 :: rat)"
  shows "of_int sec - 1 < float64 (float64 (of_int sec) +
           float64 (float64 (of_int nsec) / float64 1000000000))"
proof -
  have fs: "float64 (of_int sec) = of_int sec"
    by (rule float64_of_int) (use assms in simp_all)
  have fn: "float64 (of_int nsec) = of_int nsec"
    by (rule float64_of_int) (use assms in simp_all)
  define y :: rat where "y = of_int nsec / 1000000000"
  have y0: "y \<le> 0" unfolding y_def using assms(1) by (simp add: divide_nonpos_pos)
  have "(of_int (- N) :: rat) \<le> of_int nsec" using assms(2) by (simp only: of_int_le_iff)
  then have "(of_int (- N) :: rat) / 1000000000 \<le> of_int nsec / 1000000000"
    by (simp add: divide_right_mono)
  then have yN: "- (of_int N / 1000000000) \<le> y" unfolding y_def by simp
  have "(of_int N :: rat) < of_int 1000000000" using assms(3) by (simp only: of_int_less_iff)
  then have "of_int N / 1000000000 < (1 :: rat)" by simp
  then have "\<bar>y\<bar> < 1" using y0 yN by linarith
  note ey = fraction_error [OF this]
  have fy0: "float64 y \<le> 0"
    using float64_between [of "- 1" y 0] y0 \<open>\<bar>y\<bar> < 1\<close> by simp
  define x :: rat where "x = of_int sec + float64 y"
  have s0: "(of_int sec :: rat) \<le> 0" using assms(4) by simp
  have x0: "x \<le> 0" unfolding x_def using fy0 s0 by linarith
  have p0: "(0 :: rat) < power_int 2 (E - 53)" by (simp add: zero_less_power_int)
  have xu: "of_int sec - of_int N / 1000000000 - power_int 2 (- 54) \<le> x"
    unfolding x_def using ey yN by linarith
  have "of_int sec - 1 < float64 x"
  proof (cases "x = 0")
    case True
    then show ?thesis using s0 by (simp add: float64_def)
  next
    case False
    have "\<bar>x\<bar> < power_int 2 (E + 1)"
      using x0 xu assms(6,7) p0 by linarith
    from float64_error [OF False this] xu assms(7) show ?thesis by linarith
  qed
  then show ?thesis
    unfolding x_def y_def fs fn float64_billion .
qed

lemma margin_24:
  "of_int 999999999 / 1000000000 + power_int 2 (- 54) + power_int 2 (23 - 53) < (1 :: rat)"
  by (simp add: power_int_def power_divide)

lemma margin_34:
  "of_int 999999000 / 1000000000 + power_int 2 (- 54) + power_int 2 (33 - 53) < (1 :: rat)"
  by (simp add: power_int_def power_divide)

lemma whole_seconds_exact:
  assumes "\<bar>sint d\<bar> < 16777216000000000 \<or> \<bar>sint d smod 1000000000\<bar> \<le> 999999000"
  shows "int64OfFloat (Seconds d) = word_of_int (sint d sdiv 1000000000)"
proof -
  define D where "D = sint d"
  have lo: "- 9223372036854775808 \<le> D" and hi: "D < 9223372036854775808"
    unfolding D_def using sint_ge [of d] sint_lt [of d] by simp_all
  note a = assms [unfolded D_def [symmetric]]
  define z where "z = Seconds d"
  have p24: "power_int (2 :: rat) (23 + 1) = 16777216"
    and p34: "power_int (2 :: rat) (33 + 1) = 17179869184"
    by (simp_all add: power_int_def)
  show ?thesis
  proof (cases "0 \<le> D")
    case True
    define s where "s = D div 1000000000"
    define ns where "ns = D mod 1000000000"
    have sd: "D sdiv 1000000000 = s" and sm: "D smod 1000000000 = ns"
      using True by (simp_all add: signed_divide_int_def signed_modulo_int_def s_def ns_def
          sgn_if)
    have ns0: "0 \<le> ns" and ns1: "ns < 1000000000" unfolding ns_def by simp_all
    have dm: "s * 1000000000 + ns = D" unfolding s_def ns_def by simp
    have s0: "0 \<le> s" unfolding s_def using True by (simp add: pos_imp_zdiv_nonneg_iff)
    have s2: "s < 2 ^ 52" using dm ns0 hi by simp
    have s34: "s + 1 \<le> 17179869184" using dm ns0 hi by simp
    have z: "z = float64 (float64 (of_int s) +
                 float64 (float64 (of_int ns) / float64 1000000000))"
      unfolding z_def Seconds_def Let_def D_def [symmetric] sd sm ..
    have b: "of_int s \<le> z"
      unfolding z using seconds_up [of ns s] ns0 ns1 s0 s2 by simp
    from a consider "D < 16777216000000000" | "ns \<le> 999999000"
      unfolding sm using True ns0 by linarith
    then have "z < of_int s + 1"
    proof cases
      case 1
      then have "s + 1 \<le> 16777216" using dm ns0 by simp
      then have "(of_int (s + 1) :: rat) \<le> of_int 16777216" by (simp only: of_int_le_iff)
      then have c: "(of_int s :: rat) + 1 \<le> power_int 2 (23 + 1)" unfolding p24 by simp
      have n: "ns \<le> 999999999" using ns1 by simp
      show ?thesis
        unfolding z
        by (rule seconds_up_strict [OF ns0 n _ s0 s2 c margin_24]) simp
    next
      case 2
      have "(of_int (s + 1) :: rat) \<le> of_int 17179869184"
        using s34 by (simp only: of_int_le_iff)
      then have c: "(of_int s :: rat) + 1 \<le> power_int 2 (33 + 1)" unfolding p34 by simp
      show ?thesis
        unfolding z
        by (rule seconds_up_strict [OF ns0 2 _ s0 s2 c margin_34]) simp
    qed
    with b have "\<lfloor>z\<rfloor> = s" by (rule floor_unique)
    moreover have "0 \<le> z" using b s0 by (metis of_int_0_le_iff order_trans)
    ultimately show ?thesis
      unfolding z_def [symmetric] D_def [symmetric] sd int64OfFloat_def by simp
  next
    case False
    define E where "E = - D"
    define s where "s = E div 1000000000"
    define ns where "ns = E mod 1000000000"
    have E0: "0 < E" using False unfolding E_def by simp
    have sd: "D sdiv 1000000000 = - s" and sm: "D smod 1000000000 = - ns"
      using False by (simp_all add: signed_divide_int_def signed_modulo_int_def s_def ns_def
          E_def sgn_if)
    have ns0: "0 \<le> ns" and ns1: "ns < 1000000000" unfolding ns_def by simp_all
    have dm: "s * 1000000000 + ns = E" unfolding s_def ns_def by simp
    have s0: "0 \<le> s" unfolding s_def using E0 by (simp add: pos_imp_zdiv_nonneg_iff)
    have Eh: "E \<le> 9223372036854775808" using lo unfolding E_def by simp
    then have s2: "s < 2 ^ 52" using dm ns0 by simp
    have s34: "s + 1 \<le> 17179869184" using dm ns0 Eh by simp
    have z: "z = float64 (float64 (of_int (- s)) +
                 float64 (float64 (of_int (- ns)) / float64 1000000000))"
      unfolding z_def Seconds_def Let_def D_def [symmetric] sd sm ..
    have b: "z \<le> of_int (- s)"
      unfolding z using seconds_down [of "- ns" "- s"] ns0 ns1 s0 s2 by simp
    have m0: "- s \<le> 0" "- (2 ^ 52) < - s" "- ns \<le> 0" using s0 s2 ns0 by simp_all
    from a consider "E < 16777216000000000" | "ns \<le> 999999000"
      unfolding sm E_def using False ns0 by linarith
    then have "of_int (- s) - 1 < z"
    proof cases
      case 1
      then have "s + 1 \<le> 16777216" using dm ns0 by simp
      then have "(of_int (s + 1) :: rat) \<le> of_int 16777216" by (simp only: of_int_le_iff)
      then have c: "1 - (of_int (- s) :: rat) \<le> power_int 2 (23 + 1)" unfolding p24 by simp
      have n: "- 999999999 \<le> - ns" using ns1 by simp
      show ?thesis
        unfolding z
        by (rule seconds_down_strict [OF m0(3) n _ m0(1,2) c margin_24]) simp
    next
      case 2
      have "(of_int (s + 1) :: rat) \<le> of_int 17179869184"
        using s34 by (simp only: of_int_le_iff)
      then have c: "1 - (of_int (- s) :: rat) \<le> power_int 2 (33 + 1)" unfolding p34 by simp
      have n: "- 999999000 \<le> - ns" using 2 by simp
      show ?thesis
        unfolding z
        by (rule seconds_down_strict [OF m0(3) n _ m0(1,2) c margin_34]) simp
    qed
    with b have c: "\<lceil>z\<rceil> = - s" by (intro ceiling_unique) simp_all
    have "0 \<le> z \<Longrightarrow> \<lfloor>z\<rfloor> = - s"
    proof -
      assume "0 \<le> z"
      then have "(0 :: rat) \<le> of_int (- s)" using b by linarith
      then have "s = 0" using s0 by simp
      then have "z = 0" using b \<open>0 \<le> z\<close> by simp
      then show ?thesis using \<open>s = 0\<close> by simp
    qed
    then show ?thesis
      unfolding z_def [symmetric] D_def [symmetric] sd int64OfFloat_def using c by simp
  qed
qed

text \<open>In general: the whole seconds are the truncation when the part below the second
  leaves to the next whole second more than the two rounding errors, \<open>2\<^sup>-\<^sup>5\<^sup>4\<close> of the
  fraction and \<open>2\<^sup>E\<^sup>-\<^sup>5\<^sup>3\<close> of the sum, where \<open>2\<^sup>E\<^sup>+\<^sup>1\<close> is a bound of the seconds.\<close>

lemma whole_seconds_exact_gen:
  assumes c: "of_int \<bar>sint d sdiv 1000000000\<bar> + 1 \<le> power_int (2 :: rat) (E + 1)"
    and g: "of_int \<bar>sint d smod 1000000000\<bar> / 1000000000 + power_int 2 (- 54) +
            power_int 2 (E - 53) < (1 :: rat)"
  shows "int64OfFloat (Seconds d) = word_of_int (sint d sdiv 1000000000)"
proof -
  define D where "D = sint d"
  have lo: "- 9223372036854775808 \<le> D" and hi: "D < 9223372036854775808"
    unfolding D_def using sint_ge [of d] sint_lt [of d] by simp_all
  note c' = c [unfolded D_def [symmetric]]
  note g' = g [unfolded D_def [symmetric]]
  define z where "z = Seconds d"
  show ?thesis
  proof (cases "0 \<le> D")
    case True
    define s where "s = D div 1000000000"
    define ns where "ns = D mod 1000000000"
    have sd: "D sdiv 1000000000 = s" and sm: "D smod 1000000000 = ns"
      using True by (simp_all add: signed_divide_int_def signed_modulo_int_def s_def ns_def
          sgn_if)
    have ns0: "0 \<le> ns" and ns1: "ns < 1000000000" unfolding ns_def by simp_all
    have dm: "s * 1000000000 + ns = D" unfolding s_def ns_def by simp
    have s0: "0 \<le> s" unfolding s_def using True by (simp add: pos_imp_zdiv_nonneg_iff)
    have s2: "s < 2 ^ 52" using dm ns0 hi by simp
    have z: "z = float64 (float64 (of_int s) +
                 float64 (float64 (of_int ns) / float64 1000000000))"
      unfolding z_def Seconds_def Let_def D_def [symmetric] sd sm ..
    have b: "of_int s \<le> z"
      unfolding z using seconds_up [of ns s] ns0 ns1 s0 s2 by simp
    have c2: "(of_int s :: rat) + 1 \<le> power_int 2 (E + 1)"
      using c' s0 unfolding sd by simp
    have g2: "of_int ns / 1000000000 + power_int 2 (- 54) + power_int 2 (E - 53) < (1 :: rat)"
      using g' ns0 unfolding sm by simp
    have "z < of_int s + 1"
      unfolding z by (rule seconds_up_strict [OF ns0 order_refl ns1 s0 s2 c2 g2])
    with b have "\<lfloor>z\<rfloor> = s" by (rule floor_unique)
    moreover have "0 \<le> z" using b s0 by (metis of_int_0_le_iff order_trans)
    ultimately show ?thesis
      unfolding z_def [symmetric] D_def [symmetric] sd int64OfFloat_def by simp
  next
    case False
    define F where "F = - D"
    define s where "s = F div 1000000000"
    define ns where "ns = F mod 1000000000"
    have F0: "0 < F" using False unfolding F_def by simp
    have sd: "D sdiv 1000000000 = - s" and sm: "D smod 1000000000 = - ns"
      using False by (simp_all add: signed_divide_int_def signed_modulo_int_def s_def ns_def
          F_def sgn_if)
    have ns0: "0 \<le> ns" and ns1: "ns < 1000000000" unfolding ns_def by simp_all
    have dm: "s * 1000000000 + ns = F" unfolding s_def ns_def by simp
    have s0: "0 \<le> s" unfolding s_def using F0 by (simp add: pos_imp_zdiv_nonneg_iff)
    have Fh: "F \<le> 9223372036854775808" using lo unfolding F_def by simp
    then have s2: "s < 2 ^ 52" using dm ns0 by simp
    have z: "z = float64 (float64 (of_int (- s)) +
                 float64 (float64 (of_int (- ns)) / float64 1000000000))"
      unfolding z_def Seconds_def Let_def D_def [symmetric] sd sm ..
    have b: "z \<le> of_int (- s)"
      unfolding z using seconds_down [of "- ns" "- s"] ns0 ns1 s0 s2 by simp
    have m0: "- s \<le> 0" "- (2 ^ 52) < - s" "- ns \<le> 0" using s0 s2 ns0 by simp_all
    have c2: "1 - (of_int (- s) :: rat) \<le> power_int 2 (E + 1)"
      using c' s0 unfolding sd by simp
    have g2: "of_int ns / 1000000000 + power_int 2 (- 54) + power_int 2 (E - 53) < (1 :: rat)"
      using g' ns0 unfolding sm by simp
    have "of_int (- s) - 1 < z"
      unfolding z by (rule seconds_down_strict [OF m0(3) order_refl ns1 m0(1,2) c2 g2])
    with b have c: "\<lceil>z\<rceil> = - s" by (intro ceiling_unique) simp_all
    have "0 \<le> z \<Longrightarrow> \<lfloor>z\<rfloor> = - s"
    proof -
      assume "0 \<le> z"
      then have "(0 :: rat) \<le> of_int (- s)" using b by linarith
      then have "s = 0" using s0 by simp
      then have "z = 0" using b \<open>0 \<le> z\<close> by simp
      then show ?thesis using \<open>s = 0\<close> by simp
    qed
    then show ?thesis
      unfolding z_def [symmetric] D_def [symmetric] sd int64OfFloat_def using c by simp
  qed
qed

text \<open>The hexadecimal encoding tells keys apart.\<close>

lemma hextable_nth_inj:
  assumes "i < 16" and "j < 16" and "hextable ! i = hextable ! j"
  shows "i = j"
proof -
  have d: "distinct hextable" and l: "length hextable = 16"
    by (simp_all add: hextable_def)
  show ?thesis
    using assms nth_eq_iff_index_eq [OF d, of i j] unfolding l by simp
qed

lemma hexByte_inj:
  assumes "hexByte c = hexByte c'"
  shows "c = c'"
proof -
  define n where "n = (of_char c :: nat)"
  define n' where "n' = (of_char c' :: nat)"
  have b: "n < 256" "n' < 256" unfolding n_def n'_def by simp_all
  then have q: "n div 16 < 16" "n' div 16 < 16" by simp_all
  have r: "n mod 16 < 16" "n' mod 16 < 16" by simp_all
  from assms have "hextable ! (n div 16) = hextable ! (n' div 16)"
    and "hextable ! (n mod 16) = hextable ! (n' mod 16)"
    by (simp_all add: hexByte_def n_def n'_def)
  then have "n div 16 = n' div 16" and "n mod 16 = n' mod 16"
    using hextable_nth_inj q r by blast+
  then have "n = n'" by (metis div_mult_mod_eq)
  then show ?thesis unfolding n_def n'_def by simp
qed

lemma EncodeToString_Cons: "EncodeToString (c # cs) = hexByte c @ EncodeToString cs"
  by (simp add: EncodeToString_def)

lemma length_hexByte: "length (hexByte c) = 2"
  by (simp add: hexByte_def)

lemma EncodeToString_inj: "EncodeToString a = EncodeToString b \<Longrightarrow> a = b"
proof (induction a arbitrary: b)
  case Nil
  then show ?case
    by (cases b) (simp_all add: EncodeToString_def hexByte_def)
next
  case (Cons c cs)
  show ?case
  proof (cases b)
    case Nil
    with Cons.prems show ?thesis by (simp add: EncodeToString_def hexByte_def)
  next
    case (Cons c' cs')
    with Cons.prems have "hexByte c @ EncodeToString cs = hexByte c' @ EncodeToString cs'"
      by (simp add: EncodeToString_Cons)
    then have "hexByte c = hexByte c'" and "EncodeToString cs = EncodeToString cs'"
      by (simp_all add: length_hexByte)
    then show ?thesis using Cons Cons.IH hexByte_inj by blast
  qed
qed

lemma statusEntries_map:
  "set keys \<subseteq> dom (heartbeatMessages m) \<Longrightarrow>
   statusEntries m keys = map (\<lambda>k. statusEntry k (the (heartbeatMessages m k))) keys"
  by (induction keys) auto

lemma HexPublicKey_statusEntry: "HexPublicKey (statusEntry k v) = EncodeToString k"
  by (simp add: statusEntry_def)

lemma distinct_hex_keys:
  assumes "distinct keys"
  shows "distinct (map HexPublicKey (map (\<lambda>k. statusEntry k (the (heartbeatMessages m k))) keys))"
proof -
  have e: "map HexPublicKey (map (\<lambda>k. statusEntry k (the (heartbeatMessages m k))) keys)
      = map EncodeToString keys"
    by (simp add: HexPublicKey_statusEntry)
  have "inj_on EncodeToString (set keys)"
    using EncodeToString_inj by (rule inj_onI)
  then have d: "distinct (map EncodeToString keys)"
    using assms by (simp add: distinct_map)
  show ?thesis unfolding e by (rule d)
qed

text \<open>The hexadecimal keys of a sorted list of entries are the sorted list of the
  encodings of the keys.\<close>

lemma hex_keys_sorted_list:
  assumes "distinct keys" and "sorted_wrt (<) (map HexPublicKey (sort_key HexPublicKey
      (map (\<lambda>k. statusEntry k (f k)) keys)))"
  shows "map HexPublicKey (sort_key HexPublicKey (map (\<lambda>k. statusEntry k (f k)) keys))
     = sorted_list_of_set (EncodeToString ` set keys)"
proof -
  define L where "L = map HexPublicKey (sort_key HexPublicKey
      (map (\<lambda>k. statusEntry k (f k)) keys))"
  have sd: "sorted L" "distinct L"
    using assms(2) unfolding L_def [symmetric] by (simp_all add: strict_sorted_iff)
  have "set L = (\<lambda>k. HexPublicKey (statusEntry k (f k))) ` set keys"
    unfolding L_def by (simp add: image_image)
  then have s: "set L = EncodeToString ` set keys"
    by (simp add: HexPublicKey_statusEntry)
  have "sorted_list_of_set (set L) = L"
    by (rule sorted_list_of_set.idem_if_sorted_distinct [OF sd])
  then have "L = sorted_list_of_set (EncodeToString ` set keys)" unfolding s by (rule sym)
  then show ?thesis unfolding L_def .
qed

text \<open>Sorting by a key that no two elements share gives one result for every order of
  the input: whichever algorithm \<^verbatim>\<open>sort.Slice\<close> runs, this is its result.\<close>

lemma sort_key_order_irrelevant:
  assumes "mset xs = mset ys" and "distinct (map f xs)"
  shows "sort_key f xs = sort_key f ys"
proof -
  have s: "set xs = set ys" using assms(1) by (rule mset_eq_setD)
  have "mset (map f ys) = mset (map f xs)" using assms(1) by simp
  then have dy: "distinct (map f ys)" using assms(2) by (metis mset_eq_imp_distinct_iff)
  have inj: "inj_on f (set xs)" using assms(2) by (simp add: distinct_map)
  have d1: "distinct (map f (sort_key f xs))"
    using assms(2) by (metis mset_eq_imp_distinct_iff mset_map mset_sort)
  have d2: "distinct (map f (sort_key f ys))"
    using dy by (metis mset_eq_imp_distinct_iff mset_map mset_sort)
  have "set (map f (sort_key f xs)) = set (map f (sort_key f ys))"
    using s by simp
  then have "map f (sort_key f xs) = map f (sort_key f ys)"
    using sorted_distinct_set_unique [OF sorted_sort_key d1 sorted_sort_key d2] by simp
  moreover have "inj_on f (set (sort_key f xs) \<union> set (sort_key f ys))"
    using inj s by simp
  ultimately show ?thesis by (simp add: inj_on_map_eq_map)
qed

lemma seconds_rounded_up: "int64OfFloat (Seconds 16777216999999999) = 16777217"
  by code_simp

lemma longRunning_pass:
  "heartbeatMessages (computeAllHeartbeatMessages exampleMethods [''A''] longRunningMonitor) ''A''
     = Some ((convertFromExportedStruct exampleDTO 50)\<lparr>maxInactiveTime := 50,
          timeStamp := 4990, lastUptimeDowntime := 5000,
          totalUpTime := 16777216999999999\<rparr>)"
  by (simp add: computeAllHeartbeatMessages_def computeEntry_def longRunningMonitor_def
      exampleMonitor_def exampleMethods_def Evaluate_def exampleTimer_def exampleDTO_def
      convertFromExportedStruct_def Now_def Let_def GetIsActive_def Sub_def maxDuration_def
      Unix0_def Duration_def)

text \<open>
  C5, as stated, has the up and down times truncated to whole seconds. A record with
  16777216.999999999 seconds of uptime is reported with 16777217 seconds: the sum that
  \<^verbatim>\<open>Seconds\<close> computes in \<^verbatim>\<open>float64\<close> rounds up to the next whole number.
\<close>

theorem C5_GetHeartbeats_counterexample:
  "map pkTotalUpTime (fst (GetHeartbeats exampleMethods [''A''] [''A''] longRunningMonitor))
     = [16777217] \<and>
   sint (totalUpTime (the (heartbeatMessages
     (snd (GetHeartbeats exampleMethods [''A''] [''A''] longRunningMonitor)) ''A'')))
     sdiv 1000000000 = 16777216"
  by (simp add: GetHeartbeats_def Let_def longRunning_pass statusEntry_def
      seconds_rounded_up signed_divide_int_def)

text \<open>
  C5, amended: for every state of the map and all orders \<open>keys1\<close>, \<open>keys2\<close> in which the
  two loops of \<^verbatim>\<open>GetHeartbeats\<close> may visit it, the call first runs the aggregation pass,
  in the order \<open>keys1\<close>, and leaves the monitor as the pass leaves it; it returns one entry
  for each record of the map, built from the record as the pass leaves it, with the
  hexadecimal encoding of the key; the hexadecimal keys of the list returned are strictly
  ascending, and are the sorted list of the encodings of the map's keys, whatever the two
  orders. The list returned is the same for any other order \<open>keys3\<close> of the second loop.
  (The pass reads the clock once for each record, so the records it leaves, and with them
  the entries, may depend on the order of the first loop.) The up time and the down time
  of an entry are \<^verbatim>\<open>int64(d.Seconds())\<close>: the duration truncated to whole seconds,
  whenever the duration is shorter than \<open>2\<^sup>2\<^sup>4\<close> s = 16777216 s in magnitude, or its part
  below the second is at most 0.999999 s, or, for some \<open>E\<close> with less than \<open>2\<^sup>E\<^sup>+\<^sup>1\<close> whole
  seconds, that part leaves more than \<open>2\<^sup>-\<^sup>5\<^sup>4 + 2\<^sup>E\<^sup>-\<^sup>5\<^sup>3\<close> s to the next second; for every
  other duration, the truncation or the next whole second away from zero.
\<close>

theorem C5_GetHeartbeats:
  assumes "iterationOrder (heartbeatMessages m) keys1"
    and "iterationOrder (heartbeatMessages m) keys2"
    and "iterationOrder (heartbeatMessages m) keys3"
  shows "snd (GetHeartbeats ops keys1 keys2 m) = computeAllHeartbeatMessages ops keys1 m \<and>
    mset (fst (GetHeartbeats ops keys1 keys2 m)) =
      image_mset (\<lambda>k. statusEntry k
          (the (heartbeatMessages (computeAllHeartbeatMessages ops keys1 m) k)))
        (mset_set (dom (heartbeatMessages m))) \<and>
    length (fst (GetHeartbeats ops keys1 keys2 m)) = card (dom (heartbeatMessages m)) \<and>
    sorted_wrt (<) (map HexPublicKey (fst (GetHeartbeats ops keys1 keys2 m))) \<and>
    fst (GetHeartbeats ops keys1 keys3 m) = fst (GetHeartbeats ops keys1 keys2 m) \<and>
    map HexPublicKey (fst (GetHeartbeats ops keys1 keys2 m))
      = sorted_list_of_set (EncodeToString ` dom (heartbeatMessages m)) \<and>
    HexPublicKey (statusEntry k v) = EncodeToString k \<and>
    (\<bar>sint (totalUpTime v)\<bar> < 16777216000000000 \<or>
       \<bar>sint (totalUpTime v) smod 1000000000\<bar> \<le> 999999000 \<or>
       of_int \<bar>sint (totalUpTime v) sdiv 1000000000\<bar> + 1 \<le> power_int (2 :: rat) (E + 1) \<and>
       of_int \<bar>sint (totalUpTime v) smod 1000000000\<bar> / 1000000000 + power_int 2 (- 54) +
         power_int 2 (E - 53) < (1 :: rat) \<longrightarrow>
     pkTotalUpTime (statusEntry k v) = word_of_int (sint (totalUpTime v) sdiv 1000000000)) \<and>
    (pkTotalUpTime (statusEntry k v) = word_of_int (sint (totalUpTime v) sdiv 1000000000) \<or>
     pkTotalUpTime (statusEntry k v) =
       word_of_int (sint (totalUpTime v) sdiv 1000000000 +
         (if 0 \<le> sint (totalUpTime v) then 1 else - 1))) \<and>
    (\<bar>sint (totalDownTime v)\<bar> < 16777216000000000 \<or>
       \<bar>sint (totalDownTime v) smod 1000000000\<bar> \<le> 999999000 \<or>
       of_int \<bar>sint (totalDownTime v) sdiv 1000000000\<bar> + 1 \<le> power_int (2 :: rat) (E + 1) \<and>
       of_int \<bar>sint (totalDownTime v) smod 1000000000\<bar> / 1000000000 + power_int 2 (- 54) +
         power_int 2 (E - 53) < (1 :: rat) \<longrightarrow>
     pkTotalDownTime (statusEntry k v) = word_of_int (sint (totalDownTime v) sdiv 1000000000)) \<and>
    (pkTotalDownTime (statusEntry k v) = word_of_int (sint (totalDownTime v) sdiv 1000000000) \<or>
     pkTotalDownTime (statusEntry k v) =
       word_of_int (sint (totalDownTime v) sdiv 1000000000 +
         (if 0 \<le> sint (totalDownTime v) then 1 else - 1)))"
proof -
  define m' where "m' = computeAllHeartbeatMessages ops keys1 m"
  define g where "g = (\<lambda>k. statusEntry k (the (heartbeatMessages m' k)))"
  have dm: "dom (heartbeatMessages m') = dom (heartbeatMessages m)"
    unfolding m'_def using computeAllHeartbeatMessages_frame [of ops keys1 m] by blast
  from assms(2) have d2: "distinct keys2" and s2: "set keys2 = dom (heartbeatMessages m)"
    by (simp_all add: iterationOrder_def)
  from assms(3) have d3: "distinct keys3" and s3: "set keys3 = dom (heartbeatMessages m)"
    by (simp_all add: iterationOrder_def)
  have e2: "statusEntries m' keys2 = map g keys2"
    unfolding g_def by (rule statusEntries_map) (simp add: s2 dm)
  have e3: "statusEntries m' keys3 = map g keys3"
    unfolding g_def by (rule statusEntries_map) (simp add: s3 dm)
  have r2: "fst (GetHeartbeats ops keys1 keys2 m) = sort_key HexPublicKey (map g keys2)"
    by (simp add: GetHeartbeats_def Let_def m'_def [symmetric] e2)
  have r3: "fst (GetHeartbeats ops keys1 keys3 m) = sort_key HexPublicKey (map g keys3)"
    by (simp add: GetHeartbeats_def Let_def m'_def [symmetric] e3)
  have 1: "snd (GetHeartbeats ops keys1 keys2 m) = m'"
    by (simp add: GetHeartbeats_def Let_def m'_def)
  have k2: "mset keys2 = mset_set (dom (heartbeatMessages m))"
    using mset_set_set [OF d2] s2 by simp
  have k3: "mset keys3 = mset_set (dom (heartbeatMessages m))"
    using mset_set_set [OF d3] s3 by simp
  have 2: "mset (fst (GetHeartbeats ops keys1 keys2 m)) =
      image_mset g (mset_set (dom (heartbeatMessages m)))"
    unfolding r2 by (simp add: k2 [symmetric])
  have "length (fst (GetHeartbeats ops keys1 keys2 m)) = length keys2"
    unfolding r2 by simp
  also have "\<dots> = card (dom (heartbeatMessages m))"
    using distinct_card [OF d2] s2 by simp
  finally have 3: "length (fst (GetHeartbeats ops keys1 keys2 m))
      = card (dom (heartbeatMessages m))" .
  have dh: "distinct (map HexPublicKey (map g keys2))"
    unfolding g_def by (rule distinct_hex_keys [OF d2])
  have "mset (map HexPublicKey (sort_key HexPublicKey (map g keys2)))
      = mset (map HexPublicKey (map g keys2))" by (simp only: mset_map mset_sort)
  then have "distinct (map HexPublicKey (sort_key HexPublicKey (map g keys2)))"
    using dh by (metis mset_eq_imp_distinct_iff)
  then have 4: "sorted_wrt (<) (map HexPublicKey (fst (GetHeartbeats ops keys1 keys2 m)))"
    unfolding r2 by (simp add: strict_sorted_iff)
  have mm: "mset (map g keys2) = mset (map g keys3)" by (simp add: k2 k3)
  have 5: "fst (GetHeartbeats ops keys1 keys3 m) = fst (GetHeartbeats ops keys1 keys2 m)"
    unfolding r2 r3 by (rule sort_key_order_irrelevant [OF mm dh, symmetric])
  have 6: "map HexPublicKey (fst (GetHeartbeats ops keys1 keys2 m))
      = sorted_list_of_set (EncodeToString ` dom (heartbeatMessages m))"
    using hex_keys_sorted_list [OF d2, of "\<lambda>k. the (heartbeatMessages m' k)"] 4
    unfolding r2 g_def s2 by blast
  have 7: "HexPublicKey (statusEntry k v) = EncodeToString k"
    by (rule HexPublicKey_statusEntry)
  have uUp: "pkTotalUpTime (statusEntry k v) = int64OfFloat (Seconds (totalUpTime v))"
    by (simp add: statusEntry_def)
  have 8: "\<bar>sint (totalUpTime v)\<bar> < 16777216000000000 \<or>
       \<bar>sint (totalUpTime v) smod 1000000000\<bar> \<le> 999999000 \<or>
       of_int \<bar>sint (totalUpTime v) sdiv 1000000000\<bar> + 1 \<le> power_int (2 :: rat) (E + 1) \<and>
       of_int \<bar>sint (totalUpTime v) smod 1000000000\<bar> / 1000000000 + power_int 2 (- 54) +
         power_int 2 (E - 53) < (1 :: rat) \<longrightarrow>
     pkTotalUpTime (statusEntry k v) = word_of_int (sint (totalUpTime v) sdiv 1000000000)"
    unfolding uUp
    using whole_seconds_exact [of "totalUpTime v"] whole_seconds_exact_gen [of "totalUpTime v" E]
    by blast
  have 9: "pkTotalUpTime (statusEntry k v) = word_of_int (sint (totalUpTime v) sdiv 1000000000) \<or>
     pkTotalUpTime (statusEntry k v) =
       word_of_int (sint (totalUpTime v) sdiv 1000000000 +
         (if 0 \<le> sint (totalUpTime v) then 1 else - 1))"
    using whole_seconds [of "totalUpTime v"] by (simp add: statusEntry_def)
  have uDown: "pkTotalDownTime (statusEntry k v) = int64OfFloat (Seconds (totalDownTime v))"
    by (simp add: statusEntry_def)
  have 10: "\<bar>sint (totalDownTime v)\<bar> < 16777216000000000 \<or>
       \<bar>sint (totalDownTime v) smod 1000000000\<bar> \<le> 999999000 \<or>
       of_int \<bar>sint (totalDownTime v) sdiv 1000000000\<bar> + 1 \<le> power_int (2 :: rat) (E + 1) \<and>
       of_int \<bar>sint (totalDownTime v) smod 1000000000\<bar> / 1000000000 + power_int 2 (- 54) +
         power_int 2 (E - 53) < (1 :: rat) \<longrightarrow>
     pkTotalDownTime (statusEntry k v) = word_of_int (sint (totalDownTime v) sdiv 1000000000)"
    unfolding uDown
    using whole_seconds_exact [of "totalDownTime v"] whole_seconds_exact_gen [of "totalDownTime v" E]
    by blast
  have 11: "pkTotalDownTime (statusEntry k v) = word_of_int (sint (totalDownTime v) sdiv 1000000000) \<or>
     pkTotalDownTime (statusEntry k v) =
       word_of_int (sint (totalDownTime v) sdiv 1000000000 +
         (if 0 \<le> sint (totalDownTime v) then 1 else - 1))"
    using whole_seconds [of "totalDownTime v"] by (simp add: statusEntry_def)
  show ?thesis
    using 1 2 3 4 5 6 7 8 9 10 11 unfolding m'_def g_def
    by (intro conjI)
qed

text \<open>The snapshot of the two tracked validators, the map visited in either order; and
  the entries of records with 1.999999999 and with 16777216.999999998 seconds of uptime:
  1 and 16777216 seconds.\<close>

lemma hex_A: "EncodeToString ''A'' = ''41''"
  by (simp add: EncodeToString_def hexByte_def hextable_def)

lemma hex_B: "EncodeToString ''B'' = ''42''"
  by (simp add: EncodeToString_def hexByte_def hextable_def)

lemma hex_order: "\<not> (''42'' :: string) \<le> ''41''"
  by (simp add: less_eq_char_def)

text \<open>The second validator of \<open>edgeMonitor\<close> is within its threshold at the first reading
  of the clock and beyond it at the second: the entries of the snapshot depend on the
  order of the first loop.\<close>

lemma edge_AB:
  "map_option isActive (heartbeatMessages
      (computeAllHeartbeatMessages exampleMethods [''A'', ''B''] edgeMonitor) ''A'') = Some False \<and>
   map_option isActive (heartbeatMessages
      (computeAllHeartbeatMessages exampleMethods [''A'', ''B''] edgeMonitor) ''B'') = Some False"
  by (simp add: computeAllHeartbeatMessages_def computeEntry_def edgeMonitor_def
      exampleMonitor_def exampleMethods_def Evaluate_def exampleTimer_def exampleDTO_def
      convertFromExportedStruct_def Now_def Let_def GetIsActive_def Sub_def maxDuration_def
      Unix0_def Duration_def)

lemma edge_BA:
  "map_option isActive (heartbeatMessages
      (computeAllHeartbeatMessages exampleMethods [''B'', ''A''] edgeMonitor) ''A'') = Some False \<and>
   map_option isActive (heartbeatMessages
      (computeAllHeartbeatMessages exampleMethods [''B'', ''A''] edgeMonitor) ''B'') = Some True"
  by (simp add: computeAllHeartbeatMessages_def computeEntry_def edgeMonitor_def
      exampleMonitor_def exampleMethods_def Evaluate_def exampleTimer_def exampleDTO_def
      convertFromExportedStruct_def Now_def Let_def GetIsActive_def Sub_def maxDuration_def
      Unix0_def Duration_def)

lemma snapshot_two:
  assumes "heartbeatMessages (computeAllHeartbeatMessages ops keys1 m) ''A'' = Some va"
    and "heartbeatMessages (computeAllHeartbeatMessages ops keys1 m) ''B'' = Some vb"
  shows "fst (GetHeartbeats ops keys1 [''A'', ''B''] m) = [statusEntry ''A'' va, statusEntry ''B'' vb]"
  using assms
  by (simp add: GetHeartbeats_def Let_def HexPublicKey_statusEntry hex_A hex_B hex_order)

lemma first_loop_order:
  "map pkIsActive (fst (GetHeartbeats exampleMethods [''A'', ''B''] [''A'', ''B''] edgeMonitor))
     = [False, False] \<and>
   map pkIsActive (fst (GetHeartbeats exampleMethods [''B'', ''A''] [''A'', ''B''] edgeMonitor))
     = [False, True]"
proof -
  from edge_AB obtain va vb where
    a: "heartbeatMessages (computeAllHeartbeatMessages exampleMethods [''A'', ''B''] edgeMonitor)
         ''A'' = Some va" "\<not> isActive va"
    and b: "heartbeatMessages (computeAllHeartbeatMessages exampleMethods [''A'', ''B''] edgeMonitor)
         ''B'' = Some vb" "\<not> isActive vb"
    by auto
  from edge_BA obtain wa wb where
    c: "heartbeatMessages (computeAllHeartbeatMessages exampleMethods [''B'', ''A''] edgeMonitor)
         ''A'' = Some wa" "\<not> isActive wa"
    and d: "heartbeatMessages (computeAllHeartbeatMessages exampleMethods [''B'', ''A''] edgeMonitor)
         ''B'' = Some wb" "isActive wb"
    by auto
  show ?thesis
    unfolding snapshot_two [OF a(1) b(1)] snapshot_two [OF c(1) d(1)]
    using a(2) b(2) c(2) d(2) by (simp add: statusEntry_def)
qed


lemma trackingMonitor_order':
  "iterationOrder (heartbeatMessages trackingMonitor) [''B'', ''A'']"
  by (auto simp add: iterationOrder_def trackingMonitor_def)

theorem C5_GetHeartbeats_witness:
  "iterationOrder (heartbeatMessages trackingMonitor) [''A'', ''B''] \<and>
   iterationOrder (heartbeatMessages trackingMonitor) [''B'', ''A''] \<and>
   sorted_wrt (<) (map HexPublicKey
     (fst (GetHeartbeats exampleMethods [''A'', ''B''] [''B'', ''A''] trackingMonitor))) \<and>
   length (fst (GetHeartbeats exampleMethods [''A'', ''B''] [''B'', ''A''] trackingMonitor)) = 2 \<and>
   map HexPublicKey
     (fst (GetHeartbeats exampleMethods [''A'', ''B''] [''B'', ''A''] trackingMonitor))
     = [''41'', ''42''] \<and>
   pkTotalUpTime (statusEntry ''A''
     ((convertFromExportedStruct exampleDTO 50)\<lparr>totalUpTime := 1999999999\<rparr>)) = 1 \<and>
   pkTotalUpTime (statusEntry ''A''
     ((convertFromExportedStruct exampleDTO 50)\<lparr>totalUpTime := 16777216999999998\<rparr>))
     = 16777216"
proof -
  note u = C5_GetHeartbeats [OF trackingMonitor_order trackingMonitor_order'
      trackingMonitor_order, where ops = exampleMethods and k = "''A''" and E = 24
      and v = "(convertFromExportedStruct exampleDTO 50)\<lparr>totalUpTime := 16777216999999998\<rparr>"]
  note u8 = u [THEN conjunct2, THEN conjunct2, THEN conjunct2, THEN conjunct2, THEN conjunct2,
      THEN conjunct2, THEN conjunct2, THEN conjunct1]
  have 5: "pkTotalUpTime (statusEntry ''A''
     ((convertFromExportedStruct exampleDTO 50)\<lparr>totalUpTime := 16777216999999998\<rparr>))
     = 16777216"
    using u8
    by (simp add: signed_divide_int_def signed_modulo_int_def power_int_def power_divide)
  note t = C5_GetHeartbeats [OF trackingMonitor_order trackingMonitor_order'
      trackingMonitor_order, where ops = exampleMethods and k = "''A''" and E = 23
      and v = "(convertFromExportedStruct exampleDTO 50)\<lparr>totalUpTime := 1999999999\<rparr>"]
  note t8 = t [THEN conjunct2, THEN conjunct2, THEN conjunct2, THEN conjunct2, THEN conjunct2,
      THEN conjunct2, THEN conjunct2, THEN conjunct1]
  have 4: "pkTotalUpTime (statusEntry ''A''
     ((convertFromExportedStruct exampleDTO 50)\<lparr>totalUpTime := 1999999999\<rparr>)) = 1"
    using t8 by (simp add: signed_divide_int_def)
  note t3 = t [THEN conjunct2, THEN conjunct2, THEN conjunct1]
  note t4 = t [THEN conjunct2, THEN conjunct2, THEN conjunct2, THEN conjunct1]
  note t5 = t [THEN conjunct2, THEN conjunct2, THEN conjunct2, THEN conjunct2, THEN conjunct1]
  have c: "card (dom (heartbeatMessages trackingMonitor)) = 2"
    by (simp add: trackingMonitor_def)
  have 2: "length (fst (GetHeartbeats exampleMethods [''A'', ''B''] [''B'', ''A'']
      trackingMonitor)) = 2"
    using t3 c by simp
  define m' where "m' = computeAllHeartbeatMessages exampleMethods [''A'', ''B''] trackingMonitor"
  have "dom (heartbeatMessages m') = dom (heartbeatMessages trackingMonitor)"
    unfolding m'_def
    using computeAllHeartbeatMessages_frame [of exampleMethods "[''A'', ''B'']" trackingMonitor]
    by blast
  also have "\<dots> = {''A'', ''B''}" by (auto simp add: trackingMonitor_def)
  finally have d: "dom (heartbeatMessages m') = {''A'', ''B''}" .
  have "''A'' \<in> dom (heartbeatMessages m')" and "''B'' \<in> dom (heartbeatMessages m')"
    unfolding d by simp_all
  then obtain va vb where
    a: "heartbeatMessages m' ''A'' = Some va" and b: "heartbeatMessages m' ''B'' = Some vb"
    by blast
  have "map HexPublicKey
     (fst (GetHeartbeats exampleMethods [''A'', ''B''] [''A'', ''B''] trackingMonitor))
     = [''41'', ''42'']"
    by (simp add: GetHeartbeats_def Let_def m'_def [symmetric] a b HexPublicKey_statusEntry
        hex_A hex_B hex_order)
  then have 3: "map HexPublicKey
     (fst (GetHeartbeats exampleMethods [''A'', ''B''] [''B'', ''A''] trackingMonitor))
     = [''41'', ''42'']" unfolding t5 .
  show ?thesis
    by (rule conjI [OF trackingMonitor_order conjI [OF trackingMonitor_order'
        conjI [OF t4 conjI [OF 2 conjI [OF 3 conjI [OF 4 5]]]]]])
qed


end
